(* ===== verification/Go_Prelude.thy ===== *)
theory Go_Prelude
  imports
    Main
    "HOL-Library.Sublist"
    "HOL-Library.Multiset"
    "HOL-Library.List_Lexorder"
    "HOL-Library.Char_ord"
begin

text \<open>
  The prelude of the development: the parts of Go and of its standard library that the gateway's
  code uses in more than one component, and the generic facts the component proofs share.

  A Go string is a sequence of bytes, so it is a \<^typ>\<open>string\<close> (a list of 8-bit characters) and
  \<open>len\<close> is \<^const>\<open>length\<close>. A Go map is a partial function; ranging over a map visits its keys in
  an order the language leaves open, so a definition that ranges over a map takes the order of
  that traversal as an argument and \<open>iter_order\<close> says that it is one. A time is an \<^typ>\<open>int\<close> of
  nanoseconds, and the code's \<open>time.Now()\<close> is an argument of the definitions that read the clock.
  A fallible operation returns a sum, \<^const>\<open>Inl\<close> for the error.
\<close>

named_theorems go_string_defs \<open>definitions of the string helpers\<close>
named_theorems go_map_simps \<open>facts on maps and their traversal\<close>

type_synonym time = int
type_synonym duration = int
type_synonym 'v gomap = "string \<Rightarrow> 'v option"

abbreviation (input) emptymap :: "'v gomap" where
  "emptymap \<equiv> Map.empty"

section \<open>Strings\<close>

definition HasPrefix :: "string \<Rightarrow> string \<Rightarrow> bool" where
  "HasPrefix s p = (take (length p) s = p)"

definition HasSuffix :: "string \<Rightarrow> string \<Rightarrow> bool" where
  "HasSuffix s p = HasPrefix (rev s) (rev p)"

definition CutPrefix :: "string \<Rightarrow> string \<Rightarrow> string \<times> bool" where
  "CutPrefix s p = (if HasPrefix s p then (drop (length p) s, True) else (s, False))"

definition CutSuffix :: "string \<Rightarrow> string \<Rightarrow> string \<times> bool" where
  "CutSuffix s p = (if HasSuffix s p then (take (length s - length p) s, True) else (s, False))"

definition TrimPrefix :: "string \<Rightarrow> string \<Rightarrow> string" where
  "TrimPrefix s p = fst (CutPrefix s p)"

text \<open>\<open>strings.Cut\<close> with a one-byte separator: before, after, found.\<close>

definition Cut :: "string \<Rightarrow> char \<Rightarrow> string \<times> string \<times> bool" where
  "Cut s c = (if c \<in> set s
     then (takeWhile (\<lambda>x. x \<noteq> c) s, tl (dropWhile (\<lambda>x. x \<noteq> c) s), True)
     else (s, [], False))"

text \<open>\<open>strings.Split\<close> with a one-byte separator; it never returns the empty slice.\<close>

fun Split :: "string \<Rightarrow> char \<Rightarrow> string list" where
  "Split [] c = [[]]"
| "Split (x # xs) c =
     (if x = c then [] # Split xs c
      else case Split xs c of [] \<Rightarrow> [[x]] | w # ws \<Rightarrow> (x # w) # ws)"

fun Join :: "string list \<Rightarrow> string \<Rightarrow> string" where
  "Join [] sep = []"
| "Join [w] sep = w"
| "Join (w # v # ws) sep = w @ sep @ Join (v # ws) sep"

text \<open>\<open>strings.TrimRight\<close> and \<open>strings.Trim\<close> with a one-byte cutset.\<close>

definition TrimRight :: "string \<Rightarrow> char \<Rightarrow> string" where
  "TrimRight s c = rev (dropWhile (\<lambda>x. x = c) (rev s))"

definition Trim :: "string \<Rightarrow> char \<Rightarrow> string" where
  "Trim s c = TrimRight (dropWhile (\<lambda>x. x = c) s) c"

text \<open>
  Letter case as \<open>strings\<close> treats the ASCII bytes; the header names and values to which the code
  applies it are ASCII.
\<close>

definition lower_char :: "char \<Rightarrow> char" where
  "lower_char c = (let n = of_char c :: nat in if 65 \<le> n \<and> n \<le> 90 then char_of (n + 32) else c)"

definition ToLower :: "string \<Rightarrow> string" where
  "ToLower s = map lower_char s"

definition EqualFold :: "string \<Rightarrow> string \<Rightarrow> bool" where
  "EqualFold s t = (ToLower s = ToLower t)"

fun Contains :: "string \<Rightarrow> string \<Rightarrow> bool" where
  "Contains [] t = (t = [])"
| "Contains (x # xs) t = (HasPrefix (x # xs) t \<or> Contains xs t)"

text \<open>\<open>strconv.Itoa\<close> and the verb \<open>%d\<close> on the non-negative numbers the code prints.\<close>

fun Itoa :: "nat \<Rightarrow> string" where
  "Itoa n = (if n < 10 then [char_of (48 + n)] else Itoa (n div 10) @ [char_of (48 + n mod 10)])"

declare Itoa.simps [simp del]

lemmas [go_string_defs] = HasPrefix_def HasSuffix_def CutPrefix_def CutSuffix_def TrimPrefix_def
  Cut_def TrimRight_def Trim_def

section \<open>Facts on strings\<close>

lemma HasPrefix_append [simp]: "HasPrefix (p @ s) p"
  by (simp add: HasPrefix_def)

lemma HasPrefix_iff: "HasPrefix s p \<longleftrightarrow> (\<exists>r. s = p @ r)"
proof
  assume "HasPrefix s p"
  then have "s = p @ drop (length p) s" by (metis HasPrefix_def append_take_drop_id)
  then show "\<exists>r. s = p @ r" ..
qed auto

lemma HasPrefix_prefix: "HasPrefix s p = prefix p s"
  by (auto simp: HasPrefix_iff prefix_def)

lemma HasPrefix_Nil [simp]: "HasPrefix s []"
  by (simp add: HasPrefix_def)

lemma CutPrefix_append [simp]: "CutPrefix (p @ s) p = (s, True)"
  by (simp add: CutPrefix_def)

lemma TrimPrefix_append [simp]: "TrimPrefix (p @ s) p = s"
  by (simp add: TrimPrefix_def)

lemma TrimPrefix_absent: "\<not> HasPrefix s p \<Longrightarrow> TrimPrefix s p = s"
  by (simp add: TrimPrefix_def CutPrefix_def)

lemma HasSuffix_append [simp]: "HasSuffix (s @ p) p"
  by (simp add: HasSuffix_def)

lemma HasSuffix_iff: "HasSuffix s p \<longleftrightarrow> (\<exists>r. s = r @ p)"
proof
  assume "HasSuffix s p"
  then obtain r where "rev s = rev p @ r" by (auto simp: HasSuffix_def HasPrefix_iff)
  then have "s = rev r @ p" by (metis rev_append rev_rev_ident)
  then show "\<exists>r. s = r @ p" ..
qed auto

lemma CutSuffix_append [simp]: "CutSuffix (s @ p) p = (s, True)"
  by (simp add: CutSuffix_def)

lemma CutPrefix_True: "CutPrefix s p = (r, True) \<Longrightarrow> s = p @ r"
  by (auto simp: CutPrefix_def HasPrefix_iff split: if_splits)

lemma CutSuffix_True: "CutSuffix s p = (r, True) \<Longrightarrow> s = r @ p"
  by (auto simp: CutSuffix_def HasSuffix_iff split: if_splits)

lemma Cut_found: "c \<notin> set b \<Longrightarrow> Cut (b @ c # a) c = (b, a, True)"
  by (induction b) (auto simp: Cut_def)

lemma Cut_absent: "c \<notin> set s \<Longrightarrow> Cut s c = (s, [], False)"
  by (simp add: Cut_def)

lemma Cut_True: "Cut s c = (b, a, True) \<Longrightarrow> s = b @ c # a \<and> c \<notin> set b"
proof (induction s arbitrary: b)
  case (Cons x xs)
  show ?case
  proof (cases "x = c")
    case True
    with Cons.prems show ?thesis by (simp add: Cut_def)
  next
    case False
    with Cons.prems have "Cut xs c = (tl b, a, True)" "b = x # tl b"
      by (auto simp: Cut_def split: if_splits)
    with Cons.IH [of "tl b"] False show ?thesis by (metis append_Cons set_ConsD)
  qed
qed (simp add: Cut_def)

lemma Cut_before: "c \<notin> set (fst (Cut s c))"
  by (auto simp: Cut_def dest: set_takeWhileD)

lemma Split_nonempty [simp]: "Split s c \<noteq> []"
  by (induction s) (auto split: list.splits)

lemma Split_absent: "c \<notin> set s \<Longrightarrow> Split s c = [s]"
  by (induction s) auto

lemma Split_cons: "c \<notin> set w \<Longrightarrow> Split (w @ c # s) c = w # Split s c"
  by (induction w) auto

lemma Join_Cons: "ws \<noteq> [] \<Longrightarrow> Join (w # ws) sep = w @ sep @ Join ws sep"
  by (cases ws) auto

lemma Join_push: "Join ((x # w) # ws) sep = x # Join (w # ws) sep"
  by (cases ws) auto

lemma Join_Split: "Join (Split s c) [c] = s"
proof (induction s)
  case (Cons x xs)
  then show ?case
    by (cases "Split xs c") (auto simp: Join_Cons Join_push)
qed simp

lemma Split_parts: "\<forall>w \<in> set (Split s c). c \<notin> set w"
proof (induction s)
  case (Cons x xs)
  then show ?case by (cases "Split xs c") simp_all
qed simp

lemma TrimRight_last: "s = [] \<or> last s \<noteq> c \<Longrightarrow> TrimRight s c = s"
  by (cases s rule: rev_cases) (auto simp: TrimRight_def)

lemma Trim_ends: "s \<noteq> [] \<Longrightarrow> hd s \<noteq> c \<Longrightarrow> last s \<noteq> c \<Longrightarrow> Trim s c = s"
  by (cases s) (simp_all add: Trim_def TrimRight_last)

lemma append_sep_inject:
  "(c::char) \<notin> set a \<Longrightarrow> c \<notin> set a' \<Longrightarrow> (a @ c # b = a' @ c # b') = (a = a' \<and> b = b')"
  by (metis Cut_found prod.inject)

section \<open>Facts on lists\<close>

lemma set_map_filter: "set (List.map_filter f xs) = {y. \<exists>x \<in> set xs. f x = Some y}"
  by (induction xs) (auto simp: map_filter_simps split: option.splits)

lemma find_append:
  "find P (xs @ ys) = (case find P xs of None \<Rightarrow> find P ys | Some x \<Rightarrow> Some x)"
  by (induction xs) auto

section \<open>Maps and their traversal\<close>

definition iter_order :: "'v gomap \<Rightarrow> string list \<Rightarrow> bool" where
  "iter_order m ks = (distinct ks \<and> set ks = dom m)"

lemma iter_order_ex: "finite (dom m) \<Longrightarrow> \<exists>ks. iter_order m ks"
  unfolding iter_order_def by (metis finite_distinct_list)

lemma iter_order_lookup [go_map_simps]: "iter_order m ks \<Longrightarrow> k \<in> set ks \<longleftrightarrow> m k \<noteq> None"
  by (auto simp: iter_order_def)

text \<open>Deleting a list of keys, and inserting a list of named values in order.\<close>

definition delete_keys :: "string list \<Rightarrow> 'v gomap \<Rightarrow> 'v gomap" where
  "delete_keys ks m = (\<lambda>k. if k \<in> set ks then None else m k)"

fun insert_named :: "('v \<Rightarrow> string) \<Rightarrow> 'v list \<Rightarrow> 'v gomap \<Rightarrow> 'v gomap" where
  "insert_named name [] m = m"
| "insert_named name (v # vs) m = insert_named name vs (m(name v \<mapsto> v))"

lemma delete_keys_Nil [simp]: "delete_keys [] m = m"
  by (simp add: delete_keys_def)

lemma delete_keys_apply [go_map_simps]:
  "delete_keys ks m k = (if k \<in> set ks then None else m k)"
  by (simp add: delete_keys_def)

lemma delete_keys_Cons: "delete_keys (k # ks) m = delete_keys ks (m(k := None))"
  by (auto simp: delete_keys_def)

lemma dom_delete_keys [go_map_simps]: "dom (delete_keys ks m) = dom m - set ks"
  by (auto simp: delete_keys_def dom_def split: if_splits)

lemma insert_named_other:
  "k \<notin> name ` set vs \<Longrightarrow> insert_named name vs m k = m k"
  by (induction vs arbitrary: m) auto

lemma dom_insert_named [go_map_simps]:
  "dom (insert_named name vs m) = dom m \<union> name ` set vs"
  by (induction vs arbitrary: m) auto

lemma insert_named_range:
  "insert_named name vs m k = Some v \<Longrightarrow> m k = Some v \<or> (v \<in> set vs \<and> name v = k)"
proof (induction vs arbitrary: m)
  case (Cons w ws)
  from Cons.prems have "insert_named name ws (m(name w \<mapsto> w)) k = Some v" by simp
  from Cons.IH [OF this] show ?case by (auto split: if_splits)
qed simp

lemma insert_named_lookup:
  "v \<in> set vs \<Longrightarrow> distinct (map name vs) \<Longrightarrow> insert_named name vs m (name v) = Some v"
proof (induction vs arbitrary: m)
  case (Cons w ws)
  show ?case
  proof (cases "v = w")
    case True
    with Cons.prems have "name v \<notin> name ` set ws" by auto
    with True show ?thesis by (simp add: insert_named_other)
  next
    case False
    with Cons.prems have "v \<in> set ws" "distinct (map name ws)" by auto
    from Cons.IH [OF this] show ?thesis by simp
  qed
qed simp

end
