(* ===== verification/Go_Json.thy ===== *)
theory Go_Json
  imports Go_Prelude
begin

text \<open>
  The part of \<open>encoding/json\<close> and \<open>unicode/utf8\<close> that the gateway uses, on byte strings: the value
  decoder behind \<open>json.Unmarshal\<close> and the encoder behind \<open>json.Marshal\<close>. A number keeps its
  literal; a conversion of a literal to a Go number is an argument of the definitions that make
  one. An object keeps its members in order, duplicates included, because a Go struct is filled
  member by member.
\<close>

section \<open>Runes\<close>

abbreviation byte_of :: "char \<Rightarrow> nat" where
  "byte_of c \<equiv> of_char c"

definition byte_in :: "nat \<Rightarrow> nat \<Rightarrow> char \<Rightarrow> bool" where
  "byte_in lo hi c \<longleftrightarrow> lo \<le> byte_of c \<and> byte_of c \<le> hi"

definition RuneError :: nat where
  "RuneError = 0xFFFD"

text \<open>\<open>utf8.DecodeRune\<close>: the rune and its width; an invalid byte is \<open>RuneError\<close> of width 1.\<close>

fun DecodeRune :: "string \<Rightarrow> nat \<times> nat" where
  "DecodeRune [] = (RuneError, 0)"
| "DecodeRune (a # s) =
     (let x = byte_of a
      in if x < 0x80 then (x, 1)
         else if byte_in 0xC2 0xDF a then
           (case s of
              b # _ \<Rightarrow> if byte_in 0x80 0xBF b then ((x - 0xC0) * 64 + (byte_of b - 0x80), 2)
                       else (RuneError, 1)
            | _ \<Rightarrow> (RuneError, 1))
         else if byte_in 0xE0 0xEF a then
           (case s of
              b # c # _ \<Rightarrow>
                if byte_in (if x = 0xE0 then 0xA0 else 0x80) (if x = 0xED then 0x9F else 0xBF) b
                   \<and> byte_in 0x80 0xBF c
                then ((x - 0xE0) * 4096 + (byte_of b - 0x80) * 64 + (byte_of c - 0x80), 3)
                else (RuneError, 1)
            | _ \<Rightarrow> (RuneError, 1))
         else if byte_in 0xF0 0xF4 a then
           (case s of
              b # c # d # _ \<Rightarrow>
                if byte_in (if x = 0xF0 then 0x90 else 0x80) (if x = 0xF4 then 0x8F else 0xBF) b
                   \<and> byte_in 0x80 0xBF c \<and> byte_in 0x80 0xBF d
                then ((x - 0xF0) * 262144 + (byte_of b - 0x80) * 4096
                       + (byte_of c - 0x80) * 64 + (byte_of d - 0x80), 4)
                else (RuneError, 1)
            | _ \<Rightarrow> (RuneError, 1))
         else (RuneError, 1))"

definition EncodeRune :: "nat \<Rightarrow> string" where
  "EncodeRune r0 =
     (let r = (if r0 > 0x10FFFF \<or> (0xD800 \<le> r0 \<and> r0 \<le> 0xDFFF) then RuneError else r0)
      in map char_of
           (if r < 0x80 then [r]
            else if r < 0x800 then [0xC0 + r div 64, 0x80 + r mod 64]
            else if r < 0x10000
            then [0xE0 + r div 4096, 0x80 + (r div 64) mod 64, 0x80 + r mod 64]
            else [0xF0 + r div 262144, 0x80 + (r div 4096) mod 64, 0x80 + (r div 64) mod 64,
                  0x80 + r mod 64]))"

lemma DecodeRune_width: "0 < snd (DecodeRune (c # s))"
  by (simp add: Let_def split: list.splits)

text \<open>A string as runes, each with its bytes.\<close>

function runes :: "string \<Rightarrow> (nat \<times> string) list" where
  "runes [] = []"
| "runes (c # s) =
     (let n = snd (DecodeRune (c # s))
      in (fst (DecodeRune (c # s)), take n (c # s)) # runes (drop n (c # s)))"
  by pat_completeness auto
termination
  by (relation "measure length") (use DecodeRune_width in \<open>auto simp del: DecodeRune.simps\<close>)

section \<open>Values\<close>

datatype json =
    JNull
  | JBool bool
  | JNum string
  | JStr string
  | JArr "json list"
  | JObj "(string \<times> json) list"

section \<open>Encoding\<close>

definition hex_digit :: "nat \<Rightarrow> char" where
  "hex_digit n = ''0123456789abcdef'' ! n"

definition quote :: char where "quote = CHR 0x22"
definition backslash :: char where "backslash = CHR 0x5C"

text \<open>
  The escapes of \<open>json.Marshal\<close>, which also escapes the three HTML characters and the two
  Unicode line separators, and replaces an invalid byte.
\<close>

definition escape_rune :: "nat \<times> string \<Rightarrow> string" where
  "escape_rune rb =
     (let r = fst rb
      in if r < 0x80 then
           (if r = 0x22 \<or> r = 0x5C then [backslash, char_of r]
            else if r = 8 then backslash # ''b''
            else if r = 12 then backslash # ''f''
            else if r = 10 then backslash # ''n''
            else if r = 13 then backslash # ''r''
            else if r = 9 then backslash # ''t''
            else if r < 0x20 \<or> r = 0x3C \<or> r = 0x3E \<or> r = 0x26
            then [backslash] @ ''u00'' @ [hex_digit (r div 16), hex_digit (r mod 16)]
            else [char_of r])
         else if r = RuneError \<and> length (snd rb) = 1 then backslash # ''ufffd''
         else if r = 0x2028 \<or> r = 0x2029 then [backslash] @ ''u202'' @ [hex_digit (r mod 16)]
         else snd rb)"

definition json_quote :: "string \<Rightarrow> string" where
  "json_quote s = quote # concat (map escape_rune (runes s)) @ [quote]"

fun json_encode :: "json \<Rightarrow> string"
and json_encode_elems :: "json list \<Rightarrow> string"
and json_encode_members :: "(string \<times> json) list \<Rightarrow> string"
where
  "json_encode JNull = ''null''"
| "json_encode (JBool b) = (if b then ''true'' else ''false'')"
| "json_encode (JNum n) = n"
| "json_encode (JStr s) = json_quote s"
| "json_encode (JArr vs) = ''['' @ json_encode_elems vs @ '']''"
| "json_encode (JObj kvs) = ''{'' @ json_encode_members kvs @ ''}''"
| "json_encode_elems [] = []"
| "json_encode_elems (v # vs) =
     json_encode v @ (if vs = [] then [] else '','' @ json_encode_elems vs)"
| "json_encode_members [] = []"
| "json_encode_members ((k, v) # kvs) =
     json_quote k @ '':'' @ json_encode v @ (if kvs = [] then [] else '','' @ json_encode_members kvs)"

section \<open>Decoding\<close>

definition json_space :: "char \<Rightarrow> bool" where
  "json_space c \<longleftrightarrow> c = CHR '' '' \<or> c = CHR 0x09 \<or> c = CHR 0x0D \<or> c = CHR 0x0A"

definition skip_ws :: "string \<Rightarrow> string" where
  "skip_ws s = dropWhile json_space s"

definition expect :: "string \<Rightarrow> string \<Rightarrow> string option" where
  "expect p s = (if HasPrefix s p then Some (drop (length p) s) else None)"

definition is_digit :: "char \<Rightarrow> bool" where
  "is_digit c \<longleftrightarrow> byte_in 0x30 0x39 c"

subsection \<open>Strings\<close>

fun scan_lit :: "string \<Rightarrow> (string \<times> string) option" where
  "scan_lit [] = None"
| "scan_lit (c # s) =
     (if c = quote then Some ([], s)
      else if c = backslash then
        (case s of
           [] \<Rightarrow> None
         | d # s' \<Rightarrow> map_option (\<lambda>(l, r). (c # d # l, r)) (scan_lit s'))
      else if byte_of c < 0x20 then None
      else map_option (\<lambda>(l, r). (c # l, r)) (scan_lit s))"

definition hex_value :: "nat \<Rightarrow> nat option" where
  "hex_value x =
     (if 0x30 \<le> x \<and> x \<le> 0x39 then Some (x - 0x30)
      else if 0x61 \<le> x \<and> x \<le> 0x66 then Some (x - 0x61 + 10)
      else if 0x41 \<le> x \<and> x \<le> 0x46 then Some (x - 0x41 + 10)
      else None)"

definition hex4 :: "nat \<Rightarrow> nat \<Rightarrow> nat \<Rightarrow> nat \<Rightarrow> nat option" where
  "hex4 a b c d =
     (case (hex_value a, hex_value b, hex_value c, hex_value d) of
        (Some w, Some x, Some y, Some z) \<Rightarrow> Some (((w * 16 + x) * 16 + y) * 16 + z)
      | _ \<Rightarrow> None)"

definition simple_escape :: "nat \<Rightarrow> nat option" where
  "simple_escape e =
     (if e = 0x22 \<or> e = 0x5C \<or> e = 0x2F then Some e
      else if e = 0x62 then Some 8
      else if e = 0x66 then Some 12
      else if e = 0x6E then Some 10
      else if e = 0x72 then Some 13
      else if e = 0x74 then Some 9
      else None)"

text \<open>\<open>utf16.DecodeRune\<close>: a high and a low surrogate make one rune.\<close>

definition surrogate :: "nat \<Rightarrow> bool" where
  "surrogate v \<longleftrightarrow> 0xD800 \<le> v \<and> v < 0xE000"

definition surrogate_pair :: "nat \<Rightarrow> nat \<Rightarrow> nat option" where
  "surrogate_pair v w =
     (if 0xD800 \<le> v \<and> v < 0xDC00 \<and> 0xDC00 \<le> w \<and> w < 0xE000
      then Some ((v - 0xD800) * 1024 + (w - 0xDC00) + 0x10000) else None)"

fun unquote_runes :: "nat list \<Rightarrow> nat list option" where
  "unquote_runes [] = Some []"
| "unquote_runes (r # rs) =
     (if r \<noteq> 0x5C then map_option ((#) r) (unquote_runes rs)
      else
        (case rs of
           [] \<Rightarrow> None
         | e # rs1 \<Rightarrow>
             if e = 0x75 then
               (case rs1 of
                  a # b # c # d # rs2 \<Rightarrow>
                    (case hex4 a b c d of
                       None \<Rightarrow> None
                     | Some v \<Rightarrow>
                         if \<not> surrogate v then map_option ((#) v) (unquote_runes rs2)
                         else
                           (case rs2 of
                              x # y # a' # b' # c' # d' # rs3 \<Rightarrow>
                                (case (if x = 0x5C \<and> y = 0x75 then hex4 a' b' c' d' else None) of
                                   None \<Rightarrow> map_option ((#) RuneError) (unquote_runes rs2)
                                 | Some w \<Rightarrow>
                                     (case surrogate_pair v w of
                                        Some u \<Rightarrow> map_option ((#) u) (unquote_runes rs3)
                                      | None \<Rightarrow> map_option ((#) RuneError) (unquote_runes rs2)))
                            | _ \<Rightarrow> map_option ((#) RuneError) (unquote_runes rs2)))
                | _ \<Rightarrow> None)
             else
               (case simple_escape e of
                  None \<Rightarrow> None
                | Some v \<Rightarrow> map_option ((#) v) (unquote_runes rs1))))"

definition json_unquote :: "string \<Rightarrow> string option" where
  "json_unquote lit =
     map_option (\<lambda>rs. concat (map EncodeRune rs)) (unquote_runes (map fst (runes lit)))"

text \<open>A string after its opening quote.\<close>

definition parse_string :: "string \<Rightarrow> (string \<times> string) option" where
  "parse_string s =
     (case scan_lit s of
        None \<Rightarrow> None
      | Some (lit, rest) \<Rightarrow> map_option (\<lambda>v. (v, rest)) (json_unquote lit))"

subsection \<open>Numbers\<close>

definition scan_int :: "string \<Rightarrow> (string \<times> string) option" where
  "scan_int s =
     (case s of
        [] \<Rightarrow> None
      | c # r \<Rightarrow>
          if c = CHR ''0'' then Some ([c], r)
          else if is_digit c then Some (takeWhile is_digit s, dropWhile is_digit s)
          else None)"

definition scan_digits :: "string \<Rightarrow> string \<Rightarrow> (string \<times> string) option" where
  "scan_digits p s =
     (if takeWhile is_digit s = [] then None
      else Some (p @ takeWhile is_digit s, dropWhile is_digit s))"

definition scan_frac :: "string \<Rightarrow> (string \<times> string) option" where
  "scan_frac s =
     (case s of
        [] \<Rightarrow> Some ([], [])
      | c # r \<Rightarrow> if c = CHR ''.'' then scan_digits [c] r else Some ([], s))"

definition scan_exp :: "string \<Rightarrow> (string \<times> string) option" where
  "scan_exp s =
     (case s of
        [] \<Rightarrow> Some ([], [])
      | c # r \<Rightarrow>
          if c = CHR ''e'' \<or> c = CHR ''E'' then
            (case r of
               [] \<Rightarrow> None
             | d # r' \<Rightarrow> if d = CHR ''+'' \<or> d = CHR ''-'' then scan_digits [c, d] r'
                         else scan_digits [c] r)
          else Some ([], s))"

definition scan_number :: "string \<Rightarrow> (string \<times> string) option" where
  "scan_number s =
     (let neg = HasPrefix s ''-''; s0 = (if neg then tl s else s)
      in case scan_int s0 of
           None \<Rightarrow> None
         | Some (i, s1) \<Rightarrow>
             (case scan_frac s1 of
                None \<Rightarrow> None
              | Some (f, s2) \<Rightarrow>
                  (case scan_exp s2 of
                     None \<Rightarrow> None
                   | Some (e, s3) \<Rightarrow> Some ((if neg then ''-'' else []) @ i @ f @ e, s3))))"

subsection \<open>Values\<close>

text \<open>
  The decoder of values. Its first argument bounds the calls; every call but the ones for the
  elements of an array consumes a byte, so twice the length of the input is enough.
\<close>

fun parse_value :: "nat \<Rightarrow> string \<Rightarrow> (json \<times> string) option"
and parse_elems :: "nat \<Rightarrow> string \<Rightarrow> (json list \<times> string) option"
and parse_members :: "nat \<Rightarrow> string \<Rightarrow> ((string \<times> json) list \<times> string) option"
where
  "parse_value 0 s = None"
| "parse_value (Suc n) s =
     (case skip_ws s of
        [] \<Rightarrow> None
      | c # r \<Rightarrow>
          if c = CHR ''{'' then
            (case expect ''}'' (skip_ws r) of
               Some r' \<Rightarrow> Some (JObj [], r')
             | None \<Rightarrow> map_option (\<lambda>(kvs, r'). (JObj kvs, r')) (parse_members n r))
          else if c = CHR ''['' then
            (case expect '']'' (skip_ws r) of
               Some r' \<Rightarrow> Some (JArr [], r')
             | None \<Rightarrow> map_option (\<lambda>(vs, r'). (JArr vs, r')) (parse_elems n r))
          else if c = quote then map_option (\<lambda>(v, r'). (JStr v, r')) (parse_string r)
          else if c = CHR ''n'' then map_option (\<lambda>r'. (JNull, r')) (expect ''ull'' r)
          else if c = CHR ''t'' then map_option (\<lambda>r'. (JBool True, r')) (expect ''rue'' r)
          else if c = CHR ''f'' then map_option (\<lambda>r'. (JBool False, r')) (expect ''alse'' r)
          else map_option (\<lambda>(v, r'). (JNum v, r')) (scan_number (c # r)))"
| "parse_elems 0 s = None"
| "parse_elems (Suc n) s =
     (case parse_value n s of
        None \<Rightarrow> None
      | Some (v, r) \<Rightarrow>
          (case expect '','' (skip_ws r) of
             Some r' \<Rightarrow> map_option (\<lambda>(vs, r''). (v # vs, r'')) (parse_elems n r')
           | None \<Rightarrow> map_option (\<lambda>r'. ([v], r')) (expect '']'' (skip_ws r))))"
| "parse_members 0 s = None"
| "parse_members (Suc n) s =
     (case expect [quote] (skip_ws s) of
        None \<Rightarrow> None
      | Some r0 \<Rightarrow>
          (case parse_string r0 of
             None \<Rightarrow> None
           | Some (k, r1) \<Rightarrow>
               (case expect '':'' (skip_ws r1) of
                  None \<Rightarrow> None
                | Some r2 \<Rightarrow>
                    (case parse_value n r2 of
                       None \<Rightarrow> None
                     | Some (v, r) \<Rightarrow>
                         (case expect '','' (skip_ws r) of
                            Some r' \<Rightarrow>
                              map_option (\<lambda>(kvs, r''). ((k, v) # kvs, r'')) (parse_members n r')
                          | None \<Rightarrow> map_option (\<lambda>r'. ([(k, v)], r')) (expect ''}'' (skip_ws r)))))))"

text \<open>Nesting deeper than the limit of the package is an error.\<close>

fun json_depth :: "json \<Rightarrow> nat" where
  "json_depth (JArr vs) = Suc (foldr (\<lambda>v. max (json_depth v)) vs 0)"
| "json_depth (JObj kvs) = Suc (foldr (\<lambda>kv. max (json_depth (snd kv))) kvs 0)"
| "json_depth _ = 0"

definition maxNestingDepth :: nat where
  "maxNestingDepth = 10000"

text \<open>\<open>Decoder.Decode\<close> reads the first value; \<open>json.Unmarshal\<close> also refuses what follows it.\<close>

definition json_Decode :: "string \<Rightarrow> json option" where
  "json_Decode s =
     (case parse_value (2 * length s + 2) s of
        None \<Rightarrow> None
      | Some (v, r) \<Rightarrow> if json_depth v \<le> maxNestingDepth then Some v else None)"

definition json_Unmarshal :: "string \<Rightarrow> json option" where
  "json_Unmarshal s =
     (case parse_value (2 * length s + 2) s of
        None \<Rightarrow> None
      | Some (v, r) \<Rightarrow>
          if skip_ws r = [] \<and> json_depth v \<le> maxNestingDepth then Some v else None)"

section \<open>Filling Go values\<close>

text \<open>
  A struct field takes every member whose name matches it under the package's case folding; the
  last one stays. Two non-ASCII letters fold to ASCII ones.
\<close>

fun fold_name :: "string \<Rightarrow> string" where
  "fold_name (a # b # c # s) =
     (if byte_of a = 0xE2 \<and> byte_of b = 0x84 \<and> byte_of c = 0xAA then CHR ''k'' # fold_name s
      else if byte_of a = 0xC5 \<and> byte_of b = 0xBF then CHR ''s'' # fold_name (c # s)
      else lower_char a # fold_name (b # c # s))"
| "fold_name [a, b] =
     (if byte_of a = 0xC5 \<and> byte_of b = 0xBF then ''s'' else [lower_char a, lower_char b])"
| "fold_name [a] = [lower_char a]"
| "fold_name [] = []"

definition field_values :: "string \<Rightarrow> (string \<times> json) list \<Rightarrow> json list" where
  "field_values name kvs = map snd (filter (\<lambda>kv. fold_name (fst kv) = fold_name name) kvs)"

text \<open>A string field: null leaves it alone, another kind of value is an error.\<close>

fun fill_string :: "string \<Rightarrow> json list \<Rightarrow> string option" where
  "fill_string acc [] = Some acc"
| "fill_string acc (JStr s # vs) = fill_string s vs"
| "fill_string acc (JNull # vs) = fill_string acc vs"
| "fill_string acc (_ # vs) = None"

definition string_field :: "string \<Rightarrow> (string \<times> json) list \<Rightarrow> string option" where
  "string_field name kvs = fill_string [] (field_values name kvs)"

text \<open>
  A value decoded into an \<open>any\<close>: an object is a Go map, in which the last of equal keys stays,
  and the encoder writes its keys sorted. The literal of a number is normalised by the argument
  (what a \<open>float64\<close> prints as); None is a literal out of range.
\<close>

fun insert_key :: "string \<Rightarrow> 'v \<Rightarrow> (string \<times> 'v) list \<Rightarrow> (string \<times> 'v) list" where
  "insert_key k v [] = [(k, v)]"
| "insert_key k v ((k', v') # kvs) =
     (if k = k' then (k, v) # kvs
      else if k < k' then (k, v) # (k', v') # kvs
      else (k', v') # insert_key k v kvs)"

fun to_any :: "(string \<Rightarrow> string option) \<Rightarrow> json \<Rightarrow> json option"
and to_any_list :: "(string \<Rightarrow> string option) \<Rightarrow> json list \<Rightarrow> json list option"
and to_any_map ::
  "(string \<Rightarrow> string option) \<Rightarrow> (string \<times> json) list \<Rightarrow> (string \<times> json) list \<Rightarrow>
   (string \<times> json) list option"
where
  "to_any f (JNum n) = map_option JNum (f n)"
| "to_any f (JArr vs) = map_option JArr (to_any_list f vs)"
| "to_any f (JObj kvs) = map_option JObj (to_any_map f kvs [])"
| "to_any f JNull = Some JNull"
| "to_any f (JBool b) = Some (JBool b)"
| "to_any f (JStr s) = Some (JStr s)"
| "to_any_list f [] = Some []"
| "to_any_list f (v # vs) =
     (case to_any f v of
        None \<Rightarrow> None
      | Some v' \<Rightarrow> map_option ((#) v') (to_any_list f vs))"
| "to_any_map f [] acc = Some acc"
| "to_any_map f ((k, v) # kvs) acc =
     (case to_any f v of
        None \<Rightarrow> None
      | Some v' \<Rightarrow> to_any_map f kvs (insert_key k v' acc))"

section \<open>Decoding what was encoded\<close>

definition ascii :: "string \<Rightarrow> bool" where
  "ascii s \<longleftrightarrow> (\<forall>c \<in> set s. byte_of c < 0x80)"

definition number_literal :: "string \<Rightarrow> bool" where
  "number_literal n \<longleftrightarrow> scan_number n = Some (n, [])"

text \<open>Values whose strings are ASCII and whose numbers are JSON literals.\<close>

fun json_plain :: "json \<Rightarrow> bool" where
  "json_plain (JNum n) = number_literal n"
| "json_plain (JStr s) = ascii s"
| "json_plain (JArr vs) = list_all json_plain vs"
| "json_plain (JObj kvs) = list_all (\<lambda>kv. ascii (fst kv) \<and> json_plain (snd kv)) kvs"
| "json_plain _ = True"

lemma ascii_simps [simp]:
  "ascii []" "ascii (c # s) \<longleftrightarrow> byte_of c < 0x80 \<and> ascii s"
  "ascii (s @ t) \<longleftrightarrow> ascii s \<and> ascii t"
  by (auto simp: ascii_def)

lemma runes_ascii: "ascii s \<Longrightarrow> runes s = map (\<lambda>c. (byte_of c, [c])) s"
  by (induction s) (auto simp: Let_def)

abbreviation escape_char :: "char \<Rightarrow> string" where
  "escape_char c \<equiv> escape_rune (byte_of c, [c])"

lemma less_16_cases:
  fixes k :: nat
  assumes "k < 16"
  shows "k \<in> {0,1,2,3,4,5,6,7,8,9,10,11,12,13,14,15}"
  using assms by (simp, arith)

lemma hex_digit_value: "k < 16 \<Longrightarrow> hex_value (byte_of (hex_digit k)) = Some k"
  by (drule less_16_cases) (auto simp: hex_digit_def hex_value_def)

lemma hex_digit_ascii: "k < 16 \<Longrightarrow> byte_of (hex_digit k) < (0x80 :: nat)"
  by (drule less_16_cases) (auto simp: hex_digit_def)

lemma hex_digit_plain:
  "k < 16 \<Longrightarrow> hex_digit k \<noteq> quote \<and> hex_digit k \<noteq> backslash \<and> \<not> byte_of (hex_digit k) < (0x20 :: nat)"
  by (drule less_16_cases) (auto simp: hex_digit_def quote_def backslash_def)

lemma byte_of_special:
  "byte_of c = (0x22 :: nat) \<longleftrightarrow> c = quote" "byte_of c = (0x5C :: nat) \<longleftrightarrow> c = backslash"
proof -
  have "byte_of quote = (0x22 :: nat)" "byte_of backslash = (0x5C :: nat)"
    by (simp_all add: quote_def backslash_def)
  then show "byte_of c = (0x22 :: nat) \<longleftrightarrow> c = quote" "byte_of c = (0x5C :: nat) \<longleftrightarrow> c = backslash"
    by (metis of_char_eq_iff)+
qed

lemma escape_char_cases:
  assumes "byte_of c < (0x80 :: nat)"
  obtains
    (plain) "escape_char c = [c]" "c \<noteq> quote" "c \<noteq> backslash" "\<not> byte_of c < (0x20 :: nat)"
  | (simple) e where "escape_char c = [backslash, e]" "byte_of e < (0x80 :: nat)"
      "byte_of e \<noteq> (0x75 :: nat)" "simple_escape (byte_of e) = Some (byte_of c)"
  | (hex) a b where "a < 16" "b < 16" "a * 16 + b = (byte_of c :: nat)"
      "escape_char c = [backslash] @ ''u00'' @ [hex_digit a, hex_digit b]"
proof -
  consider (special) "c = quote \<or> c = backslash"
    | (ctl) "byte_of c \<in> {8, 9, 10, 12, 13::nat}"
    | (hx) "byte_of c \<notin> {8, 9, 10, 12, 13::nat}"
        "byte_of c < (0x20::nat) \<or> byte_of c \<in> {0x3C, 0x3E, 0x26::nat}"
    | (pl) "c \<noteq> quote" "c \<noteq> backslash" "\<not> byte_of c < (0x20::nat)"
        "byte_of c \<notin> {0x3C, 0x3E, 0x26::nat}"
    by blast
  then show thesis
  proof cases
    case special
    then have b: "byte_of c = (0x22 :: nat) \<or> byte_of c = (0x5C :: nat)"
      by (simp add: byte_of_special)
    have "char_of (0x22 :: nat) = quote" "char_of (0x5C :: nat) = backslash"
      by (metis byte_of_special char_of_char)+
    moreover have "escape_char c = [backslash, char_of n]"
      if "n = byte_of c" "n = 0x22 \<or> n = 0x5C" for n :: nat
      using that(2) unfolding escape_rune_def fst_conv snd_conv that(1)[symmetric] by auto
    ultimately have "escape_char c = [backslash, c]"
      using b by (metis byte_of_special)
    moreover have "simple_escape (byte_of c) = Some (byte_of c)"
      using b by (auto simp: simple_escape_def)
    ultimately show thesis using simple[of c] b by auto
  next
    case ctl
    then show thesis
      by (auto simp: escape_rune_def simple_escape_def intro: simple[of "CHR ''b''"]
          simple[of "CHR ''t''"] simple[of "CHR ''n''"] simple[of "CHR ''f''"] simple[of "CHR ''r''"])
  next
    case hx
    then show thesis
      using assms
      by (intro hex[of "byte_of c div 16" "byte_of c mod 16"])
         (auto simp: escape_rune_def Let_def)
  next
    case pl
    then show thesis
      using assms by (intro plain) (auto simp: escape_rune_def Let_def byte_of_special)
  qed
qed

lemma scan_escape:
  assumes "byte_of c < (0x80 :: nat)"
  shows "scan_lit (escape_char c @ t) = map_option (\<lambda>(l, r). (escape_char c @ l, r)) (scan_lit t)"
  using assms
proof (cases rule: escape_char_cases)
  case plain
  then show ?thesis by simp
next
  case (simple e)
  then show ?thesis by (simp add: quote_def backslash_def)
next
  case (hex a b)
  note hp = hex_digit_plain[OF hex(1)] hex_digit_plain[OF hex(2)]
  show ?thesis
    unfolding hex(4) using hp
    by (simp add: quote_def backslash_def option.map_comp comp_def case_prod_unfold)
qed

lemma ascii_escape: "byte_of c < (0x80 :: nat) \<Longrightarrow> ascii (escape_char c)"
  by (frule escape_char_cases[of c "ascii (escape_char c)"])
     (auto simp: backslash_def hex_digit_ascii)

lemma unquote_escape:
  assumes "byte_of c < (0x80 :: nat)"
  shows "unquote_runes (map byte_of (escape_char c) @ rs) =
         map_option ((#) (byte_of c)) (unquote_runes rs)"
  using assms
proof (cases rule: escape_char_cases)
  case plain
  then have "byte_of c \<noteq> (0x5C :: nat)" by (simp add: byte_of_special)
  with plain show ?thesis by simp
next
  case (simple e)
  then show ?thesis by (simp add: backslash_def)
next
  case (hex a b)
  have "hex4 48 48 (byte_of (hex_digit a)) (byte_of (hex_digit b)) = Some (byte_of c)"
  proof -
    have "hex_value 48 = Some 0" by (simp add: hex_value_def)
    then show ?thesis using hex(1,2,3) by (simp add: hex4_def hex_digit_value)
  qed
  then show ?thesis
    unfolding hex(4) using assms by (simp add: backslash_def surrogate_def)
qed

lemma EncodeRune_ascii: "byte_of c < (0x80 :: nat) \<Longrightarrow> EncodeRune (byte_of c) = [c]"
  by (simp add: EncodeRune_def Let_def)

abbreviation escaped :: "string \<Rightarrow> string" where
  "escaped s \<equiv> concat (map escape_char s)"

lemma json_quote_ascii: "ascii s \<Longrightarrow> json_quote s = quote # escaped s @ [quote]"
  by (simp add: json_quote_def runes_ascii comp_def)

lemma scan_escaped: "ascii s \<Longrightarrow> scan_lit (escaped s @ quote # rest) = Some (escaped s, rest)"
  by (induction s) (auto simp: scan_escape)

lemma ascii_escaped: "ascii s \<Longrightarrow> ascii (escaped s)"
  by (induction s) (auto simp: ascii_escape)

lemma unquote_escaped:
  "ascii s \<Longrightarrow> unquote_runes (map byte_of (escaped s)) = Some (map byte_of s)"
  by (induction s) (auto simp: unquote_escape)

lemma json_unquote_escaped: "ascii s \<Longrightarrow> json_unquote (escaped s) = Some s"
proof -
  assume s: "ascii s"
  have "concat (map EncodeRune (map byte_of s)) = s"
    using s by (induction s) (auto simp: EncodeRune_ascii)
  then show ?thesis
    using s by (simp add: json_unquote_def runes_ascii[OF ascii_escaped] comp_def unquote_escaped)
qed

lemma parse_string_quote:
  "ascii s \<Longrightarrow> parse_string (escaped s @ quote # rest) = Some (s, rest)"
  by (simp add: parse_string_def scan_escaped json_unquote_escaped)

subsection \<open>Numbers and values\<close>

definition delimited :: "string \<Rightarrow> bool" where
  "delimited rest \<longleftrightarrow> rest = [] \<or> hd rest \<in> {CHR '','', CHR '']'', CHR ''}''}"

lemma delimited_simps [simp]:
  "delimited []" "delimited (CHR '','' # s)" "delimited (CHR '']'' # s)" "delimited (CHR ''}'' # s)"
  by (simp_all add: delimited_def)

lemma delimited_Cons: "delimited (c # s) \<longleftrightarrow> c \<in> {CHR '','', CHR '']'', CHR ''}''}"
  by (simp add: delimited_def)

lemma takeWhile_delimited:
  assumes "delimited rest"
  shows "takeWhile is_digit (s @ rest) = takeWhile is_digit s"
    and "dropWhile is_digit (s @ rest) = dropWhile is_digit s @ rest"
proof -
  have "takeWhile is_digit rest = []" "dropWhile is_digit rest = rest"
    using assms by (cases rest; auto simp: delimited_Cons is_digit_def byte_in_def)+
  then show "takeWhile is_digit (s @ rest) = takeWhile is_digit s"
    and "dropWhile is_digit (s @ rest) = dropWhile is_digit s @ rest"
    by (induction s) auto
qed

lemma scan_delimited:
  assumes "delimited rest"
  shows "scan_int s = Some (x, r) \<Longrightarrow> scan_int (s @ rest) = Some (x, r @ rest)"
    and "scan_digits p s = Some (x, r) \<Longrightarrow> scan_digits p (s @ rest) = Some (x, r @ rest)"
    and "scan_frac s = Some (x, r) \<Longrightarrow> scan_frac (s @ rest) = Some (x, r @ rest)"
    and "scan_exp s = Some (x, r) \<Longrightarrow> scan_exp (s @ rest) = Some (x, r @ rest)"
proof -
  note tw = takeWhile_delimited[OF assms]
  show i: "scan_int (s @ rest) = Some (x, r @ rest)" if "scan_int s = Some (x, r)"
    using that tw[of s] by (cases s) (auto simp: scan_int_def split: if_splits)
  show d: "scan_digits p (s @ rest) = Some (x, r @ rest)" if "scan_digits p s = Some (x, r)"
    for p s x r
    using that by (auto simp: scan_digits_def tw split: if_splits)
  have hd: "scan_frac rest = Some ([], rest)" "scan_exp rest = Some ([], rest)"
    using assms by (cases rest; auto simp: scan_frac_def scan_exp_def delimited_Cons)+
  show "scan_frac (s @ rest) = Some (x, r @ rest)" if "scan_frac s = Some (x, r)"
    using that hd d by (cases s) (auto simp: scan_frac_def split: if_splits)
  show "scan_exp (s @ rest) = Some (x, r @ rest)" if "scan_exp s = Some (x, r)"
  proof (cases s)
    case Nil
    with that hd show ?thesis by (simp add: scan_exp_def)
  next
    case (Cons c s1)
    show ?thesis
    proof (cases s1)
      case Nil
      with that Cons show ?thesis by (auto simp: scan_exp_def split: if_splits list.splits)
    next
      case (Cons d' s2)
      with that \<open>s = c # s1\<close> d d[of "[c]" "d' # s2"] show ?thesis
        by (auto simp: scan_exp_def split: if_splits)
    qed
  qed
qed

lemma scan_number_delimited:
  assumes "number_literal n" and "delimited rest"
  shows "scan_number (n @ rest) = Some (n, rest)"
proof -
  have "n \<noteq> []" using assms(1) 
    by (auto simp: number_literal_def scan_number_def scan_int_def Let_def HasPrefix_def)
  then have s0: "HasPrefix (n @ rest) ''-'' = HasPrefix n ''-''"
      "(if HasPrefix n ''-'' then tl (n @ rest) else n @ rest) =
       (if HasPrefix n ''-'' then tl n else n) @ rest"
    by (cases n; simp add: HasPrefix_def)+
  obtain i s1 f s2 e where
    1: "scan_int (if HasPrefix n ''-'' then tl n else n) = Some (i, s1)" and
    2: "scan_frac s1 = Some (f, s2)" and 3: "scan_exp s2 = Some (e, [])" and
    n: "n = (if HasPrefix n ''-'' then ''-'' else []) @ i @ f @ e"
    using assms(1) unfolding number_literal_def scan_number_def Let_def
    by (auto split: option.splits prod.splits)
  show ?thesis
    unfolding scan_number_def Let_def s0 using scan_delimited[OF assms(2)] 1 2 3 n
    by simp
qed

lemma number_start:
  assumes "number_literal n"
  obtains c s where "n = c # s" "\<not> json_space c"
    "c \<notin> {CHR '']'', CHR ''}'', CHR ''['', CHR ''{'', quote, CHR ''n'', CHR ''t'', CHR ''f''}"
proof -
  have digit: "\<not> json_space c \<and>
      c \<notin> {CHR '']'', CHR ''}'', CHR ''['', CHR ''{'', quote, CHR ''n'', CHR ''t'', CHR ''f''}"
    if "is_digit c" for c
    using that by (auto simp: is_digit_def byte_in_def json_space_def quote_def)
  obtain c s where n: "n = c # s"
    using assms
    by (cases n) (auto simp: number_literal_def scan_number_def scan_int_def HasPrefix_def Let_def)
  have "c = CHR ''-'' \<or> is_digit c"
  proof (rule ccontr)
    assume neither: "\<not> (c = CHR ''-'' \<or> is_digit c)"
    have "is_digit (CHR ''0'')" by (simp add: is_digit_def byte_in_def)
    with neither have "scan_int n = None" using n by (auto simp: scan_int_def)
    with neither n have "scan_number n = None" by (simp add: scan_number_def HasPrefix_def)
    with assms show False by (simp add: number_literal_def)
  qed
  then have "\<not> json_space c \<and>
      c \<notin> {CHR '']'', CHR ''}'', CHR ''['', CHR ''{'', quote, CHR ''n'', CHR ''t'', CHR ''f''}"
  proof
    assume "c = CHR ''-''"
    then show ?thesis by (simp add: json_space_def quote_def)
  qed (rule digit)
  then show thesis by (elim conjE) (rule that[OF n])
qed

lemma json_encode_head:
  assumes "json_plain j"
  obtains c s where "json_encode j = c # s" "\<not> json_space c" "c \<noteq> CHR '']''" "c \<noteq> CHR ''}''"
proof (cases j)
  case (JNum n)
  with assms have "number_literal n" by simp
  then show thesis by (rule number_start) (use that JNum in auto)
next
  case (JBool b)
  with that show thesis by (cases b) (auto simp: json_space_def)
qed (use that in \<open>auto simp: json_quote_def quote_def json_space_def\<close>)

lemma skip_ws_nonspace: "\<not> json_space c \<Longrightarrow> skip_ws (c # s) = c # s"
  by (simp add: skip_ws_def)

lemma skip_ws_encode [simp]: "json_plain j \<Longrightarrow> skip_ws (json_encode j @ r) = json_encode j @ r"
  by (erule json_encode_head) (simp add: skip_ws_nonspace)

lemma skip_ws_consts [simp]:
  "skip_ws (CHR '','' # s) = CHR '','' # s" "skip_ws (CHR '':'' # s) = CHR '':'' # s"
  "skip_ws (CHR '']'' # s) = CHR '']'' # s" "skip_ws (CHR ''}'' # s) = CHR ''}'' # s"
  "skip_ws (CHR ''{'' # s) = CHR ''{'' # s" "skip_ws (CHR ''['' # s) = CHR ''['' # s"
  "skip_ws (quote # s) = quote # s"
  by (simp_all add: skip_ws_def json_space_def quote_def)

lemma expect_simps [simp]:
  "expect [c] (d # s) = (if c = d then Some s else None)" "expect [c] [] = None"
  by (auto simp: expect_def HasPrefix_def)

lemma parse_value_number:
  assumes "number_literal n" and "delimited rest"
  shows "parse_value (Suc m) (n @ rest) = Some (JNum n, rest)"
proof -
  obtain c s where c: "n = c # s" "\<not> json_space c"
    "c \<notin> {CHR '']'', CHR ''}'', CHR ''['', CHR ''{'', quote, CHR ''n'', CHR ''t'', CHR ''f''}"
    using number_start[OF assms(1)] .
  then show ?thesis
    using scan_number_delimited[OF assms] by (simp add: skip_ws_nonspace)
qed

lemma parse_value_string:
  "ascii s \<Longrightarrow> parse_value (Suc m) (json_quote s @ rest) = Some (JStr s, rest)"
  by (simp add: json_quote_ascii parse_string_quote) (simp add: quote_def)

lemma parse_members_Cons:
  assumes "ascii k"
  shows "parse_members (Suc m) (json_quote k @ CHR '':'' # t) =
     (case parse_value m t of
        None \<Rightarrow> None
      | Some (v, r) \<Rightarrow>
          (case expect '','' (skip_ws r) of
             Some r' \<Rightarrow> map_option (\<lambda>(kvs, r''). ((k, v) # kvs, r'')) (parse_members m r')
           | None \<Rightarrow> map_option (\<lambda>r'. ([(k, v)], r')) (expect ''}'' (skip_ws r))))"
  using assms by (simp add: json_quote_ascii parse_string_quote)

lemma json_encode_pos: "json_plain j \<Longrightarrow> 0 < length (json_encode j)"
  by (erule json_encode_head) simp

lemma parse_encode:
  "json_plain j \<Longrightarrow> delimited rest \<Longrightarrow> 2 * length (json_encode j) \<le> n \<Longrightarrow>
     parse_value n (json_encode j @ rest) = Some (j, rest)"
  "list_all json_plain vs \<Longrightarrow> vs \<noteq> [] \<Longrightarrow> 2 * length (json_encode_elems vs) < n \<Longrightarrow>
     parse_elems n (json_encode_elems vs @ CHR '']'' # rest) = Some (vs, rest)"
  "list_all (\<lambda>kv. ascii (fst kv) \<and> json_plain (snd kv)) kvs \<Longrightarrow> kvs \<noteq> [] \<Longrightarrow>
     2 * length (json_encode_members kvs) < n \<Longrightarrow>
     parse_members n (json_encode_members kvs @ CHR ''}'' # rest) = Some (kvs, rest)"
proof (induction j and vs and kvs arbitrary: n rest and n rest and n rest
       rule: json_encode_json_encode_elems_json_encode_members.induct)
  case 1
  then obtain m where "n = Suc m" by (cases n) auto
  then show ?case by (simp add: skip_ws_def json_space_def quote_def expect_def HasPrefix_def)
next
  case (2 b)
  then obtain m where "n = Suc m" by (cases n) (auto split: if_splits)
  then show ?case by (simp add: skip_ws_def json_space_def quote_def expect_def HasPrefix_def)
next
  case (3 l)
  then obtain m where "n = Suc m"
    using json_encode_pos[of "JNum l"] by (cases n) auto
  with 3 show ?case by (simp only: json_encode.simps json_plain.simps parse_value_number)
next
  case (4 s)
  then obtain m where "n = Suc m" using json_encode_pos[of "JStr s"] by (cases n) auto
  with 4 show ?case by (simp only: json_encode.simps json_plain.simps parse_value_string)
next
  case (5 vs)
  then obtain m where n: "n = Suc m" by (cases n) auto
  show ?case
  proof (cases vs)
    case (Cons v vs')
    then have v: "json_plain v" using 5 by simp
    have "expect '']'' (skip_ws (json_encode_elems vs @ CHR '']'' # rest)) = None"
      using v by (rule json_encode_head) (simp add: Cons skip_ws_nonspace)
    with 5 n Cons show ?thesis by (simp del: json_encode_elems.simps add: quote_def)
  qed (simp add: n quote_def)
next
  case (6 kvs)
  then obtain m where n: "n = Suc m" by (cases n) auto
  show ?case
  proof (cases kvs)
    case (Cons kv kvs')
    have "expect ''}'' (skip_ws (json_encode_members kvs @ CHR ''}'' # rest)) = None"
      by (cases kv) (simp add: Cons json_quote_def, simp add: quote_def)
    with 6 n Cons show ?thesis by (simp del: json_encode_members.simps add: quote_def)
  qed (simp add: n quote_def)
next
  case 7
  then show ?case by simp
next
  case (8 v vs)
  then obtain m where n: "n = Suc m" by (cases n) auto
  show ?case
  proof (cases vs)
    case Nil
    with 8 n show ?thesis by simp
  next
    case (Cons v' vs')
    have "parse_value m (json_encode v @ CHR '','' # json_encode_elems vs @ CHR '']'' # rest)
          = Some (v, CHR '','' # json_encode_elems vs @ CHR '']'' # rest)"
      using 8 n Cons by simp
    moreover have "parse_elems m (json_encode_elems vs @ CHR '']'' # rest) = Some (vs, rest)"
      using 8 n Cons json_encode_pos[of v] by simp
    moreover have "vs \<noteq> []" using Cons by simp
    ultimately show ?thesis using n by simp
  qed
next
  case 9
  then show ?case by simp
next
  case (10 k v kvs)
  then obtain m where n: "n = Suc m" by (cases n) auto
  have k: "ascii k" and v: "json_plain v"
    and kvs: "list_all (\<lambda>kv. ascii (fst kv) \<and> json_plain (snd kv)) kvs"
    using "10.prems"(1) by simp_all
  have len: "2 * length (json_encode_members ((k, v) # kvs)) < Suc m"
    using "10.prems"(3) n by simp
  then have lv: "2 * length (json_encode v) \<le> m" by simp
  show ?case
  proof (cases "kvs = []")
    case True
    then show ?thesis
      using "10.IH"(1)[OF v _ lv, of "CHR ''}'' # rest"] n
      by (simp add: parse_members_Cons[OF k] del: parse_members.simps)
  next
    case False
    let ?rest = "json_encode_members kvs @ CHR ''}'' # rest"
    have "parse_value m (json_encode v @ CHR '','' # ?rest) = Some (v, CHR '','' # ?rest)"
      using "10.IH"(1)[OF v _ lv] by simp
    moreover have "parse_members m ?rest = Some (kvs, rest)"
      using "10.IH"(2)[OF False kvs False, of m rest] len False json_encode_pos[OF v] by simp
    ultimately show ?thesis
      using n False by (simp add: parse_members_Cons[OF k] del: parse_members.simps)
  qed
qed

lemma json_Unmarshal_encode:
  assumes "json_plain j" and "json_depth j \<le> maxNestingDepth"
  shows "json_Unmarshal (json_encode j) = Some j"
  using parse_encode(1)[OF assms(1), of "[]" "2 * length (json_encode j) + 2"] assms(2)
  by (simp add: json_Unmarshal_def skip_ws_def)

lemma json_Decode_encode:
  assumes "json_plain j" and "json_depth j \<le> maxNestingDepth"
  shows "json_Decode (json_encode j) = Some j"
  using parse_encode(1)[OF assms(1), of "[]" "2 * length (json_encode j) + 2"] assms(2)
  by (simp add: json_Decode_def)

end
