(* ===== verification/Go_Struct.thy ===== *)
theory Go_Struct
  imports Go_Json
begin

text \<open>
  More of \<open>encoding/json\<close> and \<open>bytes\<close>: decoding into nested structs, \<open>json.RawMessage\<close> (the text of
  a member as it stands in the input, compacted when it is written again) and \<open>bytes.TrimSpace\<close>.
\<close>

section \<open>Structs\<close>

text \<open>
  A member whose value does not fit its field makes the whole decoding fail at the end, but the
  other members are filled in. So there are two functions for each type: whether the values fit,
  and what is filled in.
\<close>

definition string_ok :: "json \<Rightarrow> bool" where
  "string_ok v \<longleftrightarrow> (case v of JStr _ \<Rightarrow> True | JNull \<Rightarrow> True | _ \<Rightarrow> False)"

fun put_string :: "string \<Rightarrow> json list \<Rightarrow> string" where
  "put_string acc [] = acc"
| "put_string acc (JStr s # vs) = put_string s vs"
| "put_string acc (_ # vs) = put_string acc vs"

definition struct_ok :: "((string \<times> json) list \<Rightarrow> bool) \<Rightarrow> json \<Rightarrow> bool" where
  "struct_ok ok v \<longleftrightarrow> (case v of JObj kvs \<Rightarrow> ok kvs | JNull \<Rightarrow> True | _ \<Rightarrow> False)"

text \<open>The members that reach a struct field whose key occurs several times, and a pointer to one.\<close>

fun struct_members :: "json list \<Rightarrow> (string \<times> json) list" where
  "struct_members [] = []"
| "struct_members (JObj kvs # vs) = kvs @ struct_members vs"
| "struct_members (_ # vs) = struct_members vs"

fun pointer_members :: "(string \<times> json) list option \<Rightarrow> json list \<Rightarrow> (string \<times> json) list option" where
  "pointer_members acc [] = acc"
| "pointer_members acc (JObj kvs # vs) =
     pointer_members (Some ((case acc of None \<Rightarrow> [] | Some m \<Rightarrow> m) @ kvs)) vs"
| "pointer_members acc (JNull # vs) = pointer_members None vs"
| "pointer_members acc (_ # vs) = pointer_members acc vs"

definition strings_ok :: "string list \<Rightarrow> (string \<times> json) list \<Rightarrow> bool" where
  "strings_ok names kvs \<longleftrightarrow> list_all (\<lambda>n. list_all string_ok (field_values n kvs)) names"

definition string_of :: "string \<Rightarrow> (string \<times> json) list \<Rightarrow> string" where
  "string_of name kvs = put_string [] (field_values name kvs)"

lemma fill_string_iff:
  "fill_string acc vs = (if list_all string_ok vs then Some (put_string acc vs) else None)"
  by (induction acc vs rule: fill_string.induct) (auto simp: string_ok_def)

section \<open>Raw messages\<close>

text \<open>The members of an object with the text of their values.\<close>

fun raw_members :: "nat \<Rightarrow> string \<Rightarrow> ((string \<times> string) list \<times> string) option" where
  "raw_members 0 s = None"
| "raw_members (Suc n) s =
     (case expect [quote] (skip_ws s) of
        None \<Rightarrow> None
      | Some r0 \<Rightarrow>
          (case parse_string r0 of
             None \<Rightarrow> None
           | Some (k, r1) \<Rightarrow>
               (case expect '':'' (skip_ws r1) of
                  None \<Rightarrow> None
                | Some r2 \<Rightarrow>
                    (case parse_value n r2 of
                       None \<Rightarrow> None
                     | Some (_, r) \<Rightarrow>
                         (let text = take (length (skip_ws r2) - length r) (skip_ws r2)
                          in case expect '','' (skip_ws r) of
                               Some r' \<Rightarrow>
                                 map_option (\<lambda>(kvs, r''). ((k, text) # kvs, r'')) (raw_members n r')
                             | None \<Rightarrow>
                                 map_option (\<lambda>r'. ([(k, text)], r')) (expect ''}'' (skip_ws r)))))))"

definition raw_object :: "string \<Rightarrow> (string \<times> string) list" where
  "raw_object s =
     (case expect ''{'' (skip_ws s) of
        None \<Rightarrow> []
      | Some r \<Rightarrow> (case raw_members (2 * length s + 1) r of None \<Rightarrow> [] | Some (kvs, _) \<Rightarrow> kvs))"

definition raw_field :: "string \<Rightarrow> string \<Rightarrow> string" where
  "raw_field name s =
     last ([] # map snd (filter (\<lambda>kv. fold_name (fst kv) = fold_name name) (raw_object s)))"

text \<open>
  \<open>json.Marshal\<close> of a raw message: without its white space, and with the HTML characters and the
  Unicode line separators escaped. The first argument says whether the text is inside a string.
\<close>

definition html_escape :: "char \<Rightarrow> string" where
  "html_escape c =
     (if c \<in> {CHR ''<'', CHR ''>'', CHR ''&''}
      then [backslash] @ ''u00'' @ [hex_digit (byte_of c div 16), hex_digit (byte_of c mod 16)]
      else [c])"

fun compact :: "bool \<Rightarrow> string \<Rightarrow> string" where
  "compact _ [] = []"
| "compact False (c # s) =
     (if json_space c then compact False s else html_escape c @ compact (c = quote) s)"
| "compact True (c # s) =
     (if c = quote then c # compact False s
      else if c = backslash then
        (case s of [] \<Rightarrow> [c] | d # s' \<Rightarrow> c # html_escape d @ compact True s')
      else
        (case s of
           d # e # s' \<Rightarrow>
             if byte_of c = 0xE2 \<and> byte_of d = 0x80 \<and> (byte_of e = 0xA8 \<or> byte_of e = 0xA9)
             then [backslash] @ ''u202'' @ [hex_digit (byte_of e mod 16)] @ compact True s'
             else html_escape c @ compact True s
         | _ \<Rightarrow> html_escape c @ compact True s))"

section \<open>White space\<close>

text \<open>
  The encodings of the runes that \<open>unicode.IsSpace\<close> accepts. A string begins or ends with such a
  rune exactly when it begins or ends with its encoding.
\<close>

definition space_runes :: "nat list" where
  "space_runes =
     [0x20, 0x0A, 0x0D, 0x09, 0x0B, 0x0C, 0x85, 0xA0, 0x1680, 0x2000, 0x2001, 0x2002, 0x2003,
      0x2004, 0x2005, 0x2006, 0x2007, 0x2008, 0x2009, 0x200A, 0x2028, 0x2029, 0x202F, 0x205F, 0x3000]"

function strip :: "string list \<Rightarrow> string \<Rightarrow> string" where
  "strip encodings s =
     (case find (\<lambda>e. e \<noteq> [] \<and> HasPrefix s e) encodings of
        None \<Rightarrow> s
      | Some e \<Rightarrow> strip encodings (drop (length e) s))"
  by pat_completeness auto
termination
  by (relation "measure (length \<circ> snd)")
    (auto simp: find_Some_iff HasPrefix_iff)

declare strip.simps [simp del]

definition TrimSpace :: "string \<Rightarrow> string" where
  "TrimSpace s =
     (let encodings = map EncodeRune space_runes
      in rev (strip (map rev encodings) (rev (strip encodings s))))"

section \<open>Raw messages of encoded values\<close>

definition plain_char :: "char \<Rightarrow> bool" where
  "plain_char c \<longleftrightarrow> byte_of c < (0x80 :: nat) \<and> \<not> json_space c \<and> c \<noteq> quote \<and> c \<noteq> backslash \<and>
     c \<notin> {CHR ''<'', CHR ''>'', CHR ''&''}"

lemma html_escape_other [simp]: "c \<notin> {CHR ''<'', CHR ''>'', CHR ''&''} \<Longrightarrow> html_escape c = [c]"
  by (simp add: html_escape_def)

lemma compact_True_other:
  "byte_of c < (0x80 :: nat) \<Longrightarrow> c \<noteq> quote \<Longrightarrow> c \<noteq> backslash \<Longrightarrow> c \<notin> {CHR ''<'', CHR ''>'', CHR ''&''} \<Longrightarrow>
     compact True (c # s) = c # compact True s"
  by (auto split: list.splits)

lemma compact_False_plain: "list_all plain_char w \<Longrightarrow> compact False (w @ s) = w @ compact False s"
  by (induction w) (auto simp: plain_char_def)

lemma hex_digit_html: "k < 16 \<Longrightarrow> hex_digit k \<notin> {CHR ''<'', CHR ''>'', CHR ''&''}"
  by (drule less_16_cases) (auto simp: hex_digit_def)

lemma simple_escape_html: "simple_escape (byte_of e) = Some v \<Longrightarrow> e \<notin> {CHR ''<'', CHR ''>'', CHR ''&''}"
  by (auto simp: simple_escape_def)

lemma compact_escape:
  assumes "byte_of c < (0x80 :: nat)"
  shows "compact True (escape_char c @ s) = escape_char c @ compact True s"
  using assms
proof (cases rule: escape_char_cases)
  case plain
  then have "c \<notin> {CHR ''<'', CHR ''>'', CHR ''&''}" by (auto simp: escape_rune_def Let_def)
  with plain show ?thesis using compact_True_other[OF assms, of s] by simp
next
  case (simple e)
  then have "html_escape e = [e]" using simple_escape_html by simp
  then show ?thesis using simple by (simp add: backslash_def quote_def)
next
  case (hex a b)
  have other: "compact True (hex_digit k # t) = hex_digit k # compact True t" if "k < 16" for k t
    using hex_digit_ascii[OF that] hex_digit_plain[OF that] hex_digit_html[OF that]
    by (intro compact_True_other) auto
  have zero: "compact True (CHR ''0'' # t) = CHR ''0'' # compact True t" for t
    by (rule compact_True_other) (simp_all add: quote_def backslash_def)
  show ?thesis
    unfolding hex(4) using other[OF hex(1)] other[OF hex(2)] zero
    by (simp del: compact.simps add: compact.simps(3)[of backslash])
      (simp add: quote_def backslash_def html_escape_def)
qed

lemma compact_quote: "ascii s \<Longrightarrow> compact False (json_quote s @ r) = json_quote s @ compact False r"
proof -
  assume s: "ascii s"
  have "compact True (escaped s @ quote # r) = escaped s @ quote # compact False r"
    using s by (induction s) (auto simp: compact_escape simp del: compact.simps(3), simp)
  with s show ?thesis by (simp add: json_quote_ascii) (simp add: quote_def json_space_def html_escape_def)
qed

lemma number_chars:
  assumes "number_literal n"
  shows "list_all plain_char n"
proof -
  have digit: "is_digit c \<Longrightarrow> plain_char c" for c
    by (auto simp: plain_char_def is_digit_def byte_in_def json_space_def quote_def backslash_def)
  have digits: "list_all plain_char (takeWhile is_digit s)" for s
    by (auto simp: list_all_iff dest!: set_takeWhileD intro: digit)
  have marks: "plain_char (CHR ''-'')" "plain_char (CHR ''+'')" "plain_char (CHR ''.'')"
      "plain_char (CHR ''e'')" "plain_char (CHR ''E'')" "plain_char (CHR ''0'')"
    by (simp_all add: plain_char_def json_space_def quote_def backslash_def)
  have i: "scan_int s = Some (w, r) \<Longrightarrow> list_all plain_char w" for s w r
    using digits[of s] marks by (auto simp: scan_int_def split: list.splits if_splits)
  have ds: "list_all plain_char p \<Longrightarrow> scan_digits p s = Some (w, r) \<Longrightarrow> list_all plain_char w" for p s w r
    using digits[of s] by (auto simp: scan_digits_def split: if_splits)
  have f: "scan_frac s = Some (w, r) \<Longrightarrow> list_all plain_char w" for s w r
    using marks by (auto simp: scan_frac_def dest: ds[rotated] split: list.splits if_splits)
  have e: "scan_exp s = Some (w, r) \<Longrightarrow> list_all plain_char w" for s w r
    using marks by (auto simp: scan_exp_def dest: ds[rotated] split: list.splits if_splits)
  obtain r where "scan_number n = Some (n, r)" using assms by (auto simp: number_literal_def)
  then show ?thesis
    using marks by (auto simp: scan_number_def Let_def split: option.splits if_splits) (erule i f e)+
qed

lemma compact_encode:
  "json_plain j \<Longrightarrow> compact False (json_encode j @ r) = json_encode j @ compact False r"
  "list_all json_plain vs \<Longrightarrow> compact False (json_encode_elems vs @ r) = json_encode_elems vs @ compact False r"
  "list_all (\<lambda>kv. ascii (fst kv) \<and> json_plain (snd kv)) kvs \<Longrightarrow>
     compact False (json_encode_members kvs @ r) = json_encode_members kvs @ compact False r"
proof (induction j and vs and kvs arbitrary: r and r and r
       rule: json_encode_json_encode_elems_json_encode_members.induct)
  case (3 n)
  then show ?case by (simp add: compact_False_plain number_chars)
qed (auto simp: compact_quote json_space_def quote_def)

lemma compact_encode_id [simp]: "json_plain j \<Longrightarrow> compact False (json_encode j) = json_encode j"
  using compact_encode(1)[of j "[]"] by simp

definition raw_member :: "string \<times> json \<Rightarrow> string \<times> string" where
  "raw_member kv = (fst kv, json_encode (snd kv))"

lemma raw_members_encode:
  "list_all (\<lambda>kv. ascii (fst kv) \<and> json_plain (snd kv)) kvs \<Longrightarrow> kvs \<noteq> [] \<Longrightarrow>
     2 * length (json_encode_members kvs) < n \<Longrightarrow>
     raw_members n (json_encode_members kvs @ CHR ''}'' # rest) = Some (map raw_member kvs, rest)"
proof (induction kvs arbitrary: n)
  case (Cons kv kvs)
  obtain k v where kv: "kv = (k, v)" by (cases kv)
  obtain m where n: "n = Suc m" using Cons.prems(3) by (cases n) auto
  let ?rest = "(if kvs = [] then [] else '','' @ json_encode_members kvs) @ CHR ''}'' # rest"
  have kv_ok: "ascii k" "json_plain v" using Cons.prems(1) kv by auto
  have "delimited ?rest" by (auto simp: delimited_def)
  then have pv: "parse_value m (json_encode v @ ?rest) = Some (v, ?rest)"
    using kv_ok Cons.prems(3) kv n by (intro parse_encode(1)) auto
  have tl: "raw_members m (json_encode_members kvs @ CHR ''}'' # rest) = Some (map raw_member kvs, rest)"
    if "kvs \<noteq> []" using that Cons.prems(1,3) kv n kv_ok by (intro Cons.IH) auto
  show ?case
    using pv tl kv_ok n kv
    by (cases "kvs = []") (auto simp: json_quote_ascii parse_string_quote raw_member_def)
qed simp

lemma raw_object_encode:
  "json_plain (JObj kvs) \<Longrightarrow> raw_object (json_encode (JObj kvs)) = map raw_member kvs"
proof (cases "kvs = []")
  case True
  have "raw_members n ''}'' = None" for n
    by (cases n) (auto simp: quote_def)
  then show ?thesis by (simp add: True raw_object_def)
next
  case False
  assume "json_plain (JObj kvs)"
  with False raw_members_encode[of kvs _ "[]"] show ?thesis
    by (simp add: raw_object_def del: raw_members.simps)
qed

end
