(* ===== verification/Go_Url.thy ===== *)
theory Go_Url
  imports Go_Json
begin

text \<open>
  The part of \<open>net/url\<close> the code uses: \<open>url.Parse\<close>, \<open>URL.Hostname\<close> and the literal forms of
  \<open>net/netip\<close> that \<open>url.Parse\<close> accepts between brackets. A parsed URL keeps the scheme, the host
  (with its port), the decoded path and the query.
\<close>

record URL =
  u_Scheme :: string
  u_Opaque :: string
  u_Host :: string
  u_Path :: string
  u_RawQuery :: string

definition empty_URL :: URL where
  "empty_URL = \<lparr>u_Scheme = [], u_Opaque = [], u_Host = [], u_Path = [], u_RawQuery = []\<rparr>"

section \<open>Percent encoding\<close>

definition is_letter :: "char \<Rightarrow> bool" where
  "is_letter c \<longleftrightarrow> byte_in 65 90 c \<or> byte_in 97 122 c"

definition unhex :: "char \<Rightarrow> nat option" where
  "unhex c = hex_value (of_char c)"

text \<open>The bytes a host may hold as they are, of those below \<open>0x80\<close>.\<close>

definition host_char :: "char \<Rightarrow> bool" where
  "host_char c \<longleftrightarrow>
     is_letter c \<or> is_digit c \<or> c \<in> set ''!$&'' \<or> c = CHR 0x27 \<or> c = CHR 0x22 \<or>
     c \<in> set ''()*+,;=:[]<>-_.~''"

datatype encoding = EncodePath | EncodeHost | EncodeZone | EncodeOther

definition escape_ok :: "encoding \<Rightarrow> nat \<Rightarrow> nat \<Rightarrow> bool" where
  "escape_ok m h l =
     (let v = 16 * h + l
      in case m of
           EncodeHost \<Rightarrow> \<not> h < 8 \<or> v = 0x25
         | EncodeZone \<Rightarrow> v = 0x25 \<or> v = 0x20 \<or> host_char (char_of v)
         | _ \<Rightarrow> True)"

definition literal_ok :: "encoding \<Rightarrow> char \<Rightarrow> bool" where
  "literal_ok m c =
     (case m of
        EncodeHost \<Rightarrow> of_char c \<ge> (0x80 :: nat) \<or> host_char c
      | EncodeZone \<Rightarrow> of_char c \<ge> (0x80 :: nat) \<or> host_char c
      | _ \<Rightarrow> True)"

fun unescape :: "encoding \<Rightarrow> string \<Rightarrow> string option" where
  "unescape m [] = Some []"
| "unescape m (c # s) =
     (if c = CHR ''%'' then
        (case s of
           a # b # r \<Rightarrow>
             (case (unhex a, unhex b) of
                (Some h, Some l) \<Rightarrow>
                  if escape_ok m h l then map_option (\<lambda>t. char_of (16 * h + l) # t) (unescape m r)
                  else None
              | _ \<Rightarrow> None)
         | _ \<Rightarrow> None)
      else if literal_ok m c then map_option (\<lambda>t. c # t) (unescape m s)
      else None)"

section \<open>Hosts\<close>

text \<open>\<open>strings.LastIndex\<close> of a one-byte string, as the parts before and from the last occurrence.\<close>

definition split_last :: "char \<Rightarrow> string \<Rightarrow> (string \<times> string) option" where
  "split_last c s =
     (if c \<in> set s
      then (let tail = rev (takeWhile (\<lambda>x. x \<noteq> c) (rev s))
            in Some (take (length s - length tail - 1) s, c # tail))
      else None)"

definition validOptionalPort :: "string \<Rightarrow> bool" where
  "validOptionalPort port =
     (case port of [] \<Rightarrow> True | c # ds \<Rightarrow> c = CHR '':'' \<and> list_all is_digit ds)"

text \<open>
  \<open>netip.ParseAddr\<close> on the IPv6 forms: groups of at most four hexadecimal digits, one ellipsis, and
  an IPv4 address in the last four bytes. The second argument is the number of bytes filled, the
  third whether the ellipsis has been seen.
\<close>

definition hex_group :: "string \<Rightarrow> bool" where
  "hex_group w \<longleftrightarrow> w \<noteq> [] \<and> length w \<le> 4 \<and> list_all (\<lambda>c. unhex c \<noteq> None) w"

definition decimal :: "string \<Rightarrow> nat" where
  "decimal w = foldl (\<lambda>n c. 10 * n + (of_char c - 48)) 0 w"

definition ipv4_field :: "string \<Rightarrow> bool" where
  "ipv4_field w \<longleftrightarrow>
     w \<noteq> [] \<and> length w \<le> 3 \<and> list_all is_digit w \<and> (hd w \<noteq> CHR ''0'' \<or> length w = 1) \<and> decimal w \<le> 255"

definition ipv4_text :: "string \<Rightarrow> bool" where
  "ipv4_text s \<longleftrightarrow> (let fs = Split s (CHR ''.'') in length fs = 4 \<and> list_all ipv4_field fs)"

fun ipv6_groups :: "string list \<Rightarrow> nat \<Rightarrow> bool \<Rightarrow> bool" where
  "ipv6_groups [] i ell = (if ell then i < 16 else i = 16)"
| "ipv6_groups [w] i ell =
     (if w = [] then False
      else if hex_group w then ipv6_groups [] (i + 2) ell
      else ipv4_text w \<and> (ell \<or> i = 12) \<and> i + 4 \<le> 16 \<and> ipv6_groups [] (i + 4) ell)"
| "ipv6_groups (w # v # ws) i ell =
     (if i \<ge> 16 then False
      else if w = [] then
        \<not> ell \<and> (if v = [] \<and> ws = [] then ipv6_groups [] i True else ipv6_groups (v # ws) i True)
      else hex_group w \<and> ipv6_groups (v # ws) (i + 2) ell)"

definition ipv6_text :: "string \<Rightarrow> bool" where
  "ipv6_text s \<longleftrightarrow>
     (case Split s (CHR '':'') of
        [] # [] # ws \<Rightarrow> if ws = [[]] then True else ws \<noteq> [] \<and> ipv6_groups ws 0 True
      | [] # _ \<Rightarrow> False
      | ws \<Rightarrow> 2 \<le> length ws \<and> ipv6_groups ws 0 False)"

definition ip_literal :: "string \<Rightarrow> bool" where
  "ip_literal s =
     (case Cut s (CHR ''%'') of
        (addr, zone, found) \<Rightarrow> ipv6_text addr \<and> (found \<longrightarrow> zone \<noteq> []))"

text \<open>\<open>parseHost\<close>: a literal in brackets, or a name with at most one colon, before the port.\<close>

definition zone_parts :: "string \<Rightarrow> string \<times> string" where
  "zone_parts h =
     (let i = length (takeWhile (\<lambda>t. \<not> HasPrefix t ''%25'') (map (\<lambda>k. drop k h) [0..<length h]))
      in (take i h, drop i h))"

definition bracketed_host :: "string \<Rightarrow> string \<Rightarrow> string option" where
  "bracketed_host inner colonPort =
     (case (unescape EncodeHost colonPort, zone_parts inner) of
        (Some p, (a, z)) \<Rightarrow>
          (case (unescape EncodeHost a, unescape EncodeZone z) of
             (Some a', Some z') \<Rightarrow>
               if ip_literal (a' @ z') then Some (''['' @ a' @ z' @ '']'' @ p) else None
           | _ \<Rightarrow> None)
      | _ \<Rightarrow> None)"

definition parseHost :: "string \<Rightarrow> string option" where
  "parseHost host =
     (case split_last (CHR ''['') host of
        Some (hd_part, opened) \<Rightarrow>
          if hd_part \<noteq> [] then None
          else
            (case split_last (CHR '']'') host of
               None \<Rightarrow> None
             | Some (inner, closed) \<Rightarrow>
                 if validOptionalPort (tl closed) then bracketed_host (tl inner) (tl closed) else None)
      | None \<Rightarrow>
          (case Cut host (CHR '':'') of
             (name, port, found) \<Rightarrow>
               if found \<and> \<not> validOptionalPort (CHR '':'' # port) then None
               else unescape EncodeHost host))"

text \<open>\<open>parseAuthority\<close>: what stands before the last \<open>@\<close> is the user information, checked but not kept.\<close>

definition userinfo_char :: "char \<Rightarrow> bool" where
  "userinfo_char c \<longleftrightarrow>
     is_letter c \<or> is_digit c \<or> c = CHR 0x27 \<or> c \<in> set ''-._:~!$&()*+,;=%@''"

definition parseAuthority :: "string \<Rightarrow> string option" where
  "parseAuthority authority =
     (case split_last (CHR ''@'') authority of
        None \<Rightarrow> parseHost authority
      | Some (userinfo, rest) \<Rightarrow>
          (case parseHost (tl rest) of
             None \<Rightarrow> None
           | Some h \<Rightarrow>
               if list_all userinfo_char userinfo \<and> unescape EncodeOther userinfo \<noteq> None then Some h
               else None))"

definition Hostname :: "URL \<Rightarrow> string" where
  "Hostname u =
     (let host = (case split_last (CHR '':'') (u_Host u) of
                    Some (hd_part, port) \<Rightarrow> if validOptionalPort port then hd_part else u_Host u
                  | None \<Rightarrow> u_Host u)
      in if HasPrefix host ''['' \<and> HasSuffix host '']'' then butlast (tl host) else host)"

section \<open>Parse\<close>

text \<open>\<open>getScheme\<close>: None is the missing scheme before a colon.\<close>

fun scheme_chars :: "string \<Rightarrow> string \<Rightarrow> (string \<times> string) option" where
  "scheme_chars seen [] = Some ([], rev seen)"
| "scheme_chars seen (c # s) =
     (if is_letter c then scheme_chars (c # seen) s
      else if is_digit c \<or> c \<in> set ''+-.'' then
        (if seen = [] then Some ([], c # s) else scheme_chars (c # seen) s)
      else if c = CHR '':'' then (if seen = [] then None else Some (rev seen, s))
      else Some ([], rev seen @ c # s))"

definition getScheme :: "string \<Rightarrow> (string \<times> string) option" where
  "getScheme rawURL = scheme_chars [] rawURL"

definition cut_query :: "string \<Rightarrow> string \<times> string" where
  "cut_query s = (case Cut s (CHR ''?'') of (hd_part, after, _) \<Rightarrow> (hd_part, after))"

definition parse_hier :: "string \<Rightarrow> string \<Rightarrow> string \<Rightarrow> URL option" where
  "parse_hier scheme query rest =
     (let (authority, path) =
            (if HasPrefix rest ''//'' \<and> (scheme \<noteq> [] \<or> \<not> HasPrefix rest ''///'')
             then (Some (takeWhile (\<lambda>c. c \<noteq> CHR ''/'') (drop 2 rest)),
                   dropWhile (\<lambda>c. c \<noteq> CHR ''/'') (drop 2 rest))
             else (None, rest))
      in case (case authority of None \<Rightarrow> Some [] | Some a \<Rightarrow> parseAuthority a) of
           None \<Rightarrow> None
         | Some host \<Rightarrow>
             map_option (\<lambda>p. \<lparr>u_Scheme = scheme, u_Opaque = [], u_Host = host, u_Path = p,
                              u_RawQuery = query\<rparr>)
               (unescape EncodePath path))"

definition parse_url :: "string \<Rightarrow> URL option" where
  "parse_url rawURL =
     (if list_ex (\<lambda>c. of_char c < (0x20 :: nat) \<or> of_char c = (0x7F :: nat)) rawURL then None
      else if rawURL = ''*'' then Some (empty_URL\<lparr>u_Path := ''*''\<rparr>)
      else case getScheme rawURL of
             None \<Rightarrow> None
           | Some (sch, rest0) \<Rightarrow>
               (let scheme = ToLower sch; (rest, query) = cut_query rest0
                in if HasPrefix rest ''/'' then parse_hier scheme query rest
                   else if scheme \<noteq> [] then
                     Some (empty_URL\<lparr>u_Scheme := scheme, u_Opaque := rest, u_RawQuery := query\<rparr>)
                   else if CHR '':'' \<in> set (fst (Cut rest (CHR ''/''))) then None
                   else parse_hier scheme query rest))"

definition url_Parse :: "string \<Rightarrow> URL option" where
  "url_Parse rawURL =
     (case Cut rawURL (CHR ''#'') of
        (u, frag, _) \<Rightarrow>
          (case parse_url u of
             None \<Rightarrow> None
           | Some url \<Rightarrow> if unescape EncodeOther frag = None then None else Some url))"

section \<open>Plain URLs\<close>

text \<open>
  A URL of a scheme, a plain host name and a plain path is read back as it was written.
\<close>

definition url_char :: "char \<Rightarrow> bool" where
  "url_char c \<longleftrightarrow> is_letter c \<or> is_digit c \<or> c \<in> set ''-._''"

definition path_char :: "char \<Rightarrow> bool" where
  "path_char c \<longleftrightarrow> url_char c \<or> c = CHR ''/''"

lemma url_char_iff:
  "url_char c \<longleftrightarrow>
     65 \<le> (of_char c :: nat) \<and> (of_char c :: nat) \<le> 90 \<or> 97 \<le> (of_char c :: nat) \<and> (of_char c :: nat) \<le> 122 \<or>
     48 \<le> (of_char c :: nat) \<and> (of_char c :: nat) \<le> 57 \<or> c \<in> set ''-._''"
  by (auto simp: url_char_def is_letter_def is_digit_def byte_in_def)

lemma url_char_not:
  assumes "url_char c" and "d \<in> {CHR ''%'', CHR ''/'', CHR '':'', CHR ''@'', CHR ''['', CHR '']'', CHR ''?'', CHR ''#''}"
  shows "c \<noteq> d"
  using assms by (auto simp: url_char_iff)

lemma path_char_not:
  assumes "path_char c" and "d \<in> {CHR ''%'', CHR ''?'', CHR ''#''}"
  shows "c \<noteq> d"
  using assms url_char_not[of c d] by (auto simp: path_char_def)

lemma path_char_control:
  "path_char c \<Longrightarrow> \<not> (of_char c < (0x20 :: nat)) \<and> of_char c \<noteq> (0x7F :: nat)"
  by (auto simp: path_char_def url_char_iff)

lemma unescape_literal:
  "list_all (\<lambda>c. c \<noteq> CHR ''%'' \<and> literal_ok m c) s \<Longrightarrow> unescape m s = Some s"
  by (induction s) auto

lemma plain_host_absent:
  assumes "list_all url_char h" and "d \<in> {CHR ''%'', CHR ''/'', CHR '':'', CHR ''@'', CHR ''['', CHR '']'', CHR ''?'', CHR ''#''}"
  shows "d \<notin> set h"
  using assms url_char_not[of d d] by (auto simp: list_all_iff)

lemma url_char_host: "url_char c \<Longrightarrow> host_char c"
  by (auto simp: url_char_def host_char_def)

lemma unescape_host_plain: "list_all url_char h \<Longrightarrow> unescape EncodeHost h = Some h"
  by (rule unescape_literal)
    (auto simp: list_all_iff literal_ok_def url_char_host url_char_not)

lemma unescape_path_plain: "list_all path_char p \<Longrightarrow> unescape EncodePath p = Some p"
  by (rule unescape_literal) (auto simp: list_all_iff literal_ok_def path_char_not)

lemma parseAuthority_plain: "list_all url_char h \<Longrightarrow> parseAuthority h = Some h"
  using plain_host_absent[of h "CHR ''@''"] plain_host_absent[of h "CHR ''[''"]
    plain_host_absent[of h "CHR '':''"]
  by (simp add: parseAuthority_def parseHost_def split_last_def Cut_absent unescape_host_plain)

lemma host_path_split:
  assumes "list_all url_char h" and "p = [] \<or> hd p = CHR ''/''"
  shows "takeWhile (\<lambda>c. c \<noteq> CHR ''/'') (h @ p) = h \<and> dropWhile (\<lambda>c. c \<noteq> CHR ''/'') (h @ p) = p"
  using plain_host_absent[OF assms(1), of "CHR ''/''"] assms(2)
  by (cases p) (auto simp: takeWhile_append dropWhile_append)

lemma getScheme_http:
  "getScheme (''http://'' @ s) = Some (''http'', ''//'' @ s)"
  "getScheme (''https://'' @ s) = Some (''https'', ''//'' @ s)"
  by (simp_all add: getScheme_def is_letter_def byte_in_def is_digit_def)

theorem url_Parse_plain:
  assumes "sch \<in> {''http'', ''https''}" and "list_all url_char h" and "list_all path_char p"
    and "p = [] \<or> hd p = CHR ''/''"
  shows "url_Parse (sch @ ''://'' @ h @ p) =
    Some \<lparr>u_Scheme = sch, u_Opaque = [], u_Host = h, u_Path = p, u_RawQuery = []\<rparr>"
proof -
  let ?s = "sch @ ''://'' @ h @ p"
  have ch: "\<forall>c \<in> set (h @ p). path_char c"
    using assms(2,3) by (auto simp: list_all_iff path_char_def)
  have absent: "d \<notin> set (h @ p)" if "d \<in> {CHR ''?'', CHR ''#''}" for d
    using ch path_char_not[of d d] that by auto
  have frag: "Cut ?s (CHR ''#'') = (?s, [], False)"
    using assms(1) absent[of "CHR ''#''"] by (intro Cut_absent) auto
  have query: "Cut (''//'' @ h @ p) (CHR ''?'') = (''//'' @ h @ p, [], False)"
    using absent[of "CHR ''?''"] by (intro Cut_absent) auto
  have ctl: "\<not> list_ex (\<lambda>c. of_char c < (0x20 :: nat) \<or> of_char c = (0x7F :: nat)) ?s"
    using assms(1) ch path_char_control by (fastforce simp: list_ex_iff)
  have sch: "getScheme ?s = Some (sch, ''//'' @ h @ p)" "ToLower sch = sch" "sch \<noteq> []" "?s \<noteq> ''*''"
    using assms(1) getScheme_http[of "h @ p"] by (auto simp: ToLower_def lower_char_def)
  have "parse_hier sch [] (''//'' @ h @ p) =
    Some \<lparr>u_Scheme = sch, u_Opaque = [], u_Host = h, u_Path = p, u_RawQuery = []\<rparr>"
    using host_path_split[OF assms(2,4)] sch(3)
    by (simp add: parse_hier_def HasPrefix_def parseAuthority_plain[OF assms(2)]
        unescape_path_plain[OF assms(3)])
  then have "parse_url ?s =
    Some \<lparr>u_Scheme = sch, u_Opaque = [], u_Host = h, u_Path = p, u_RawQuery = []\<rparr>"
    using ctl sch query unfolding parse_url_def by (simp add: cut_query_def HasPrefix_def)
  then show ?thesis using frag by (simp add: url_Parse_def)
qed

lemma Hostname_plain:
  assumes "list_all url_char (u_Host u)"
  shows "Hostname u = u_Host u"
  using plain_host_absent[OF assms, of "CHR '':''"] plain_host_absent[OF assms, of "CHR ''[''"]
  by (cases "u_Host u") (auto simp: Hostname_def split_last_def HasPrefix_def)
end
