(* ===== verification/A2A_Card.thy ===== *)
theory A2A_Card
  imports Go_Struct Go_Url
begin

text \<open>
  Agent cards: the in-memory card store (\<open>internal/a2a/store.go\<close>) behind the interface its clients
  use, and the check a fetched card must pass before it is served (\<open>internal/a2a/validate.go\<close>).
\<close>

section \<open>The card store\<close>

record CardEntry =
  ce_Raw :: string
  ce_ETag :: string
  ce_LastModified :: string
  ce_SHA256 :: string
  ce_FetchedAt :: time

record memoryStore =
  ms_cards :: "CardEntry gomap"

definition NewMemoryStore :: memoryStore where
  "NewMemoryStore = \<lparr>ms_cards = emptymap\<rparr>"

definition storeKey :: "string \<Rightarrow> string \<Rightarrow> string" where
  "storeKey namespace pfx = namespace @ ''/'' @ pfx"

definition store_Get :: "memoryStore \<Rightarrow> string \<Rightarrow> string \<Rightarrow> CardEntry option" where
  "store_Get m namespace pfx = ms_cards m (storeKey namespace pfx)"

definition store_Set :: "string \<Rightarrow> string \<Rightarrow> CardEntry \<Rightarrow> memoryStore \<Rightarrow> memoryStore" where
  "store_Set namespace pfx entry m =
     m\<lparr>ms_cards := (ms_cards m)(storeKey namespace pfx \<mapsto> entry)\<rparr>"

definition store_Delete :: "string \<Rightarrow> string \<Rightarrow> memoryStore \<Rightarrow> memoryStore" where
  "store_Delete namespace pfx m =
     m\<lparr>ms_cards := (ms_cards m)(storeKey namespace pfx := None)\<rparr>"

definition store_List :: "memoryStore \<Rightarrow> CardEntry gomap" where
  "store_List m = ms_cards m"

text \<open>
  A routing key \<open>namespace/prefix\<close> is cut at its first slash, so a namespace without a slash and a
  prefix are recovered from their key.
\<close>

lemma Cut_storeKey:
  "CHR ''/'' \<notin> set ns \<Longrightarrow> Cut (storeKey ns pre) (CHR ''/'') = (ns, pre, True)"
  by (simp add: storeKey_def Cut_found)

lemma storeKey_inject:
  assumes "CHR ''/'' \<notin> set ns" and "CHR ''/'' \<notin> set ns'"
  shows "storeKey ns pre = storeKey ns' pre' \<longleftrightarrow> ns = ns' \<and> pre = pre'"
  using Cut_storeKey[OF assms(1)] Cut_storeKey[OF assms(2)] by (metis fst_conv snd_conv)

lemma storeKey_Cut:
  assumes "CHR ''/'' \<in> set k"
  shows "storeKey (fst (Cut k (CHR ''/''))) (fst (snd (Cut k (CHR ''/'')))) = k"
proof -
  obtain b a where "Cut k (CHR ''/'') = (b, a, True)" using assms by (simp add: Cut_def)
  then show ?thesis using Cut_True[of k "CHR ''/''" b a] by (simp add: storeKey_def)
qed

text \<open>
  The interface \<open>CardStore\<close>. An entry is found under the key it was stored with until it is deleted
  or replaced, and the listing shows exactly the entries that are found.
\<close>

locale card_store =
  fixes get :: "'s \<Rightarrow> string \<Rightarrow> string \<Rightarrow> CardEntry option"
    and put :: "string \<Rightarrow> string \<Rightarrow> CardEntry \<Rightarrow> 's \<Rightarrow> 's"
    and del :: "string \<Rightarrow> string \<Rightarrow> 's \<Rightarrow> 's"
    and listing :: "'s \<Rightarrow> CardEntry gomap"
  assumes listing_get: "listing s (storeKey ns pre) = get s ns pre"
    and listing_put: "listing (put ns pre e s) = (listing s)(storeKey ns pre \<mapsto> e)"
    and listing_del: "listing (del ns pre s) = (listing s)(storeKey ns pre := None)"
begin

lemma get_put:
  "get (put ns pre e s) ns' pre' =
     (if storeKey ns pre = storeKey ns' pre' then Some e else get s ns' pre')"
  by (simp add: listing_get[symmetric] listing_put)

lemma get_del:
  "get (del ns pre s) ns' pre' =
     (if storeKey ns pre = storeKey ns' pre' then None else get s ns' pre')"
  by (simp add: listing_get[symmetric] listing_del)

text \<open>Deleting a set of listed keys, cut at their slashes, as a client that evicts does.\<close>

lemma listing_fold_del:
  assumes "\<forall>k \<in> set ks. CHR ''/'' \<in> set k"
  shows "listing (fold (\<lambda>k. case Cut k (CHR ''/'') of (ns, pre, _) \<Rightarrow> del ns pre) ks s) =
    (\<lambda>k. if k \<in> set ks then None else listing s k)"
  using assms
proof (induction ks arbitrary: s)
  case (Cons k ks)
  have "storeKey (fst (Cut k (CHR ''/''))) (fst (snd (Cut k (CHR ''/'')))) = k"
    using Cons.prems by (intro storeKey_Cut) simp
  then show ?case
    using Cons.IH Cons.prems by (auto simp: case_prod_unfold listing_del fun_eq_iff)
qed simp

end

interpretation cards: card_store store_Get store_Set store_Delete store_List
  by unfold_locales (simp_all add: store_Get_def store_Set_def store_Delete_def store_List_def)

section \<open>What a card advertises\<close>

text \<open>
  A slice of structs whose key is repeated is filled into the elements it already has; null and the
  empty array drop them. The pair is the backing array, as the members its elements have received,
  and the length of the slice.
\<close>

fun merge_slice :: "(string \<times> json) list list \<Rightarrow> json list \<Rightarrow> (string \<times> json) list list" where
  "merge_slice ms [] = ms"
| "merge_slice [] (v # vs) = struct_members [v] # merge_slice [] vs"
| "merge_slice (m # ms) (v # vs) = (m @ struct_members [v]) # merge_slice ms vs"

fun put_slice :: "(string \<times> json) list list \<Rightarrow> nat \<Rightarrow> json list \<Rightarrow> (string \<times> json) list list" where
  "put_slice ms n [] = take n ms"
| "put_slice ms n (JArr vs # js) =
     (if vs = [] then put_slice [] 0 js else put_slice (merge_slice ms vs) (length vs) js)"
| "put_slice ms n (JNull # js) = put_slice [] 0 js"
| "put_slice ms n (_ # js) = put_slice ms n js"

definition slice_ok :: "((string \<times> json) list \<Rightarrow> bool) \<Rightarrow> json \<Rightarrow> bool" where
  "slice_ok ok v \<longleftrightarrow> (case v of JArr vs \<Rightarrow> list_all (struct_ok ok) vs | JNull \<Rightarrow> True | _ \<Rightarrow> False)"

record agentInterface =
  ai_URL :: string
  ai_ProtocolBinding :: string
  ai_ProtocolVersion :: string

record agentInterfaces =
  ac_URL :: string
  ac_SupportedInterfaces :: "agentInterface list"

definition decode_interface :: "(string \<times> json) list \<Rightarrow> agentInterface" where
  "decode_interface kvs =
     \<lparr>ai_URL = string_of ''url'' kvs, ai_ProtocolBinding = string_of ''protocolBinding'' kvs,
      ai_ProtocolVersion = string_of ''protocolVersion'' kvs\<rparr>"

definition interface_ok :: "(string \<times> json) list \<Rightarrow> bool" where
  "interface_ok kvs = strings_ok [''url'', ''protocolBinding'', ''protocolVersion''] kvs"

definition card_ok :: "json \<Rightarrow> bool" where
  "card_ok v =
     struct_ok (\<lambda>kvs. strings_ok [''url''] kvs \<and>
       list_all (slice_ok interface_ok) (field_values ''supportedInterfaces'' kvs)) v"

definition decode_card :: "string \<Rightarrow> agentInterfaces option" where
  "decode_card raw =
     (case json_Unmarshal raw of
        None \<Rightarrow> None
      | Some v \<Rightarrow>
          if card_ok v then
            (let kvs = struct_members [v]
             in Some \<lparr>ac_URL = string_of ''url'' kvs,
                      ac_SupportedInterfaces =
                        map decode_interface
                          (put_slice [] 0 (field_values ''supportedInterfaces'' kvs))\<rparr>)
          else None)"

text \<open>The reasons for which a card is not served, with what their messages quote.\<close>

datatype card_fault =
    NotJSON
  | NoInterface
  | UnparseableURL string
  | NonHTTP string
  | NonGatewayPath string string
  | WrongHost string string
  | UnsupportedBinding string
  | UnsupportedVersion string

definition hostOnly :: "string \<Rightarrow> string" where
  "hostOnly h =
     (if h = [] then []
      else case url_Parse (''//'' @ h) of
             Some u \<Rightarrow> if Hostname u \<noteq> [] then Hostname u else h
           | None \<Rightarrow> h)"

text \<open>\<open>strings.EqualFold\<close> against an ASCII string, which two non-ASCII letters also match.\<close>

definition fold_equal :: "string \<Rightarrow> string \<Rightarrow> bool" where
  "fold_equal s t = (fold_name s = fold_name t)"

definition validateInterface :: "agentInterface \<Rightarrow> string \<Rightarrow> string \<Rightarrow> card_fault option" where
  "validateInterface iface wantPath wantHost =
     (case url_Parse (ai_URL iface) of
        None \<Rightarrow> Some (UnparseableURL (ai_URL iface))
      | Some parsed \<Rightarrow>
          if u_Host parsed = [] then Some (UnparseableURL (ai_URL iface))
          else if ToLower (u_Scheme parsed) \<noteq> ''http'' \<and> ToLower (u_Scheme parsed) \<noteq> ''https''
          then Some (NonHTTP (ai_URL iface))
          else if TrimRight (u_Path parsed) (CHR ''/'') \<noteq> wantPath
          then Some (NonGatewayPath (ai_URL iface) wantPath)
          else if wantHost \<noteq> [] \<and> Hostname parsed \<noteq> wantHost
          then Some (WrongHost (Hostname parsed) wantHost)
          else if ai_ProtocolBinding iface \<noteq> [] \<and> \<not> fold_equal (ai_ProtocolBinding iface) ''JSONRPC''
          then Some (UnsupportedBinding (ai_ProtocolBinding iface))
          else if ai_ProtocolVersion iface \<noteq> [] \<and> ai_ProtocolVersion iface \<noteq> ''1'' \<and>
                  \<not> HasPrefix (ai_ProtocolVersion iface) ''1.''
          then Some (UnsupportedVersion (ai_ProtocolVersion iface))
          else None)"

fun validate_interfaces :: "agentInterface list \<Rightarrow> string \<Rightarrow> string \<Rightarrow> card_fault option" where
  "validate_interfaces [] wantPath wantHost = None"
| "validate_interfaces (i # is) wantPath wantHost =
     (case validateInterface i wantPath wantHost of
        Some r \<Rightarrow> Some r
      | None \<Rightarrow> validate_interfaces is wantPath wantHost)"

definition advertised :: "agentInterfaces \<Rightarrow> agentInterface list" where
  "advertised ac =
     (if ac_SupportedInterfaces ac = [] \<and> ac_URL ac \<noteq> []
      then [\<lparr>ai_URL = ac_URL ac, ai_ProtocolBinding = [], ai_ProtocolVersion = []\<rparr>]
      else ac_SupportedInterfaces ac)"

definition validateCard :: "string \<Rightarrow> string \<Rightarrow> string \<Rightarrow> string \<Rightarrow> card_fault option" where
  "validateCard raw externalHost namespace pfx =
     (case decode_card raw of
        None \<Rightarrow> Some NotJSON
      | Some ac \<Rightarrow>
          if advertised ac = [] then Some NoInterface
          else validate_interfaces (advertised ac) (''/a2a/'' @ namespace @ ''/'' @ pfx)
                 (hostOnly externalHost))"

section \<open>What the check establishes\<close>

lemma validate_interfaces_None:
  "validate_interfaces is p h = None \<longleftrightarrow> (\<forall>i \<in> set is. validateInterface i p h = None)"
  by (induction "is") (auto split: option.splits)

lemma validateInterface_None:
  "validateInterface i p h = None \<longleftrightarrow>
     (\<exists>u. url_Parse (ai_URL i) = Some u \<and> u_Host u \<noteq> [] \<and>
        ToLower (u_Scheme u) \<in> {''http'', ''https''} \<and> TrimRight (u_Path u) (CHR ''/'') = p \<and>
        (h \<noteq> [] \<longrightarrow> Hostname u = h)) \<and>
     (ai_ProtocolBinding i = [] \<or> fold_equal (ai_ProtocolBinding i) ''JSONRPC'') \<and>
     (ai_ProtocolVersion i = [] \<or> ai_ProtocolVersion i = ''1'' \<or> HasPrefix (ai_ProtocolVersion i) ''1.'')"
  by (cases "url_Parse (ai_URL i)") (auto simp: validateInterface_def)

lemma validateCard_None:
  "validateCard raw host ns pre = None \<longleftrightarrow>
     (\<exists>ac. decode_card raw = Some ac \<and> advertised ac \<noteq> [] \<and>
        (\<forall>i \<in> set (advertised ac).
           validateInterface i (''/a2a/'' @ ns @ ''/'' @ pre) (hostOnly host) = None))"
  by (auto simp: validateCard_def validate_interfaces_None split: option.splits)

lemma url_Parse_host:
  assumes "list_all url_char h" and "h \<noteq> []"
  shows "url_Parse (''//'' @ h) =
    Some \<lparr>u_Scheme = [], u_Opaque = [], u_Host = h, u_Path = [], u_RawQuery = []\<rparr>"
proof -
  have absent: "d \<notin> set (''//'' @ h)" if "d \<in> {CHR ''?'', CHR ''#''}" for d
    using plain_host_absent[OF assms(1), of d] that by auto
  have ctl: "\<not> list_ex (\<lambda>c. of_char c < (0x20 :: nat) \<or> of_char c = (0x7F :: nat)) (''//'' @ h)"
    using assms(1) path_char_control by (fastforce simp: list_ex_iff list_all_iff path_char_def)
  have "hd h \<noteq> CHR ''/''"
    using assms plain_host_absent[OF assms(1), of "CHR ''/''"] by (metis hd_in_set insertCI)
  then have two: "\<not> HasPrefix (''//'' @ h) ''///''"
    using assms(2) by (cases h) (auto simp: HasPrefix_def)
  have "parse_hier [] [] (''//'' @ h) =
    Some \<lparr>u_Scheme = [], u_Opaque = [], u_Host = h, u_Path = [], u_RawQuery = []\<rparr>"
    using host_path_split[OF assms(1), of "[]"] two unfolding parse_hier_def
    by (simp add: parseAuthority_plain[OF assms(1)] HasPrefix_def takeWhile_eq_all_conv[THEN iffD2]
        dropWhile_eq_Nil_conv[THEN iffD2])
  moreover have "getScheme (''//'' @ h) = Some ([], ''//'' @ h)"
    by (simp add: getScheme_def is_letter_def byte_in_def is_digit_def)
  moreover have "cut_query (''//'' @ h) = (''//'' @ h, [])"
    using absent[of "CHR ''?''"] by (simp add: cut_query_def Cut_absent)
  ultimately have "parse_url (''//'' @ h) =
    Some \<lparr>u_Scheme = [], u_Opaque = [], u_Host = h, u_Path = [], u_RawQuery = []\<rparr>"
    using ctl unfolding parse_url_def by (simp add: ToLower_def HasPrefix_def)
  then show ?thesis
    using absent[of "CHR ''#''"] by (simp add: url_Parse_def Cut_absent)
qed

lemma hostOnly_plain: "list_all url_char h \<Longrightarrow> hostOnly h = h"
  using url_Parse_host[of h] by (auto simp: hostOnly_def Hostname_plain)

text \<open>A card that lists plain URLs, each with its scheme, host and path.\<close>

type_synonym url_parts = "string \<times> string \<times> string"

definition plain_url :: "url_parts \<Rightarrow> bool" where
  "plain_url u =
     (case u of (sch, h, p) \<Rightarrow>
        sch \<in> {''http'', ''https''} \<and> list_all url_char h \<and> list_all path_char p \<and>
        (p = [] \<or> hd p = CHR ''/''))"

definition url_text :: "url_parts \<Rightarrow> string" where
  "url_text u = (case u of (sch, h, p) \<Rightarrow> sch @ ''://'' @ h @ p)"

definition interface_json :: "url_parts \<Rightarrow> json" where
  "interface_json u = JObj [(''url'', JStr (url_text u)), (''protocolBinding'', JStr ''JSONRPC'')]"

definition card_json :: "string \<Rightarrow> url_parts list \<Rightarrow> json" where
  "card_json name urls =
     JObj [(''name'', JStr name), (''supportedInterfaces'', JArr (map interface_json urls))]"

lemma path_char_ascii: "path_char c \<Longrightarrow> of_char c < (0x80 :: nat)"
  by (auto simp: path_char_def url_char_iff)

lemma path_chars_ascii: "list_all path_char s \<Longrightarrow> ascii s"
  using path_char_ascii by (simp add: ascii_def list_all_iff)

lemma url_chars_path: "list_all url_char s \<Longrightarrow> list_all path_char s"
  by (simp add: list_all_iff path_char_def)

lemma url_text_ascii:
  assumes "plain_url u"
  shows "ascii (url_text u)"
proof -
  obtain sch h p where u: "u = (sch, h, p)" by (cases u)
  then have "ascii h" "ascii p" "ascii sch"
    using assms path_chars_ascii url_chars_path by (auto simp: plain_url_def)
  then show ?thesis by (simp add: u url_text_def)
qed

lemma card_json_plain:
  assumes "ascii name" and "list_all plain_url urls"
  shows "json_plain (card_json name urls) \<and> json_depth (card_json name urls) \<le> maxNestingDepth"
proof -
  have "foldr (\<lambda>v. max (json_depth v)) (map interface_json us) 0 \<le> 1" for us
    by (induction us) (auto simp: interface_json_def)
  from this[of urls] have "json_depth (card_json name urls) \<le> maxNestingDepth"
    by (simp add: card_json_def maxNestingDepth_def)
  moreover have "list_all json_plain (map interface_json urls)"
    using assms(2) url_text_ascii by (auto simp: list_all_iff interface_json_def)
  ultimately show ?thesis using assms(1) by (simp add: card_json_def)
qed

lemma merge_slice_Nil: "merge_slice [] vs = map (\<lambda>v. struct_members [v]) vs"
  by (induction vs) auto

lemma put_slice_single: "put_slice [] 0 [JArr vs] = map (\<lambda>v. struct_members [v]) vs"
  by (simp add: merge_slice_Nil)

lemma decode_card_json:
  assumes "ascii name" and "list_all plain_url urls"
  shows "decode_card (json_encode (card_json name urls)) =
    Some \<lparr>ac_URL = [],
      ac_SupportedInterfaces =
        map (\<lambda>u. \<lparr>ai_URL = url_text u, ai_ProtocolBinding = ''JSONRPC'', ai_ProtocolVersion = []\<rparr>) urls\<rparr>"
proof -
  let ?kvs = "[(''name'', JStr name), (''supportedInterfaces'', JArr (map interface_json urls))]"
  have f: "field_values ''url'' ?kvs = []"
    "field_values ''supportedInterfaces'' ?kvs = [JArr (map interface_json urls)]"
    by (simp_all add: field_values_def lower_char_def)
  have d: "decode_interface [(''url'', JStr t), (''protocolBinding'', JStr ''JSONRPC'')] =
      \<lparr>ai_URL = t, ai_ProtocolBinding = ''JSONRPC'', ai_ProtocolVersion = []\<rparr>"
    "interface_ok [(''url'', JStr t), (''protocolBinding'', JStr ''JSONRPC'')]" for t
    by (simp_all add: decode_interface_def interface_ok_def strings_ok_def string_of_def
        field_values_def lower_char_def string_ok_def)
  have "card_ok (card_json name urls)"
    using f d(2)
    by (simp add: card_ok_def card_json_def struct_ok_def strings_ok_def slice_ok_def list_all_iff
        interface_json_def)
  moreover have "json_Unmarshal (json_encode (card_json name urls)) = Some (card_json name urls)"
    using card_json_plain[OF assms] by (intro json_Unmarshal_encode) auto
  moreover have "struct_members [card_json name urls] = ?kvs" by (simp add: card_json_def)
  ultimately show ?thesis
    by (simp add: decode_card_def f string_of_def put_slice_single interface_json_def d(1)
        del: put_slice.simps struct_members.simps json_encode.simps)
      (simp add: d(1))
qed

lemma validateInterface_plain:
  assumes "plain_url (sch, h, p)" and "host \<noteq> []"
  shows "validateInterface
      \<lparr>ai_URL = url_text (sch, h, p), ai_ProtocolBinding = ''JSONRPC'', ai_ProtocolVersion = []\<rparr>
      want host = None \<longleftrightarrow> h = host \<and> TrimRight p (CHR ''/'') = want"
proof -
  have "url_Parse (url_text (sch, h, p)) =
      Some \<lparr>u_Scheme = sch, u_Opaque = [], u_Host = h, u_Path = p, u_RawQuery = []\<rparr>"
    using assms(1) url_Parse_plain[of sch h p] by (simp add: plain_url_def url_text_def)
  moreover have "Hostname \<lparr>u_Scheme = sch, u_Opaque = [], u_Host = h, u_Path = p, u_RawQuery = []\<rparr> = h"
    using assms(1) by (intro Hostname_plain[THEN trans]) (simp_all add: plain_url_def)
  moreover have "ToLower sch \<in> {''http'', ''https''}"
    using assms(1) by (auto simp: plain_url_def ToLower_def lower_char_def)
  ultimately show ?thesis
    using assms(2) by (auto simp: validateInterface_None fold_equal_def)
qed

lemma validateCard_card_json:
  assumes "ascii name" and "list_all plain_url urls" and "list_all url_char host"
  shows "validateCard (json_encode (card_json name urls)) host ns pre = None \<longleftrightarrow>
    urls \<noteq> [] \<and>
    (\<forall>u \<in> set urls. validateInterface
       \<lparr>ai_URL = url_text u, ai_ProtocolBinding = ''JSONRPC'', ai_ProtocolVersion = []\<rparr>
       (''/a2a/'' @ ns @ ''/'' @ pre) host = None)"
  by (auto simp: validateCard_None decode_card_json[OF assms(1,2)] advertised_def
      hostOnly_plain[OF assms(3)])

text \<open>
  C14: A card that lists plain interface URLs is accepted exactly when it lists at least one and
  every one of them is on the gateway's own host, at the agent's gateway path up to trailing
  slashes. A card that would lead a client anywhere else is refused.
\<close>

theorem card_accepted_iff_on_gateway:
  assumes "ascii name" and "list_all plain_url urls" and "list_all url_char host" and "host \<noteq> []"
  shows "validateCard (json_encode (card_json name urls)) host ns pre = None \<longleftrightarrow>
    urls \<noteq> [] \<and>
    (\<forall>(sch, h, p) \<in> set urls. h = host \<and> TrimRight p (CHR ''/'') = ''/a2a/'' @ ns @ ''/'' @ pre)"
  using assms(2) validateInterface_plain[OF _ assms(4)]
  by (auto simp: validateCard_card_json[OF assms(1,2,3)] list_all_iff)

theorem card_accepted_iff_on_gateway_witness:
  "validateCard (json_encode (card_json ''weather'' [(''https'', ''gw.example'', ''/a2a/team/weather/'')]))
     ''gw.example'' ''team'' ''weather'' = None \<and>
   validateCard (json_encode (card_json ''weather'' [(''https'', ''agent.internal'', ''/a2a/team/weather'')]))
     ''gw.example'' ''team'' ''weather'' \<noteq> None"
proof -
  have plain: "list_all plain_url [(''https'', ''gw.example'', ''/a2a/team/weather/'')]"
    "list_all plain_url [(''https'', ''agent.internal'', ''/a2a/team/weather'')]"
    "list_all url_char ''gw.example''" "ascii ''weather''"
    by (simp_all add: plain_url_def url_char_def path_char_def is_letter_def is_digit_def byte_in_def)
  show ?thesis
    using card_accepted_iff_on_gateway[OF plain(4) plain(1) plain(3), of "''team''" "''weather''"]
      card_accepted_iff_on_gateway[OF plain(4) plain(2) plain(3), of "''team''" "''weather''"]
    by (simp add: TrimRight_def)
qed
end
