(* ===== verification/A2A_Request.thy ===== *)
theory A2A_Request
  imports Go_Struct
begin

text \<open>
  Requests to agents (\<open>mcp-router/a2a.go\<close>): the path that names an agent, the envelope of a JSON-RPC
  request and the errors of the gateway.
\<close>

definition a2aPathPrefix :: string where "a2aPathPrefix = ''/a2a/''"
definition a2aBackendPath :: string where "a2aBackendPath = ''/a2a''"

definition a2aMethodSendMessage :: string where "a2aMethodSendMessage = ''SendMessage''"
definition a2aMethodSendStreaming :: string where "a2aMethodSendStreaming = ''SendStreamingMessage''"
definition a2aMethodGetTask :: string where "a2aMethodGetTask = ''GetTask''"
definition a2aMethodCancelTask :: string where "a2aMethodCancelTask = ''CancelTask''"
definition a2aMethodSubscribeToTask :: string where "a2aMethodSubscribeToTask = ''SubscribeToTask''"

text \<open>The error codes as their decimal literals.\<close>

definition a2aErrParse :: string where "a2aErrParse = ''-32700''"
definition a2aErrInvalidParams :: string where "a2aErrInvalidParams = ''-32602''"
definition a2aErrPushNotSupported :: string where "a2aErrPushNotSupported = ''-32003''"
definition a2aErrUnsupportedOp :: string where "a2aErrUnsupportedOp = ''-32004''"

record a2aState =
  a2_discovery :: bool
  a2_agent :: string
  a2_method :: string
  a2_streaming :: bool

definition isA2APath :: "string \<Rightarrow> bool" where
  "isA2APath path = HasPrefix path a2aPathPrefix"

definition isSupportedA2AMethod :: "string \<Rightarrow> bool" where
  "isSupportedA2AMethod m \<longleftrightarrow>
     m \<in> {a2aMethodSendMessage, a2aMethodSendStreaming, a2aMethodGetTask, a2aMethodCancelTask,
          a2aMethodSubscribeToTask}"

definition isA2AStreamingMethod :: "string \<Rightarrow> bool" where
  "isA2AStreamingMethod m \<longleftrightarrow> m = a2aMethodSendStreaming \<or> m = a2aMethodSubscribeToTask"

definition resolveA2APath :: "string \<Rightarrow> (string \<times> string) option" where
  "resolveA2APath path =
     (let rest = fst (Cut (TrimPrefix path a2aPathPrefix) (CHR ''?''))
      in case Split (Trim rest (CHR ''/'')) (CHR ''/'') of
           ns # pre # _ \<Rightarrow> if ns = [] \<or> pre = [] then None else Some (ns, pre)
         | _ \<Rightarrow> None)"

text \<open>
  The envelope: the method, the text of the id, and whether the configuration of the parameters has
  a push-notification member. None is an error of the decoder.
\<close>

definition configuration_ok :: "json \<Rightarrow> bool" where
  "configuration_ok v = struct_ok (\<lambda>_. True) v"

definition params_ok :: "json \<Rightarrow> bool" where
  "params_ok v = struct_ok (\<lambda>kvs. list_all configuration_ok (field_values ''configuration'' kvs)) v"

definition a2aRequest_ok :: "json \<Rightarrow> bool" where
  "a2aRequest_ok v =
     struct_ok (\<lambda>kvs. strings_ok [''method''] kvs \<and> list_all params_ok (field_values ''params'' kvs)) v"

definition parseA2ARequest :: "string \<Rightarrow> (string \<times> string \<times> bool) option" where
  "parseA2ARequest body =
     (case json_Unmarshal body of
        None \<Rightarrow> None
      | Some req \<Rightarrow>
          if \<not> a2aRequest_ok req then None
          else
            (let kvs = struct_members [req];
                 params = struct_members (field_values ''params'' kvs);
                 configuration = struct_members (field_values ''configuration'' params)
             in Some (string_of ''method'' kvs, raw_field ''id'' body,
                      field_values ''pushNotificationConfig'' configuration \<noteq> [])))"

definition a2aErrorBody :: "string \<Rightarrow> string \<Rightarrow> string \<Rightarrow> string" where
  "a2aErrorBody i code message =
     (let raw = (if i = [] then ''null'' else i)
      in case json_Unmarshal raw of
           None \<Rightarrow>
             json_encode (JObj [(''jsonrpc'', JStr ''2.0''), (''id'', JNull),
               (''error'', JObj [(''code'', JNum ''-32603''), (''message'', JStr ''internal error'')])])
         | Some _ \<Rightarrow>
             ''{'' @ json_quote ''jsonrpc'' @ '':'' @ json_quote ''2.0'' @ '','' @ json_quote ''id'' @ '':''
             @ compact False raw @ '','' @ json_quote ''error'' @ '':''
             @ json_encode (JObj [(''code'', JNum code), (''message'', JStr message)]) @ ''}'')"

section \<open>Paths\<close>

text \<open>A name that can stand in a path: not empty, without slash and question mark.\<close>

definition path_segment :: "string \<Rightarrow> bool" where
  "path_segment s \<longleftrightarrow> s \<noteq> [] \<and> CHR ''/'' \<notin> set s \<and> CHR ''?'' \<notin> set s"

lemma TrimRight_append: "x \<noteq> [] \<Longrightarrow> last x \<noteq> c \<Longrightarrow> TrimRight (x @ u) c = x @ TrimRight u c"
  by (cases x rule: rev_cases) (auto simp: TrimRight_def dropWhile_append)

lemma TrimRight_head: "u = [] \<or> hd u = d \<Longrightarrow> TrimRight u c = [] \<or> (\<exists>v. TrimRight u c = d # v)"
proof -
  assume u: "u = [] \<or> hd u = d"
  obtain w where "u = TrimRight u c @ w"
    unfolding TrimRight_def by (metis rev_append rev_rev_ident takeWhile_dropWhile_id)
  with u show ?thesis by (cases "TrimRight u c") (auto simp: hd_append)
qed

lemma Cut_fst_append: "c \<notin> set x \<Longrightarrow> fst (Cut (x @ u) c) = x @ fst (Cut u c)"
  by (cases "c \<in> set u") (auto simp: Cut_absent Cut_found dest!: split_list_first, metis Cut_found append.assoc fst_conv set_append Un_iff)

lemma Cut_fst_head: "u = [] \<or> hd u = d \<or> hd u = c \<Longrightarrow> fst (Cut u c) = [] \<or> hd (fst (Cut u c)) = d"
  by (cases u) (auto simp: Cut_def)

lemma resolve_segments:
  assumes "path_segment ns" and "path_segment pre" and rest: "rest = [] \<or> hd rest = CHR ''/'' \<or> hd rest = CHR ''?''"
  shows "resolveA2APath (a2aPathPrefix @ ns @ ''/'' @ pre @ rest) = Some (ns, pre)"
proof -
  let ?x = "ns @ ''/'' @ pre" and ?u = "fst (Cut rest (CHR ''?''))"
  have seg: "CHR ''?'' \<notin> set ?x" "?x \<noteq> []" "hd ?x \<noteq> CHR ''/''" "last ?x \<noteq> CHR ''/''"
    using assms(1,2) by (auto simp: path_segment_def hd_append last_append dest: hd_in_set last_in_set)
  have cut: "fst (Cut (ns @ ''/'' @ pre @ rest) (CHR ''?'')) = ?x @ ?u"
    using Cut_fst_append[OF seg(1), of rest] by simp
  have "Trim (?x @ ?u) (CHR ''/'') = ?x @ TrimRight ?u (CHR ''/'')"
    using seg TrimRight_append[OF seg(2,4)] by (cases ns) (auto simp: Trim_def)
  moreover have "TrimRight ?u (CHR ''/'') = [] \<or> (\<exists>v. TrimRight ?u (CHR ''/'') = CHR ''/'' # v)"
    using rest Cut_fst_head[of rest "CHR ''/''" "CHR ''?''"] by (intro TrimRight_head) auto
  ultimately have "\<exists>more. Split (Trim (?x @ ?u) (CHR ''/'')) (CHR ''/'') = ns # pre # more"
    using assms(1,2) Split_cons[of "CHR ''/''" ns] Split_cons[of "CHR ''/''" pre] Split_absent[of "CHR ''/''" pre]
    by (auto simp: path_segment_def)
  then show ?thesis
    using cut assms(1,2) by (auto simp: resolveA2APath_def path_segment_def)
qed

lemma Cut_fst_subset: "set (fst (Cut s c)) \<subseteq> set s"
  by (cases "c \<in> set s") (auto simp: Cut_absent Cut_found dest!: split_list_first)

text \<open>
  C33: a path names one agent. The path of a namespace and a prefix, with anything after them that
  starts a further segment or a query, resolves to that namespace and that prefix; and a path that
  resolves at all resolves to two names that are not empty and have no slash.
\<close>

theorem path_names_one_agent:
  "(path_segment ns \<and> path_segment pre \<and> (rest = [] \<or> hd rest = CHR ''/'' \<or> hd rest = CHR ''?'') \<longrightarrow>
      resolveA2APath (a2aPathPrefix @ ns @ ''/'' @ pre @ rest) = Some (ns, pre)) \<and>
   (resolveA2APath path = Some (a, b) \<longrightarrow>
      a \<noteq> [] \<and> b \<noteq> [] \<and> CHR ''/'' \<notin> set a \<and> CHR ''/'' \<notin> set b)"
  using resolve_segments[of ns pre rest]
    Split_parts[of "Trim (fst (Cut (TrimPrefix path a2aPathPrefix) (CHR ''?''))) (CHR ''/'')" "CHR ''/''"]
  by (auto simp: resolveA2APath_def Let_def split: list.splits if_splits)

theorem path_names_one_agent_witness:
  "resolveA2APath ''/a2a/team/weather/v1?x=1'' = Some (''team'', ''weather'')"
  using path_names_one_agent[of "''team''" "''weather''" "''/v1?x=1''" "[]" "[]" "[]"]
  by (simp add: path_segment_def a2aPathPrefix_def)

section \<open>Errors\<close>

definition error_json :: "json \<Rightarrow> string \<Rightarrow> string \<Rightarrow> json" where
  "error_json i code message =
     JObj [(''jsonrpc'', JStr ''2.0''), (''id'', i),
           (''error'', JObj [(''code'', JNum code), (''message'', JStr message)])]"

lemma error_body_known:
  assumes "json_plain i" and "json_depth i < maxNestingDepth"
  shows "a2aErrorBody (json_encode i) code message = json_encode (error_json i code message)"
proof -
  have "json_encode i \<noteq> []" using json_encode_pos[OF assms(1)] by auto
  moreover have "json_Unmarshal (json_encode i) = Some i"
    using assms by (intro json_Unmarshal_encode) auto
  ultimately show ?thesis using assms(1) by (simp add: a2aErrorBody_def error_json_def)
qed

lemma error_body_unknown: "a2aErrorBody [] code message = json_encode (error_json JNull code message)"
proof -
  have "json_Unmarshal ''null'' = Some JNull"
    using json_Unmarshal_encode[of JNull] by simp
  then show ?thesis
    using compact_encode_id[of JNull] by (simp add: a2aErrorBody_def error_json_def)
qed

text \<open>
  An error of the gateway is an answer to the request it rejects. The body of a rejection decodes
  to a JSON-RPC error with the given code and message whose id is the id of the request, and null
  where the request had none that could be read.
\<close>

theorem error_answers_the_request:
  assumes "json_plain i" and "json_depth i < maxNestingDepth" and "number_literal code" and "ascii message"
  shows "json_Unmarshal (a2aErrorBody (json_encode i) code message) = Some (error_json i code message) \<and>
         json_Unmarshal (a2aErrorBody [] code message) = Some (error_json JNull code message)"
proof -
  have "json_Unmarshal (json_encode (error_json j code message)) = Some (error_json j code message)"
    if "json_plain j" "json_depth j < maxNestingDepth" for j
    using that assms(3,4) by (intro json_Unmarshal_encode) (auto simp: error_json_def maxNestingDepth_def)
  then show ?thesis
    using assms by (simp add: error_body_known error_body_unknown maxNestingDepth_def)
qed

theorem error_answers_the_request_witness:
  "json_Unmarshal (a2aErrorBody (json_encode (JStr ''r1'')) a2aErrUnsupportedOp ''no'') =
     Some (error_json (JStr ''r1'') a2aErrUnsupportedOp ''no'')"
  using error_answers_the_request[of "JStr ''r1''" a2aErrUnsupportedOp "''no''"]
  by (simp add: maxNestingDepth_def a2aErrUnsupportedOp_def number_literal_def scan_number_def
      scan_int_def scan_frac_def scan_exp_def HasPrefix_def is_digit_def byte_in_def)

end
