(* ===== verification/Gateway_Config.thy ===== *)
theory Gateway_Config
  imports Go_Prelude
begin

text \<open>
  The configuration types of \<open>internal/config\<close>: upstream MCP servers, virtual servers and A2A
  agents (\<open>types.go\<close>, \<open>a2a_types.go\<close>), the comparison that decides whether a configuration change
  must reach the broker, the in-memory configuration object, and the edits that
  \<open>config_writer.go\<close> makes to one section of the shared configuration secret.

  The writer's two edits are generic in the entry type. Their contract is the locale
  \<open>named_entries\<close>; it is interpreted for MCP servers and for A2A agents.
\<close>

section \<open>Servers, virtual servers, agents\<close>

record AuthConfig =
  auth_Type :: string
  auth_Token :: string
  auth_Username :: string
  auth_Password :: string

text \<open>The pointer to a \<open>TokenURLElicitationConfig\<close> is an optional URL.\<close>

record MCPServer =
  srv_Name :: string
  srv_URL :: string
  srv_Hostname :: string
  srv_Prefix :: string
  srv_Auth :: "AuthConfig option"
  srv_Credential :: string
  srv_CACert :: string
  srv_State :: string
  srv_TokenURLElicitation :: "string option"
  srv_UserSpecificList :: bool
  srv_Category :: "string list"
  srv_Hint :: string
  srv_Tags :: "string list"

record VirtualServer =
  vs_Name :: string
  vs_Tools :: "string list"
  vs_Prompts :: "string list"

record A2AAgent =
  ag_Name :: string
  ag_URL :: string
  ag_Hostname :: string
  ag_AgentPrefix :: string
  ag_Auth :: "AuthConfig option"
  ag_Credential :: string
  ag_AgentCardURL :: string
  ag_CACert :: string
  ag_State :: string

definition server_ID :: "MCPServer \<Rightarrow> string" where
  "server_ID s = srv_Name s @ '':'' @ srv_Prefix s @ '':'' @ srv_Hostname s"

definition normalizeState :: "string \<Rightarrow> string" where
  "normalizeState state = (if state = '''' then ''Enabled'' else state)"

definition tokenURLElicitationChanged :: "string option \<Rightarrow> string option \<Rightarrow> bool" where
  "tokenURLElicitationChanged a b =
     (case a of
        None \<Rightarrow> (case b of None \<Rightarrow> False | Some _ \<Rightarrow> True)
      | Some u \<Rightarrow> (case b of None \<Rightarrow> True | Some v \<Rightarrow> u \<noteq> v))"

text \<open>\<open>tagsEqual\<close> counts the elements of the first slice and takes those of the second away.\<close>

fun count_tags :: "string list \<Rightarrow> (string \<Rightarrow> int) \<Rightarrow> (string \<Rightarrow> int)" where
  "count_tags [] counts = counts"
| "count_tags (t # ts) counts = count_tags ts (counts(t := counts t + 1))"

fun uncount_tags :: "string list \<Rightarrow> (string \<Rightarrow> int) \<Rightarrow> bool" where
  "uncount_tags [] counts = True"
| "uncount_tags (t # ts) counts =
     (let counts' = counts(t := counts t - 1)
      in if counts' t < 0 then False else uncount_tags ts counts')"

definition tagsEqual :: "string list \<Rightarrow> string list \<Rightarrow> bool" where
  "tagsEqual a b =
     (if length a \<noteq> length b then False
      else if length a = 0 then True
      else uncount_tags b (count_tags a (\<lambda>_. 0)))"

definition server_ConfigChanged :: "MCPServer \<Rightarrow> MCPServer \<Rightarrow> bool" where
  "server_ConfigChanged s existing =
     (if srv_Name existing \<noteq> srv_Name s \<or>
         srv_Prefix existing \<noteq> srv_Prefix s \<or>
         srv_URL existing \<noteq> srv_URL s \<or>
         srv_Hostname existing \<noteq> srv_Hostname s \<or>
         srv_Credential existing \<noteq> srv_Credential s \<or>
         srv_CACert existing \<noteq> srv_CACert s \<or>
         normalizeState (srv_State existing) \<noteq> normalizeState (srv_State s) \<or>
         srv_UserSpecificList existing \<noteq> srv_UserSpecificList s \<or>
         srv_Hint existing \<noteq> srv_Hint s \<or>
         tokenURLElicitationChanged (srv_TokenURLElicitation s) (srv_TokenURLElicitation existing)
      then True
      else if srv_Category existing \<noteq> srv_Category s then True
      else \<not> tagsEqual (srv_Tags s) (srv_Tags existing))"

definition agent_ConfigChanged :: "A2AAgent \<Rightarrow> A2AAgent \<Rightarrow> bool" where
  "agent_ConfigChanged a existing =
     (ag_Name existing \<noteq> ag_Name a \<or>
      ag_URL existing \<noteq> ag_URL a \<or>
      ag_Hostname existing \<noteq> ag_Hostname a \<or>
      ag_AgentPrefix existing \<noteq> ag_AgentPrefix a \<or>
      ag_Credential existing \<noteq> ag_Credential a \<or>
      ag_AgentCardURL existing \<noteq> ag_AgentCardURL a \<or>
      ag_CACert existing \<noteq> ag_CACert a \<or>
      normalizeState (ag_State existing) \<noteq> normalizeState (ag_State a))"

section \<open>The in-memory configuration\<close>

text \<open>
  The observers of the configuration are named by what they are; \<open>Notify\<close> starts one goroutine
  per observer, so its model is the list of calls it starts.
\<close>

record 'obs MCPServersConfig =
  cfg_Servers :: "MCPServer list"
  cfg_VirtualServers :: "VirtualServer list"
  cfg_A2AAgents :: "A2AAgent list"
  cfg_observers :: "'obs list"
  cfg_ExternalHostname :: string
  cfg_InternalHostname :: string
  cfg_GatewayCACertPEM :: string

definition RegisterObserver :: "'obs \<Rightarrow> 'obs MCPServersConfig \<Rightarrow> 'obs MCPServersConfig" where
  "RegisterObserver obs c = c\<lparr>cfg_observers := cfg_observers c @ [obs]\<rparr>"

definition SetServers ::
  "MCPServer list \<Rightarrow> VirtualServer list \<Rightarrow> 'obs MCPServersConfig \<Rightarrow> 'obs MCPServersConfig" where
  "SetServers servers vss c = c\<lparr>cfg_Servers := servers, cfg_VirtualServers := vss\<rparr>"

definition SetA2AAgents :: "A2AAgent list \<Rightarrow> 'obs MCPServersConfig \<Rightarrow> 'obs MCPServersConfig" where
  "SetA2AAgents agents c = c\<lparr>cfg_A2AAgents := agents\<rparr>"

definition SetGatewayCACertPEM :: "string \<Rightarrow> 'obs MCPServersConfig \<Rightarrow> 'obs MCPServersConfig" where
  "SetGatewayCACertPEM pem c = c\<lparr>cfg_GatewayCACertPEM := pem\<rparr>"

definition Notify :: "'obs MCPServersConfig \<Rightarrow> ('obs \<times> 'obs MCPServersConfig) list" where
  "Notify c = map (\<lambda>obs. (obs, c)) (cfg_observers c)"

definition ListServers :: "'obs MCPServersConfig \<Rightarrow> MCPServer list" where
  "ListServers c = cfg_Servers c"

definition ListVirtualServers :: "'obs MCPServersConfig \<Rightarrow> VirtualServer list" where
  "ListVirtualServers c = cfg_VirtualServers c"

definition ListA2AAgents :: "'obs MCPServersConfig \<Rightarrow> A2AAgent list" where
  "ListA2AAgents c = cfg_A2AAgents c"

definition GetGatewayCACertPEM :: "'obs MCPServersConfig \<Rightarrow> string" where
  "GetGatewayCACertPEM c = cfg_GatewayCACertPEM c"

definition GetExternalHostname :: "'obs MCPServersConfig \<Rightarrow> string" where
  "GetExternalHostname c = cfg_ExternalHostname c"

fun find_server :: "string \<Rightarrow> MCPServer list \<Rightarrow> MCPServer option" where
  "find_server n [] = None"
| "find_server n (s # ss) = (if srv_Name s = n then Some s else find_server n ss)"

definition GetServerConfigByName :: "'obs MCPServersConfig \<Rightarrow> string \<Rightarrow> MCPServer option" where
  "GetServerConfigByName c n = find_server n (cfg_Servers c)"

section \<open>The configuration secret\<close>

record BrokerConfig =
  bc_Servers :: "MCPServer list"
  bc_VirtualServers :: "VirtualServer list"
  bc_GatewayCACertPEM :: string
  bc_A2AAgents :: "A2AAgent list"

definition empty_BrokerConfig :: BrokerConfig where
  "empty_BrokerConfig =
     \<lparr>bc_Servers = [], bc_VirtualServers = [], bc_GatewayCACertPEM = [], bc_A2AAgents = []\<rparr>"

record NamespacedName =
  nn_Namespace :: string
  nn_Name :: string

record Secret =
  sec_Namespace :: string
  sec_Name :: string
  sec_ResourceVersion :: string
  sec_Labels :: "(string \<times> string) list"
  sec_Data :: "string gomap option"
  sec_StringData :: "string gomap option"

text \<open>
  The Kubernetes client and the YAML codec are not part of the repository. They are the fields
  of two records that the writer's definitions take as arguments: the client's calls on the
  cluster's state, the retry helper, which runs an attempt again when it fails with a conflict,
  and the two conversions between a configuration and its text.
\<close>

datatype kube_error = NotFound | AlreadyExists | Conflict | OtherKubeError string

datatype writer_error =
    ReadError kube_error | CreateError kube_error | RefetchError kube_error
  | UnmarshalError string | MarshalError string | UpdateError kube_error | DeleteError kube_error
  | ListError kube_error

record 'w kube =
  k_Get :: "'w \<Rightarrow> NamespacedName \<Rightarrow> kube_error + Secret"
  k_Create :: "'w \<Rightarrow> Secret \<Rightarrow> 'w \<times> (kube_error + Secret)"
  k_Update :: "'w \<Rightarrow> Secret \<Rightarrow> 'w \<times> kube_error option"
  k_Delete :: "'w \<Rightarrow> Secret \<Rightarrow> 'w \<times> kube_error option"
  k_List :: "'w \<Rightarrow> (string \<times> string) list \<Rightarrow> kube_error + Secret list"
  k_RetryOnConflict ::
    "('w \<Rightarrow> 'w \<times> writer_error option) \<Rightarrow> 'w \<Rightarrow> 'w \<times> writer_error option"

record yaml_codec =
  y_Marshal :: "BrokerConfig \<Rightarrow> string + string"
  y_Unmarshal :: "string \<Rightarrow> string + BrokerConfig"

definition configFileName :: string where
  "configFileName = ''config.yaml''"

definition emptyConfigFile :: string where
  "emptyConfigFile = ''servers: []'' @ [CHR 0x0A] @ ''virtualServers: []'' @ [CHR 0x0A]"

definition DefaultNamespaceName :: NamespacedName where
  "DefaultNamespaceName = \<lparr>nn_Namespace = ''mcp-system'', nn_Name = ''mcp-gateway-config''\<rparr>"

definition NamespaceName :: "string \<Rightarrow> NamespacedName" where
  "NamespaceName ns = \<lparr>nn_Namespace = ns, nn_Name = ''mcp-gateway-config''\<rparr>"

definition new_config_secret :: "NamespacedName \<Rightarrow> Secret" where
  "new_config_secret nn =
     \<lparr>sec_Namespace = nn_Namespace nn, sec_Name = nn_Name nn, sec_ResourceVersion = [],
      sec_Labels = [(''app'', ''mcp-gateway''), (''mcp.kuadrant.io/aggregated'', ''true''),
                    (''mcp.kuadrant.io/secret'', ''true'')],
      sec_Data = None, sec_StringData = Some [configFileName \<mapsto> emptyConfigFile]\<rparr>"

text \<open>
  \<open>StringData\<close> is write-only: what a read returns is in \<open>Data\<close>, and it is copied over unless
  \<open>StringData\<close> already has the file.
\<close>

definition copy_data :: "Secret \<Rightarrow> Secret" where
  "copy_data sec =
     (let sd = (case sec_StringData sec of None \<Rightarrow> Map.empty | Some sd \<Rightarrow> sd);
          sd' = (case sec_Data sec of
                   None \<Rightarrow> sd
                 | Some data \<Rightarrow>
                     (case sd configFileName of
                        Some _ \<Rightarrow> sd
                      | None \<Rightarrow> (case data configFileName of
                                   None \<Rightarrow> sd
                                 | Some d \<Rightarrow> sd(configFileName \<mapsto> d))))
      in sec\<lparr>sec_StringData := Some sd'\<rparr>)"

definition config_text :: "Secret \<Rightarrow> string" where
  "config_text sec =
     (case sec_StringData sec of
        None \<Rightarrow> []
      | Some sd \<Rightarrow> (case sd configFileName of None \<Rightarrow> [] | Some t \<Rightarrow> t))"

definition parse_secret :: "yaml_codec \<Rightarrow> Secret \<Rightarrow> writer_error + BrokerConfig \<times> Secret" where
  "parse_secret y sec0 =
     (let sec = copy_data sec0; t = config_text sec
      in if t \<noteq> [] then
           (case y_Unmarshal y t of
              Inl e \<Rightarrow> Inl (UnmarshalError e)
            | Inr c \<Rightarrow> Inr (c, sec))
         else Inr (empty_BrokerConfig, sec))"

definition readOrCreateConfigSecret ::
  "'w kube \<Rightarrow> yaml_codec \<Rightarrow> 'w \<Rightarrow> NamespacedName \<Rightarrow> 'w \<times> (writer_error + BrokerConfig \<times> Secret)"
where
  "readOrCreateConfigSecret k y w nn =
     (case k_Get k w nn of
        Inr sec \<Rightarrow> (w, parse_secret y sec)
      | Inl e \<Rightarrow>
          if e \<noteq> NotFound then (w, Inl (ReadError e))
          else
            (case k_Create k w (new_config_secret nn) of
               (w', Inr sec) \<Rightarrow> (w', parse_secret y sec)
             | (w', Inl e') \<Rightarrow>
                 if e' \<noteq> AlreadyExists then (w', Inl (CreateError e'))
                 else
                   (case k_Get k w' nn of
                      Inl e'' \<Rightarrow> (w', Inl (RefetchError e''))
                    | Inr sec \<Rightarrow> (w', parse_secret y sec))))"

text \<open>
  The last step of every write: the new text goes into \<open>StringData\<close> and the secret is updated.
\<close>

definition set_config_text :: "string \<Rightarrow> Secret \<Rightarrow> Secret" where
  "set_config_text t sec =
     sec\<lparr>sec_StringData :=
            Some ((case sec_StringData sec of None \<Rightarrow> Map.empty | Some sd \<Rightarrow> sd)
                    (configFileName \<mapsto> t))\<rparr>"

definition write_back ::
  "'w kube \<Rightarrow> yaml_codec \<Rightarrow> 'w \<Rightarrow> BrokerConfig \<Rightarrow> Secret \<Rightarrow> 'w \<times> writer_error option" where
  "write_back k y w c sec =
     (case y_Marshal y c of
        Inl e \<Rightarrow> (w, Some (MarshalError e))
      | Inr t \<Rightarrow>
          (case k_Update k w (set_config_text t sec) of
             (w', None) \<Rightarrow> (w', None)
           | (w', Some e) \<Rightarrow> (w', Some (UpdateError e))))"

subsection \<open>Editing one section by name\<close>

text \<open>
  The loop of \<open>upsertNamedEntry\<close>: None when the entry is found unchanged and the write is
  skipped, otherwise the new section.
\<close>

fun upsert_entries ::
  "('e \<Rightarrow> string) \<Rightarrow> ('e \<Rightarrow> 'e \<Rightarrow> bool) \<Rightarrow> 'e \<Rightarrow> 'e list \<Rightarrow> 'e list option" where
  "upsert_entries name changed entry [] = Some [entry]"
| "upsert_entries name changed entry (e # es) =
     (if name e = name entry
      then if \<not> changed entry e then None else Some (entry # es)
      else map_option ((#) e) (upsert_entries name changed entry es))"

definition remove_entries :: "('e \<Rightarrow> string) \<Rightarrow> string \<Rightarrow> 'e list \<Rightarrow> 'e list option" where
  "remove_entries name n es =
     (if \<exists>e \<in> set es. name e = n then Some (filter (\<lambda>e. name e \<noteq> n) es) else None)"

text \<open>
  One attempt of the writer is the function that \<open>retry.RetryOnConflict\<close> is given.
\<close>

definition upsert_attempt ::
  "'w kube \<Rightarrow> yaml_codec \<Rightarrow> ('e \<Rightarrow> string) \<Rightarrow> ('e \<Rightarrow> 'e \<Rightarrow> bool) \<Rightarrow> 'e \<Rightarrow> NamespacedName \<Rightarrow>
   (BrokerConfig \<Rightarrow> 'e list) \<Rightarrow> (BrokerConfig \<Rightarrow> 'e list \<Rightarrow> BrokerConfig) \<Rightarrow>
   'w \<Rightarrow> 'w \<times> writer_error option" where
  "upsert_attempt k y name changed entry nn getf setf w =
     (case readOrCreateConfigSecret k y w nn of
        (w', Inl e) \<Rightarrow> (w', Some e)
      | (w', Inr (c, sec)) \<Rightarrow>
          (case upsert_entries name changed entry (getf c) of
             None \<Rightarrow> (w', None)
           | Some es \<Rightarrow> write_back k y w' (setf c es) sec))"

definition upsertNamedEntry ::
  "'w kube \<Rightarrow> yaml_codec \<Rightarrow> ('e \<Rightarrow> string) \<Rightarrow> ('e \<Rightarrow> 'e \<Rightarrow> bool) \<Rightarrow> 'e \<Rightarrow> NamespacedName \<Rightarrow>
   (BrokerConfig \<Rightarrow> 'e list) \<Rightarrow> (BrokerConfig \<Rightarrow> 'e list \<Rightarrow> BrokerConfig) \<Rightarrow>
   'w \<Rightarrow> 'w \<times> writer_error option" where
  "upsertNamedEntry k y name changed entry nn getf setf w =
     k_RetryOnConflict k (upsert_attempt k y name changed entry nn getf setf) w"

definition remove_attempt ::
  "'w kube \<Rightarrow> yaml_codec \<Rightarrow> ('e \<Rightarrow> string) \<Rightarrow> string \<Rightarrow>
   (BrokerConfig \<Rightarrow> 'e list) \<Rightarrow> (BrokerConfig \<Rightarrow> 'e list \<Rightarrow> BrokerConfig) \<Rightarrow>
   NamespacedName \<Rightarrow> 'w \<Rightarrow> 'w \<times> writer_error option" where
  "remove_attempt k y name n getf setf nn w =
     (case readOrCreateConfigSecret k y w nn of
        (w', Inl e) \<Rightarrow> (w', Some e)
      | (w', Inr (c, sec)) \<Rightarrow>
          (case remove_entries name n (getf c) of
             None \<Rightarrow> (w', None)
           | Some es \<Rightarrow> write_back k y w' (setf c es) sec))"

text \<open>The loop over the listed secrets keeps the last error and goes on after a failure.\<close>

fun remove_from_secrets ::
  "'w kube \<Rightarrow> (NamespacedName \<Rightarrow> 'w \<Rightarrow> 'w \<times> writer_error option) \<Rightarrow> Secret list \<Rightarrow>
   writer_error option \<Rightarrow> 'w \<Rightarrow> 'w \<times> writer_error option" where
  "remove_from_secrets k attempt [] lastErr w = (w, lastErr)"
| "remove_from_secrets k attempt (sec # secs) lastErr w =
     (let nn = \<lparr>nn_Namespace = sec_Namespace sec, nn_Name = sec_Name sec\<rparr>
      in case k_RetryOnConflict k (attempt nn) w of
           (w', None) \<Rightarrow> remove_from_secrets k attempt secs lastErr w'
         | (w', Some e) \<Rightarrow> remove_from_secrets k attempt secs (Some e) w')"

definition removeNamedEntry ::
  "'w kube \<Rightarrow> yaml_codec \<Rightarrow> ('e \<Rightarrow> string) \<Rightarrow> string \<Rightarrow>
   (BrokerConfig \<Rightarrow> 'e list) \<Rightarrow> (BrokerConfig \<Rightarrow> 'e list \<Rightarrow> BrokerConfig) \<Rightarrow>
   'w \<Rightarrow> 'w \<times> writer_error option" where
  "removeNamedEntry k y name n getf setf w =
     (case k_List k w [(''mcp.kuadrant.io/aggregated'', ''true'')] of
        Inl e \<Rightarrow> (w, Some (ListError e))
      | Inr secs \<Rightarrow> remove_from_secrets k (remove_attempt k y name n getf setf) secs None w)"

definition set_servers :: "BrokerConfig \<Rightarrow> MCPServer list \<Rightarrow> BrokerConfig" where
  "set_servers c s = c\<lparr>bc_Servers := s\<rparr>"

definition set_agents :: "BrokerConfig \<Rightarrow> A2AAgent list \<Rightarrow> BrokerConfig" where
  "set_agents c a = c\<lparr>bc_A2AAgents := a\<rparr>"

definition UpsertMCPServer ::
  "'w kube \<Rightarrow> yaml_codec \<Rightarrow> MCPServer \<Rightarrow> NamespacedName \<Rightarrow> 'w \<Rightarrow> 'w \<times> writer_error option" where
  "UpsertMCPServer k y server nn w =
     upsertNamedEntry k y srv_Name server_ConfigChanged server nn bc_Servers set_servers w"

definition RemoveMCPServer ::
  "'w kube \<Rightarrow> yaml_codec \<Rightarrow> string \<Rightarrow> 'w \<Rightarrow> 'w \<times> writer_error option" where
  "RemoveMCPServer k y n w = removeNamedEntry k y srv_Name n bc_Servers set_servers w"

definition UpsertA2AAgent ::
  "'w kube \<Rightarrow> yaml_codec \<Rightarrow> A2AAgent \<Rightarrow> NamespacedName \<Rightarrow> 'w \<Rightarrow> 'w \<times> writer_error option" where
  "UpsertA2AAgent k y agent nn w =
     upsertNamedEntry k y ag_Name agent_ConfigChanged agent nn bc_A2AAgents set_agents w"

definition RemoveA2AAgent ::
  "'w kube \<Rightarrow> yaml_codec \<Rightarrow> string \<Rightarrow> 'w \<Rightarrow> 'w \<times> writer_error option" where
  "RemoveA2AAgent k y n w = removeNamedEntry k y ag_Name n bc_A2AAgents set_agents w"

definition WriteVirtualServerConfig ::
  "'w kube \<Rightarrow> yaml_codec \<Rightarrow> VirtualServer list \<Rightarrow> NamespacedName \<Rightarrow> 'w \<Rightarrow> 'w \<times> writer_error option"
where
  "WriteVirtualServerConfig k y vss nn =
     k_RetryOnConflict k (\<lambda>w.
       case readOrCreateConfigSecret k y w nn of
         (w', Inl e) \<Rightarrow> (w', Some e)
       | (w', Inr (c, sec)) \<Rightarrow> write_back k y w' (c\<lparr>bc_VirtualServers := vss\<rparr>) sec)"

definition WriteCACertBundle ::
  "'w kube \<Rightarrow> yaml_codec \<Rightarrow> string \<Rightarrow> NamespacedName \<Rightarrow> 'w \<Rightarrow> 'w \<times> writer_error option" where
  "WriteCACertBundle k y pem nn =
     k_RetryOnConflict k (\<lambda>w.
       case readOrCreateConfigSecret k y w nn of
         (w', Inl e) \<Rightarrow> (w', Some e)
       | (w', Inr (c, sec)) \<Rightarrow>
           if bc_GatewayCACertPEM c = pem then (w', None)
           else write_back k y w' (c\<lparr>bc_GatewayCACertPEM := pem\<rparr>) sec)"

definition DeleteConfig :: "'w kube \<Rightarrow> NamespacedName \<Rightarrow> 'w \<Rightarrow> 'w \<times> writer_error option" where
  "DeleteConfig k nn w =
     (case k_Get k w nn of
        Inl e \<Rightarrow> (w, if e = NotFound then None else Some (ReadError e))
      | Inr sec \<Rightarrow>
          (case k_Delete k w sec of
             (w', None) \<Rightarrow> (w', None)
           | (w', Some e) \<Rightarrow> (w', if e = NotFound then None else Some (DeleteError e))))"

definition EnsureConfigExists ::
  "'w kube \<Rightarrow> yaml_codec \<Rightarrow> NamespacedName \<Rightarrow> 'w \<Rightarrow> 'w \<times> writer_error option" where
  "EnsureConfigExists k y nn w =
     (case readOrCreateConfigSecret k y w nn of
        (w', Inl e) \<Rightarrow> (w', Some e)
      | (w', Inr _) \<Rightarrow> (w', None))"

definition WriteEmptyConfig ::
  "'w kube \<Rightarrow> yaml_codec \<Rightarrow> NamespacedName \<Rightarrow> 'w \<Rightarrow> 'w \<times> writer_error option" where
  "WriteEmptyConfig k y nn =
     k_RetryOnConflict k (\<lambda>w.
       case readOrCreateConfigSecret k y w nn of
         (w', Inl e) \<Rightarrow> (w', Some e)
       | (w', Inr (_, sec)) \<Rightarrow>
           (case k_Update k w' (set_config_text emptyConfigFile sec) of
              (w'', None) \<Rightarrow> (w'', None)
            | (w'', Some e) \<Rightarrow> (w'', Some (UpdateError e))))"

text \<open>
  What the writer relies on of the client, the retry helper and the codec. A secret that was
  written is the one that is read back, with \<open>StringData\<close> moved to \<open>Data\<close>; the retry helper
  returns what its last attempt returned; the text of a configuration parses to it.
\<close>

definition nn_of :: "Secret \<Rightarrow> NamespacedName" where
  "nn_of sec = \<lparr>nn_Namespace = sec_Namespace sec, nn_Name = sec_Name sec\<rparr>"

definition stored_text :: "Secret \<Rightarrow> string \<Rightarrow> bool" where
  "stored_text sec t \<longleftrightarrow>
     sec_StringData sec = None \<and> (\<exists>d. sec_Data sec = Some d \<and> d configFileName = Some t)"

definition kube_laws :: "'w kube \<Rightarrow> bool" where
  "kube_laws k \<longleftrightarrow>
     (\<forall>w nn sec. k_Get k w nn = Inr sec \<longrightarrow> nn_of sec = nn) \<and>
     (\<forall>w sec w' sec'. k_Create k w sec = (w', Inr sec') \<longrightarrow> k_Get k w' (nn_of sec) = Inr sec') \<and>
     (\<forall>w sec w' sd t. k_Update k w sec = (w', None) \<longrightarrow>
        sec_StringData sec = Some sd \<longrightarrow> sd configFileName = Some t \<longrightarrow>
        (\<exists>sec'. k_Get k w' (nn_of sec) = Inr sec' \<and> stored_text sec' t)) \<and>
     (\<forall>f w. \<exists>w1. k_RetryOnConflict k f w = f w1)"

definition yaml_laws :: "yaml_codec \<Rightarrow> bool" where
  "yaml_laws y \<longleftrightarrow> (\<forall>c t. y_Marshal y c = Inr t \<longrightarrow> t \<noteq> [] \<and> y_Unmarshal y t = Inr c)"

text \<open>The configuration that a read of the secret finds.\<close>

definition current_config :: "'w kube \<Rightarrow> yaml_codec \<Rightarrow> 'w \<Rightarrow> NamespacedName \<Rightarrow> BrokerConfig \<Rightarrow> bool"
where
  "current_config k y w nn c \<longleftrightarrow>
     (\<exists>sec sec'. k_Get k w nn = Inr sec \<and> parse_secret y sec = Inr (c, sec'))"

section \<open>Comparing configurations\<close>

lemma count_tags_eq: "count_tags ts f t = f t + int (count (mset ts) t)"
  by (induction ts arbitrary: f) auto

lemma uncount_tags_iff:
  "\<forall>t. 0 \<le> f t \<Longrightarrow> uncount_tags ts f \<longleftrightarrow> (\<forall>t. int (count (mset ts) t) \<le> f t)"
proof (induction ts arbitrary: f)
  case (Cons t ts)
  show ?case
  proof (cases "f t < 1")
    case True
    then have "\<not> int (count (mset (t # ts)) t) \<le> f t" by simp
    with True show ?thesis by auto
  next
    case False
    let ?g = "f(t := f t - 1)"
    have pos: "\<forall>u. 0 \<le> ?g u" using Cons.prems False by simp
    have "uncount_tags (t # ts) f = uncount_tags ts ?g" using False by simp
    also have "\<dots> \<longleftrightarrow> (\<forall>u. int (count (mset ts) u) \<le> ?g u)"
      by (rule Cons.IH[OF pos])
    also have "\<dots> \<longleftrightarrow> (\<forall>u. int (count (mset (t # ts)) u) \<le> f u)" by auto
    finally show ?thesis .
  qed
qed simp

lemma tagsEqual_mset: "tagsEqual a b \<longleftrightarrow> mset a = mset b"
proof (cases "length a = length b")
  case True
  have "uncount_tags b (count_tags a (\<lambda>_. 0)) \<longleftrightarrow> mset b \<subseteq># mset a"
    by (subst uncount_tags_iff) (auto simp: count_tags_eq subseteq_mset_def)
  also have "\<dots> \<longleftrightarrow> mset a = mset b"
    using True by (metis mset_subset_eq_exists_conv size_mset size_union add_cancel_left_right
        size_eq_0_iff_empty subset_mset.order_refl add.right_neutral)
  finally show ?thesis using True by (auto simp: tagsEqual_def)
next
  case False
  then show ?thesis by (metis tagsEqual_def mset_eq_length)
qed

lemma tokenURLElicitationChanged_iff: "tokenURLElicitationChanged a b \<longleftrightarrow> a \<noteq> b"
  by (auto simp: tokenURLElicitationChanged_def split: option.splits)

lemma server_ConfigChanged_refl [simp]: "\<not> server_ConfigChanged s s"
  by (simp add: server_ConfigChanged_def tagsEqual_mset tokenURLElicitationChanged_iff)

lemma server_ConfigChanged_sym: "server_ConfigChanged s t \<longleftrightarrow> server_ConfigChanged t s"
  by (auto simp: server_ConfigChanged_def tagsEqual_mset tokenURLElicitationChanged_iff)

lemma server_unchanged_ID: "\<not> server_ConfigChanged s t \<Longrightarrow> server_ID s = server_ID t"
  by (auto simp: server_ConfigChanged_def server_ID_def split: if_splits)

lemma agent_ConfigChanged_refl [simp]: "\<not> agent_ConfigChanged a a"
  by (simp add: agent_ConfigChanged_def)

section \<open>Reading and writing the secret\<close>

lemma config_text_set [simp]: "config_text (set_config_text t sec) = t"
  by (simp add: config_text_def set_config_text_def)

lemma nn_of_simps [simp]:
  "nn_of (set_config_text t sec) = nn_of sec"
  "nn_of (copy_data sec) = nn_of sec"
  "nn_of (new_config_secret nn) = nn"
  by (simp_all add: nn_of_def set_config_text_def copy_data_def new_config_secret_def Let_def)

lemma parse_secret_nn: "parse_secret y sec = Inr (c, sec') \<Longrightarrow> nn_of sec' = nn_of sec"
  by (auto simp: parse_secret_def Let_def split: if_splits sum.splits)

lemma parse_stored_text:
  assumes "stored_text sec t" and "yaml_laws y" and "y_Marshal y c = Inr t"
  shows "\<exists>sec'. parse_secret y sec = Inr (c, sec')"
proof -
  have "config_text (copy_data sec) = t"
    using assms(1) by (auto simp: stored_text_def copy_data_def config_text_def)
  then show ?thesis
    using assms(2,3) by (simp add: parse_secret_def yaml_laws_def)
qed

lemma readOrCreate_current:
  assumes "kube_laws k" and "readOrCreateConfigSecret k y w nn = (w', Inr (c, sec))"
  shows "current_config k y w' nn c \<and> nn_of sec = nn"
proof -
  have created: "k_Get k w2 nn = Inr s" if "k_Create k w1 (new_config_secret nn) = (w2, Inr s)"
    for w1 w2 s
    using assms(1) that by (metis kube_laws_def nn_of_simps(3))
  from assms(2) obtain sec0
    where got: "k_Get k w' nn = Inr sec0" and parsed: "parse_secret y sec0 = Inr (c, sec)"
    by (auto simp: readOrCreateConfigSecret_def dest: created split: sum.splits if_splits prod.splits)
  then show ?thesis
    using assms(1) parse_secret_nn[OF parsed] by (auto simp: current_config_def kube_laws_def)
qed

lemma write_back_current:
  assumes k: "kube_laws k" and y: "yaml_laws y" and nn: "nn_of sec = nn"
    and w: "write_back k y w c sec = (w', None)"
  shows "current_config k y w' nn c"
proof -
  from w obtain t where t: "y_Marshal y c = Inr t"
      and upd: "k_Update k w (set_config_text t sec) = (w', None)"
    by (auto simp: write_back_def split: sum.splits prod.splits option.splits)
  have "\<exists>sec'. k_Get k w' nn = Inr sec' \<and> stored_text sec' t"
  proof -
    obtain sd where "sec_StringData (set_config_text t sec) = Some sd" "sd configFileName = Some t"
      by (simp add: set_config_text_def)
    with upd k nn show ?thesis by (metis (no_types, lifting) kube_laws_def nn_of_simps(1))
  qed
  then show ?thesis
    using parse_stored_text[OF _ y t] by (auto simp: current_config_def)
qed

section \<open>Entries edited by name\<close>

locale named_entries =
  fixes name :: "'e \<Rightarrow> string"
    and changed :: "'e \<Rightarrow> 'e \<Rightarrow> bool"
    and getf :: "BrokerConfig \<Rightarrow> 'e list"
    and setf :: "BrokerConfig \<Rightarrow> 'e list \<Rightarrow> BrokerConfig"
  assumes unchanged_name: "\<not> changed a b \<Longrightarrow> name a = name b"
    and unchanged_refl: "\<not> changed a a"
    and get_set: "getf (setf c es) = es"
begin

lemma upsert_skip:
  "upsert_entries name changed entry es = None \<Longrightarrow>
   \<exists>e. find (\<lambda>e. name e = name entry) es = Some e \<and> \<not> changed entry e"
  by (induction es) (auto split: if_splits)

lemma upsert_find:
  "upsert_entries name changed entry es = Some es' \<Longrightarrow>
   find (\<lambda>e. name e = name entry) es' = Some entry"
  by (induction es arbitrary: es') (auto split: if_splits)

lemma upsert_others:
  "upsert_entries name changed entry es = Some es' \<Longrightarrow>
   filter (\<lambda>e. name e \<noteq> name entry) es' = filter (\<lambda>e. name e \<noteq> name entry) es"
  by (induction es arbitrary: es') (auto split: if_splits)

lemma upsert_names:
  "upsert_entries name changed entry es = Some es' \<Longrightarrow>
   map name es' =
     (if name entry \<in> name ` set es then map name es else map name es @ [name entry])"
  by (induction es arbitrary: es') (auto split: if_splits)

lemma upsert_again: "upsert_entries name changed entry es = Some es' \<Longrightarrow>
   upsert_entries name changed entry es' = None"
  by (induction es arbitrary: es') (auto simp: unchanged_refl split: if_splits)

lemma remove_spec:
  "remove_entries name n es = Some es' \<Longrightarrow>
   n \<in> name ` set es \<and> es' = filter (\<lambda>e. name e \<noteq> n) es"
  by (auto simp: remove_entries_def split: if_splits)

lemma upsertNamedEntry_ok:
  assumes k: "kube_laws k" and y: "yaml_laws y"
    and ok: "upsertNamedEntry k y name changed entry nn getf setf w = (w', None)"
  shows "\<exists>w1 w2 c c' sec. readOrCreateConfigSecret k y w1 nn = (w2, Inr (c, sec)) \<and>
           current_config k y w' nn c' \<and>
           c' = (case upsert_entries name changed entry (getf c) of
                   None \<Rightarrow> c | Some es \<Rightarrow> setf c es)"
proof -
  obtain w1 where "upsert_attempt k y name changed entry nn getf setf w1 = (w', None)"
    using k ok by (metis kube_laws_def upsertNamedEntry_def)
  then obtain w2 c sec where r: "readOrCreateConfigSecret k y w1 nn = (w2, Inr (c, sec))"
    and wr: "(case upsert_entries name changed entry (getf c) of
                None \<Rightarrow> (w2, None) | Some es \<Rightarrow> write_back k y w2 (setf c es) sec) = (w', None)"
    by (auto simp: upsert_attempt_def split: prod.splits sum.splits)
  note cur = readOrCreate_current[OF k r]
  show ?thesis
  proof (cases "upsert_entries name changed entry (getf c)")
    case None
    with wr cur r show ?thesis by (metis fst_conv option.simps(4))
  next
    case (Some es)
    then have "current_config k y w' nn (setf c es)"
      using wr cur write_back_current[OF k y] by auto
    with Some r show ?thesis by (metis option.simps(5))
  qed
qed

lemma upsert_entries_ok:
  assumes "es' = (case upsert_entries name changed entry es of None \<Rightarrow> es | Some x \<Rightarrow> x)"
  shows "(\<exists>e. find (\<lambda>e. name e = name entry) es' = Some e \<and> \<not> changed entry e) \<and>
         filter (\<lambda>e. name e \<noteq> name entry) es' = filter (\<lambda>e. name e \<noteq> name entry) es"
  using assms upsert_skip upsert_find upsert_others unchanged_refl
  by (auto split: option.splits)

lemma remove_absent: "remove_entries name n es = None \<longleftrightarrow> n \<notin> name ` set es"
  by (auto simp: remove_entries_def)

end

interpretation srv: named_entries srv_Name server_ConfigChanged bc_Servers set_servers
  by unfold_locales (auto simp: server_ConfigChanged_def set_servers_def split: if_splits)

interpretation ag: named_entries ag_Name agent_ConfigChanged bc_A2AAgents set_agents
  by unfold_locales (auto simp: agent_ConfigChanged_def set_agents_def)

section \<open>Properties\<close>

text \<open>
  Two tag lists are equal for \<open>tagsEqual\<close> exactly when they hold the same tags the same
  number of times, in any order.
\<close>

theorem tagsEqual_is_multiset_equality: "tagsEqual a b \<longleftrightarrow> mset a = mset b"
  by (rule tagsEqual_mset)

text \<open>
  A successful \<open>UpsertMCPServer\<close> changes one entry of one section. Against the configuration
  that the last attempt read, the one that is in the secret afterwards has the same virtual
  servers, A2A agents and CA bundle, the same other servers in the same order, and under the
  server's name an entry that no longer differs from the server.
\<close>

theorem UpsertMCPServer_isolated:
  assumes "kube_laws k" and "yaml_laws y" and "UpsertMCPServer k y server nn w = (w', None)"
  shows "\<exists>w1 w2 c c' sec. readOrCreateConfigSecret k y w1 nn = (w2, Inr (c, sec)) \<and>
           current_config k y w' nn c' \<and>
           bc_VirtualServers c' = bc_VirtualServers c \<and> bc_A2AAgents c' = bc_A2AAgents c \<and>
           bc_GatewayCACertPEM c' = bc_GatewayCACertPEM c \<and>
           (\<exists>s. find (\<lambda>s. srv_Name s = srv_Name server) (bc_Servers c') = Some s \<and>
                \<not> server_ConfigChanged server s) \<and>
           filter (\<lambda>s. srv_Name s \<noteq> srv_Name server) (bc_Servers c') =
             filter (\<lambda>s. srv_Name s \<noteq> srv_Name server) (bc_Servers c)"
proof -
  obtain w1 w2 c c' sec where r: "readOrCreateConfigSecret k y w1 nn = (w2, Inr (c, sec))"
    and cur: "current_config k y w' nn c'"
    and c': "c' = (case upsert_entries srv_Name server_ConfigChanged server (bc_Servers c) of
                     None \<Rightarrow> c | Some es \<Rightarrow> set_servers c es)"
    using srv.upsertNamedEntry_ok[OF assms(1,2) assms(3)[unfolded UpsertMCPServer_def]] by blast
  have "bc_Servers c' = (case upsert_entries srv_Name server_ConfigChanged server (bc_Servers c) of
                           None \<Rightarrow> bc_Servers c | Some es \<Rightarrow> es)"
    and "bc_VirtualServers c' = bc_VirtualServers c" "bc_A2AAgents c' = bc_A2AAgents c"
        "bc_GatewayCACertPEM c' = bc_GatewayCACertPEM c"
    by (auto simp: c' set_servers_def split: option.splits)
  with srv.upsert_entries_ok[OF this(1)] r cur show ?thesis by blast
qed

text \<open>A cluster with one secret, and a codec for one configuration, to run the writer on.\<close>

definition one_secret :: "NamespacedName \<Rightarrow> Secret \<Rightarrow> Secret" where
  "one_secret nn sec =
     sec\<lparr>sec_Namespace := nn_Namespace nn, sec_Name := nn_Name nn,
         sec_Data := sec_StringData sec, sec_StringData := None\<rparr>"

definition one_secret_kube :: "NamespacedName \<Rightarrow> Secret option kube" where
  "one_secret_kube nn =
     \<lparr>k_Get = (\<lambda>w n. case w of None \<Rightarrow> Inl NotFound | Some sec \<Rightarrow>
                if n = nn then Inr (one_secret nn sec) else Inl NotFound),
      k_Create = (\<lambda>w sec. if nn_of sec = nn then (Some sec, Inr (one_secret nn sec))
                          else (w, Inl (OtherKubeError []))),
      k_Update = (\<lambda>w sec. if nn_of sec = nn then (Some sec, None) else (w, Some NotFound)),
      k_Delete = (\<lambda>w sec. (None, None)),
      k_List = (\<lambda>w labels. Inr (case w of None \<Rightarrow> [] | Some sec \<Rightarrow> [sec])),
      k_RetryOnConflict = (\<lambda>f. f)\<rparr>"

definition sample_server :: MCPServer where
  "sample_server =
     \<lparr>srv_Name = ''weather'', srv_URL = ''http://w/mcp'', srv_Hostname = ''w'', srv_Prefix = ''w_'',
      srv_Auth = None, srv_Credential = [], srv_CACert = [], srv_State = [],
      srv_TokenURLElicitation = None, srv_UserSpecificList = False, srv_Category = [],
      srv_Hint = [], srv_Tags = []\<rparr>"

definition sample_yaml :: yaml_codec where
  "sample_yaml =
     (let c = empty_BrokerConfig\<lparr>bc_Servers := [sample_server]\<rparr>
      in \<lparr>y_Marshal = (\<lambda>c'. if c' = c then Inr ''servers'' else Inl []),
          y_Unmarshal = (\<lambda>t. Inr (if t = ''servers'' then c else empty_BrokerConfig))\<rparr>)"

lemma one_secret_kube_laws: "kube_laws (one_secret_kube nn)"
  by (auto simp: kube_laws_def one_secret_kube_def one_secret_def nn_of_def stored_text_def
      split: option.splits if_splits)

lemma sample_yaml_laws: "yaml_laws sample_yaml"
  by (auto simp: yaml_laws_def sample_yaml_def Let_def split: if_splits)

lemma sample_upsert:
  "\<exists>w'. UpsertMCPServer (one_secret_kube (NamespaceName ''ns'')) sample_yaml sample_server
          (NamespaceName ''ns'') None = (w', None)"
  by (simp add: UpsertMCPServer_def upsertNamedEntry_def upsert_attempt_def
      readOrCreateConfigSecret_def one_secret_kube_def one_secret_def new_config_secret_def
      NamespaceName_def nn_of_def parse_secret_def copy_data_def config_text_def sample_yaml_def
      emptyConfigFile_def write_back_def set_config_text_def set_servers_def
      empty_BrokerConfig_def Let_def)

theorem UpsertMCPServer_isolated_witness:
  "\<exists>w' c'. UpsertMCPServer (one_secret_kube (NamespaceName ''ns'')) sample_yaml sample_server
            (NamespaceName ''ns'') None = (w', None) \<and>
          current_config (one_secret_kube (NamespaceName ''ns'')) sample_yaml w'
            (NamespaceName ''ns'') c' \<and>
          (\<exists>s. find (\<lambda>s. srv_Name s = srv_Name sample_server) (bc_Servers c') = Some s)"
  using sample_upsert UpsertMCPServer_isolated[OF one_secret_kube_laws sample_yaml_laws] by blast

end
