(* ===== verification/Go_Http.thy ===== *)
theory Go_Http
  imports Go_Json
begin

text \<open>
  The part of \<open>net/http\<close> the handlers use: the reply a handler has written when it returns, and
  \<open>http.Error\<close> and \<open>http.NotFound\<close>.
\<close>

record http_reply =
  rp_Status :: int
  rp_Header :: "(string \<times> string) list"
  rp_Body :: string

definition line_end :: string where "line_end = [CHR 0x0A]"

definition http_Error :: "string \<Rightarrow> int \<Rightarrow> http_reply" where
  "http_Error msg code =
     \<lparr>rp_Status = code,
      rp_Header = [(''Content-Type'', ''text/plain; charset=utf-8''), (''X-Content-Type-Options'', ''nosniff'')],
      rp_Body = msg @ line_end\<rparr>"

definition http_NotFound :: http_reply where
  "http_NotFound = http_Error ''404 page not found'' 404"

lemma http_Error_Status [simp]: "rp_Status (http_Error msg code) = code"
  by (simp add: http_Error_def)

lemma http_NotFound_Status [simp]: "rp_Status http_NotFound = 404"
  by (simp add: http_NotFound_def)
end
