(* ===== verification/A2A_Broker.thy ===== *)
theory A2A_Broker
  imports A2A_Card A2A_Request Gateway_Config Go_Http
begin

text \<open>
  The discovery half of the A2A support (\<open>internal/a2a\<close>: \<open>broker.go\<close>, \<open>manager.go\<close>, \<open>tlsclient.go\<close>
  and \<open>serving.go\<close>): the index of agents, the refresh of their cards, and what is served.
  The fetches run without the broker's lock, so besides the functions there is a step relation whose
  steps are the sections the lock makes atomic.
\<close>

section \<open>State\<close>

text \<open>
  An HTTP client is its timeout and, when it has a transport of its own, the certificate bundles
  added to the system roots. \<open>pem\<close> stands for \<open>AppendCertsFromPEM\<close>: whether a bundle has a certificate.
\<close>

record http_client =
  hc_Timeout :: duration
  hc_RootCAs :: "string list option"

record agentClient =
  tc_client :: http_client
  tc_gatewayPEM :: string
  tc_agentPEM :: string

record Broker =
  b_store :: memoryStore
  b_interval :: duration
  b_agents :: "A2AAgent gomap"
  b_invalid :: "card_fault gomap"
  b_externalHost :: string
  b_caCertPEM :: string
  b_clients :: "agentClient gomap"

definition DefaultRefreshInterval :: duration where "DefaultRefreshInterval = 60 * 1000000000"
definition cardFetchTimeout :: duration where "cardFetchTimeout = 10 * 1000000000"
definition wellKnownAgentCard :: string where "wellKnownAgentCard = ''/.well-known/agent-card.json''"
definition maxCardBytes :: nat where "maxCardBytes = 2 ^ 20"

definition NewBroker :: "duration \<Rightarrow> Broker" where
  "NewBroker interval =
     \<lparr>b_store = NewMemoryStore, b_interval = (if interval \<le> 0 then DefaultRefreshInterval else interval),
      b_agents = emptymap, b_invalid = emptymap, b_externalHost = [], b_caCertPEM = [],
      b_clients = emptymap\<rparr>"

definition pathKey :: "A2AAgent \<Rightarrow> string" where
  "pathKey a = fst (Cut (ag_Name a) (CHR ''/'')) @ ''/'' @ ag_AgentPrefix a"

definition agentEnabled :: "A2AAgent \<Rightarrow> bool" where
  "agentEnabled a \<longleftrightarrow> ag_State a = [] \<or> ag_State a = ''Enabled''"

definition GetAgentByPath :: "Broker \<Rightarrow> string \<Rightarrow> string \<Rightarrow> A2AAgent option" where
  "GetAgentByPath b ns pfx = b_agents b (ns @ ''/'' @ pfx)"

definition cardRejected :: "Broker \<Rightarrow> string \<Rightarrow> string \<Rightarrow> bool" where
  "cardRejected b ns pfx \<longleftrightarrow> b_invalid b (ns @ ''/'' @ pfx) \<noteq> None"

section \<open>Fetching a card\<close>

definition cardURL :: "A2AAgent \<Rightarrow> string" where
  "cardURL a =
     (if ag_AgentCardURL a \<noteq> [] then ag_AgentCardURL a
      else TrimRight (ag_URL a) (CHR ''/'') @ wellKnownAgentCard)"

definition agentFingerprint :: "A2AAgent \<Rightarrow> string" where
  "agentFingerprint a = cardURL a @ [CHR 0x00] @ ag_Credential a @ [CHR 0x00] @ ag_CACert a"

definition fetchInputsChanged :: "A2AAgent \<Rightarrow> A2AAgent \<Rightarrow> bool" where
  "fetchInputsChanged old cur \<longleftrightarrow> agentFingerprint old \<noteq> agentFingerprint cur"

definition stillCurrent :: "Broker \<Rightarrow> string \<Rightarrow> A2AAgent \<Rightarrow> string \<Rightarrow> string \<Rightarrow> bool" where
  "stillCurrent b key agent gwCA host =
     (case b_agents b key of
        None \<Rightarrow> False
      | Some cur \<Rightarrow>
          agentFingerprint cur = agentFingerprint agent \<and> b_caCertPEM b = gwCA \<and> b_externalHost b = host)"

definition storeIfCurrent ::
  "string \<Rightarrow> string \<Rightarrow> A2AAgent \<Rightarrow> string \<Rightarrow> string \<Rightarrow> CardEntry \<Rightarrow> Broker \<Rightarrow> Broker" where
  "storeIfCurrent ns pfx agent gwCA host entry b =
     (let key = ns @ ''/'' @ pfx
      in if \<not> stillCurrent b key agent gwCA host then b
         else b\<lparr>b_invalid := (b_invalid b)(key := None),
                b_store := store_Set ns pfx entry (b_store b)\<rparr>)"

definition failCardValidation ::
  "string \<Rightarrow> string \<Rightarrow> A2AAgent \<Rightarrow> string \<Rightarrow> string \<Rightarrow> card_fault \<Rightarrow> Broker \<Rightarrow> Broker" where
  "failCardValidation ns pfx agent gwCA host reason b =
     (let key = ns @ ''/'' @ pfx
      in if \<not> stillCurrent b key agent gwCA host then b
         else b\<lparr>b_invalid := (b_invalid b)(key \<mapsto> reason),
                b_store := store_Delete ns pfx (b_store b)\<rparr>)"

definition newCardTLSClient :: "(string \<Rightarrow> bool) \<Rightarrow> string \<Rightarrow> string \<Rightarrow> string + http_client" where
  "newCardTLSClient pem gatewayPEM agentPEM =
     (if gatewayPEM \<noteq> [] \<and> \<not> pem gatewayPEM
      then Inl ''failed to parse gateway CA certificate bundle PEM''
      else if agentPEM \<noteq> [] \<and> \<not> pem agentPEM
      then Inl ''failed to parse agent CA certificate PEM''
      else Inr \<lparr>hc_Timeout = cardFetchTimeout,
                hc_RootCAs = Some (filter (\<lambda>p. p \<noteq> []) [gatewayPEM, agentPEM])\<rparr>)"

definition clientFor ::
  "(string \<Rightarrow> bool) \<Rightarrow> string \<Rightarrow> A2AAgent \<Rightarrow> Broker \<Rightarrow> Broker \<times> (string + http_client)" where
  "clientFor pem key agent b =
     (let gw = b_caCertPEM b;
          build = (case newCardTLSClient pem gw (ag_CACert agent) of
                     Inl e \<Rightarrow> (b, Inl e)
                   | Inr c \<Rightarrow>
                       (b\<lparr>b_clients := (b_clients b)(key \<mapsto>
                            \<lparr>tc_client = c, tc_gatewayPEM = gw, tc_agentPEM = ag_CACert agent\<rparr>)\<rparr>, Inr c))
      in if gw = [] \<and> ag_CACert agent = []
         then (b, Inr \<lparr>hc_Timeout = cardFetchTimeout, hc_RootCAs = None\<rparr>)
         else case b_clients b key of
                Some cc \<Rightarrow>
                  if tc_gatewayPEM cc = gw \<and> tc_agentPEM cc = ag_CACert agent
                  then (b, Inr (tc_client cc)) else build
              | None \<Rightarrow> build)"

text \<open>
  What a fetch works on: the agent, the trust inputs and the previous entry it read at its start.
  Its response is an error of the client, or a status, the two validators, and the bytes of the
  body with whether reading ends in an error.
\<close>

record refresh =
  rf_ns :: string
  rf_prefix :: string
  rf_agent :: A2AAgent
  rf_gwCA :: string
  rf_host :: string
  rf_prev :: "CardEntry option"

record card_request =
  rq_URL :: string
  rq_Header :: "(string \<times> string) list"

datatype card_response =
    FetchError
  | Fetched int string string string bool

definition begin_refresh :: "Broker \<Rightarrow> string \<Rightarrow> string \<Rightarrow> A2AAgent \<Rightarrow> refresh" where
  "begin_refresh b ns pfx agent =
     \<lparr>rf_ns = ns, rf_prefix = pfx, rf_agent = agent, rf_gwCA = b_caCertPEM b,
      rf_host = b_externalHost b, rf_prev = None\<rparr>"

definition read_prev :: "Broker \<Rightarrow> refresh \<Rightarrow> refresh" where
  "read_prev b rf = rf\<lparr>rf_prev := store_Get (b_store b) (rf_ns rf) (rf_prefix rf)\<rparr>"

definition build_request :: "refresh \<Rightarrow> card_request option" where
  "build_request rf =
     (let url = cardURL (rf_agent rf); cred = ag_Credential (rf_agent rf)
      in if url_Parse url = None then None
         else Some \<lparr>rq_URL = url,
           rq_Header =
             (if cred \<noteq> [] then [(''Authorization'', cred)] else []) @
             (case rf_prev rf of
                None \<Rightarrow> []
              | Some prev \<Rightarrow>
                  (if ce_ETag prev \<noteq> [] then [(''If-None-Match'', ce_ETag prev)] else []) @
                  (if ce_LastModified prev \<noteq> [] then [(''If-Modified-Since'', ce_LastModified prev)] else []))\<rparr>)"

text \<open>\<open>io.ReadAll\<close> of an \<open>io.LimitReader\<close>: past the limit the body is not read, and not its error.\<close>

definition read_limited :: "nat \<Rightarrow> string \<Rightarrow> bool \<Rightarrow> string option" where
  "read_limited n body fails =
     (if n \<le> length body then Some (take n body) else if fails then None else Some body)"

definition commit_store :: "refresh \<Rightarrow> CardEntry \<Rightarrow> Broker \<Rightarrow> Broker" where
  "commit_store rf entry b =
     storeIfCurrent (rf_ns rf) (rf_prefix rf) (rf_agent rf) (rf_gwCA rf) (rf_host rf) entry b"

definition accept_body ::
  "(string \<Rightarrow> string) \<Rightarrow> time \<Rightarrow> refresh \<Rightarrow> string \<Rightarrow> string \<Rightarrow> string \<Rightarrow> Broker \<Rightarrow> Broker" where
  "accept_body sha now rf etag modified body b =
     (if length body > maxCardBytes then b
      else
        case (case rf_prev rf of Some prev \<Rightarrow> if sha body = ce_SHA256 prev then Some prev else None
                               | None \<Rightarrow> None) of
          Some prev \<Rightarrow>
            commit_store rf (prev\<lparr>ce_FetchedAt := now, ce_ETag := etag, ce_LastModified := modified\<rparr>) b
        | None \<Rightarrow>
            (case validateCard body (rf_host rf) (rf_ns rf) (rf_prefix rf) of
               Some reason \<Rightarrow>
                 failCardValidation (rf_ns rf) (rf_prefix rf) (rf_agent rf) (rf_gwCA rf) (rf_host rf) reason b
             | None \<Rightarrow>
                 commit_store rf \<lparr>ce_Raw = body, ce_ETag = etag, ce_LastModified = modified,
                                  ce_SHA256 = sha body, ce_FetchedAt = now\<rparr> b))"

definition finish_refresh ::
  "(string \<Rightarrow> string) \<Rightarrow> time \<Rightarrow> refresh \<Rightarrow> card_response \<Rightarrow> Broker \<Rightarrow> Broker" where
  "finish_refresh sha now rf resp b =
     (case resp of
        FetchError \<Rightarrow> b
      | Fetched status etag modified body fails \<Rightarrow>
          (case (status = 304, rf_prev rf) of
             (True, Some prev) \<Rightarrow> commit_store rf (prev\<lparr>ce_FetchedAt := now\<rparr>) b
           | _ \<Rightarrow>
               if status = 200 then
                 (case read_limited (maxCardBytes + 1) body fails of
                    None \<Rightarrow> b
                  | Some body' \<Rightarrow> accept_body sha now rf etag modified body' b)
               else b))"

text \<open>
  What the fetches meet: the certificate parser, the hash, the clock and the answers of the
  upstreams, the last two by the number of the fetch.
\<close>

record upstream =
  us_PEM :: "string \<Rightarrow> bool"
  us_SHA256 :: "string \<Rightarrow> string"
  us_Now :: "nat \<Rightarrow> time"
  us_Do :: "nat \<Rightarrow> http_client \<Rightarrow> card_request \<Rightarrow> card_response"

definition refreshCard ::
  "upstream \<Rightarrow> nat \<Rightarrow> string \<Rightarrow> string \<Rightarrow> A2AAgent \<Rightarrow> Broker \<Rightarrow> Broker" where
  "refreshCard us n ns pfx agent b =
     (let rf = read_prev b (begin_refresh b ns pfx agent)
      in case build_request rf of
           None \<Rightarrow> b
         | Some req \<Rightarrow>
             (case clientFor (us_PEM us) (ns @ ''/'' @ pfx) agent b of
                (b', Inl _) \<Rightarrow> b'
              | (b', Inr client) \<Rightarrow>
                  finish_refresh (us_SHA256 us) (us_Now us n) rf (us_Do us n client req) b'))"

type_synonym target = "string \<times> string \<times> A2AAgent"

fun refresh_targets :: "upstream \<Rightarrow> nat \<Rightarrow> target list \<Rightarrow> Broker \<Rightarrow> Broker" where
  "refresh_targets us n [] b = b"
| "refresh_targets us n ((ns, pfx, agent) # ts) b =
     refresh_targets us (Suc n) ts (refreshCard us n ns pfx agent b)"

definition cut_key :: "string \<Rightarrow> string \<times> string" where
  "cut_key key = (case Cut key (CHR ''/'') of (ns, pfx, _) \<Rightarrow> (ns, pfx))"

definition target_of :: "A2AAgent gomap \<Rightarrow> string \<Rightarrow> target option" where
  "target_of agents key =
     map_option (\<lambda>a. (fst (cut_key key), snd (cut_key key), a)) (agents key)"

text \<open>The keys are the traversal of the snapshot.\<close>

definition refreshAll :: "upstream \<Rightarrow> nat \<Rightarrow> string list \<Rightarrow> Broker \<Rightarrow> Broker" where
  "refreshAll us n keys b = refresh_targets us n (List.map_filter (target_of (b_agents b)) keys) b"

text \<open>\<open>Start\<close>: a refresh at once and one for each tick, until the context ends.\<close>

fun Start :: "upstream \<Rightarrow> nat \<Rightarrow> string list list \<Rightarrow> Broker \<Rightarrow> Broker" where
  "Start us n [] b = b"
| "Start us n (keys # ticks) b = Start us (n + length keys) ticks (refreshAll us n keys b)"

section \<open>Configuration changes\<close>

fun agent_index :: "A2AAgent option list \<Rightarrow> A2AAgent gomap \<Rightarrow> A2AAgent gomap" where
  "agent_index [] m = m"
| "agent_index (None # as) m = agent_index as m"
| "agent_index (Some a # as) m = agent_index as (if agentEnabled a then m(pathKey a \<mapsto> a) else m)"

definition keep_keys :: "'v gomap \<Rightarrow> 'w gomap \<Rightarrow> 'w gomap" where
  "keep_keys current m = (\<lambda>k. if current k = None then None else m k)"

definition swap_agents :: "A2AAgent gomap \<Rightarrow> Broker \<Rightarrow> Broker" where
  "swap_agents next b =
     b\<lparr>b_agents := next, b_invalid := keep_keys next (b_invalid b),
       b_clients := keep_keys next (b_clients b)\<rparr>"

definition evict_key :: "string \<Rightarrow> Broker \<Rightarrow> Broker" where
  "evict_key key b = b\<lparr>b_store := store_Delete (fst (cut_key key)) (snd (cut_key key)) (b_store b)\<rparr>"

text \<open>The keys are the traversal of the listing.\<close>

definition evictStaleCards :: "A2AAgent gomap \<Rightarrow> string list \<Rightarrow> Broker \<Rightarrow> Broker" where
  "evictStaleCards current keys b = fold evict_key (filter (\<lambda>k. current k = None) keys) b"

definition needs_fetch :: "A2AAgent gomap \<Rightarrow> Broker \<Rightarrow> string \<Rightarrow> A2AAgent \<Rightarrow> bool" where
  "needs_fetch prev b key agent =
     (case store_Get (b_store b) (fst (cut_key key)) (snd (cut_key key)) of
        None \<Rightarrow> True
      | Some _ \<Rightarrow> (case prev key of None \<Rightarrow> False | Some old \<Rightarrow> fetchInputsChanged old agent))"

text \<open>The fetches that the background goroutine will run, in order.\<close>

definition refreshNewCards ::
  "A2AAgent gomap \<Rightarrow> A2AAgent gomap \<Rightarrow> string list \<Rightarrow> Broker \<Rightarrow> target list" where
  "refreshNewCards prev agents keys b =
     List.map_filter (target_of agents)
       (filter (\<lambda>k. case agents k of None \<Rightarrow> False | Some a \<Rightarrow> needs_fetch prev b k a) keys)"

definition SetAgents ::
  "A2AAgent option list \<Rightarrow> string list \<Rightarrow> string list \<Rightarrow> Broker \<Rightarrow> Broker \<times> target list" where
  "SetAgents agents listed indexed b =
     (let next = agent_index agents emptymap;
          b' = evictStaleCards next listed (swap_agents next b)
      in (b', refreshNewCards (b_agents b) next indexed b'))"

definition set_trust :: "string \<Rightarrow> string \<Rightarrow> Broker \<Rightarrow> Broker" where
  "set_trust host ca b = b\<lparr>b_externalHost := host, b_caCertPEM := ca\<rparr>"

definition a2a_OnConfigChange ::
  "'obs MCPServersConfig \<Rightarrow> string list \<Rightarrow> string list \<Rightarrow> Broker \<Rightarrow> Broker \<times> target list" where
  "a2a_OnConfigChange cfg listed indexed b =
     SetAgents (map Some (ListA2AAgents cfg)) listed indexed
       (set_trust (GetExternalHostname cfg) (GetGatewayCACertPEM cfg) b)"

section \<open>Serving\<close>

definition apiCatalogPath :: string where "apiCatalogPath = ''/.well-known/api-catalog''"
definition linksetContentType :: string where "linksetContentType = ''application/linkset+json''"

definition parseCardPath :: "string \<Rightarrow> (string \<times> string) option" where
  "parseCardPath path =
     (case CutPrefix path a2aPathPrefix of
        (_, False) \<Rightarrow> None
      | (rest, True) \<Rightarrow>
          (case CutSuffix rest wellKnownAgentCard of
             (_, False) \<Rightarrow> None
           | (rest', True) \<Rightarrow>
               (case Cut rest' (CHR ''/'') of
                  (ns, pfx, found) \<Rightarrow>
                    if \<not> found \<or> ns = [] \<or> pfx = [] \<or> CHR ''/'' \<in> set pfx then None
                    else Some (ns, pfx))))"

definition ServeAgentCard :: "Broker \<Rightarrow> string \<Rightarrow> http_reply" where
  "ServeAgentCard b path =
     (case parseCardPath path of
        None \<Rightarrow> http_NotFound
      | Some (ns, pfx) \<Rightarrow>
          if GetAgentByPath b ns pfx = None then http_NotFound
          else if cardRejected b ns pfx then http_Error ''agent card failed validation'' 503
          else
            (case store_Get (b_store b) ns pfx of
               None \<Rightarrow> http_Error ''agent card not available yet'' 503
             | Some entry \<Rightarrow>
                 \<lparr>rp_Status = 200,
                  rp_Header = (''Content-Type'', ''application/json'') #
                    (if ce_ETag entry \<noteq> [] then [(''ETag'', ce_ETag entry)] else []),
                  rp_Body = ce_Raw entry\<rparr>))"

definition listed_in_catalog :: "Broker \<Rightarrow> string \<Rightarrow> bool" where
  "listed_in_catalog b key \<longleftrightarrow>
     b_invalid b key = None \<and>
     store_Get (b_store b) (fst (cut_key key)) (snd (cut_key key)) \<noteq> None"

text \<open>The keys are the traversal of the agents.\<close>

definition catalog_items :: "Broker \<Rightarrow> string list \<Rightarrow> string list" where
  "catalog_items b keys = sort (map (\<lambda>k. a2aPathPrefix @ k) (filter (listed_in_catalog b) keys))"

definition linkset_json :: "string list \<Rightarrow> json" where
  "linkset_json hrefs =
     JObj [(''linkset'', JArr [JObj [(''anchor'', JStr apiCatalogPath),
       (''item'', JArr (map (\<lambda>h. JObj [(''href'', JStr h)]) hrefs))]])]"

definition ServeAPICatalog :: "Broker \<Rightarrow> string list \<Rightarrow> http_reply" where
  "ServeAPICatalog b keys =
     \<lparr>rp_Status = 200, rp_Header = [(''Content-Type'', linksetContentType)],
      rp_Body = json_encode (linkset_json (catalog_items b keys)) @ line_end\<rparr>"

section \<open>The atomic steps\<close>

text \<open>
  A state is the broker, the fetches that have read the trust inputs, and those that have also read
  the previous entry. Between two steps of one goroutine any step of another may happen. \<open>H\<close> holds
  the gateway hosts that the configuration ever has. A fetch that gives up before it has a response
  is one whose response is an error.
\<close>

type_synonym sys = "Broker \<times> refresh list \<times> refresh list"

inductive broker_step :: "upstream \<Rightarrow> string set \<Rightarrow> sys \<Rightarrow> sys \<Rightarrow> bool" for us H where
  trust: "h \<in> H \<Longrightarrow> broker_step us H (b, ss, fs) (set_trust h ca b, ss, fs)"
| swap: "broker_step us H (b, ss, fs) (swap_agents (agent_index agents emptymap) b, ss, fs)"
| evict: "broker_step us H (b, ss, fs) (evict_key key b, ss, fs)"
| start: "CHR ''/'' \<notin> set ns \<Longrightarrow>
    broker_step us H (b, ss, fs) (b, begin_refresh b ns pfx agent # ss, fs)"
| read: "rf \<in> set ss \<Longrightarrow> broker_step us H (b, ss, fs) (b, remove1 rf ss, read_prev b rf # fs)"
| client: "broker_step us H (b, ss, fs) (fst (clientFor (us_PEM us) key agent b), ss, fs)"
| commit: "rf \<in> set fs \<Longrightarrow>
    broker_step us H (b, ss, fs) (finish_refresh (us_SHA256 us) now rf resp b, ss, remove1 rf fs)"

inductive broker_run :: "upstream \<Rightarrow> string set \<Rightarrow> sys \<Rightarrow> bool" for us H where
  init: "h \<in> H \<Longrightarrow> broker_run us H (set_trust h ca (NewBroker interval), [], [])"
| step: "broker_run us H s \<Longrightarrow> broker_step us H s s' \<Longrightarrow> broker_run us H s'"

section \<open>The invariant of the cached cards\<close>

text \<open>A card that passed the check, for a host of the configuration, under the key it has.\<close>

definition vetted :: "string set \<Rightarrow> string \<Rightarrow> string \<Rightarrow> bool" where
  "vetted H key raw \<longleftrightarrow>
     length raw \<le> maxCardBytes \<and>
     (\<exists>h \<in> H. \<exists>ns pfx. CHR ''/'' \<notin> set ns \<and> key = storeKey ns pfx \<and> validateCard raw h ns pfx = None)"

definition broker_inv :: "string set \<Rightarrow> Broker \<Rightarrow> bool" where
  "broker_inv H b \<longleftrightarrow>
     b_externalHost b \<in> H \<and>
     (\<forall>k e. ms_cards (b_store b) k = Some e \<longrightarrow> vetted H k (ce_Raw e)) \<and>
     (\<forall>k. b_invalid b k \<noteq> None \<longrightarrow> ms_cards (b_store b) k = None \<and> b_agents b k \<noteq> None)"

definition refresh_inv :: "string set \<Rightarrow> refresh \<Rightarrow> bool" where
  "refresh_inv H rf \<longleftrightarrow>
     rf_host rf \<in> H \<and> CHR ''/'' \<notin> set (rf_ns rf) \<and>
     (\<forall>e. rf_prev rf = Some e \<longrightarrow> vetted H (storeKey (rf_ns rf) (rf_prefix rf)) (ce_Raw e))"

definition sys_inv :: "string set \<Rightarrow> sys \<Rightarrow> bool" where
  "sys_inv H s =
     (case s of (b, ss, fs) \<Rightarrow> broker_inv H b \<and> list_all (refresh_inv H) ss \<and> list_all (refresh_inv H) fs)"

lemmas store_defs = store_Get_def store_Set_def store_Delete_def store_List_def

lemma broker_inv_NewBroker: "h \<in> H \<Longrightarrow> broker_inv H (set_trust h ca (NewBroker interval))"
  by (simp add: broker_inv_def set_trust_def NewBroker_def NewMemoryStore_def)

lemma broker_inv_set_trust: "broker_inv H b \<Longrightarrow> h \<in> H \<Longrightarrow> broker_inv H (set_trust h ca b)"
  by (simp add: broker_inv_def set_trust_def)

lemma broker_inv_swap: "broker_inv H b \<Longrightarrow> broker_inv H (swap_agents next b)"
  by (auto simp: broker_inv_def swap_agents_def keep_keys_def)

lemma broker_inv_evict: "broker_inv H b \<Longrightarrow> broker_inv H (evict_key key b)"
  by (auto simp: broker_inv_def evict_key_def store_defs split: if_splits)

lemma clientFor_frame [simp]:
  "b_store (fst (clientFor pem key agent b)) = b_store b"
  "b_agents (fst (clientFor pem key agent b)) = b_agents b"
  "b_invalid (fst (clientFor pem key agent b)) = b_invalid b"
  "b_externalHost (fst (clientFor pem key agent b)) = b_externalHost b"
  "b_caCertPEM (fst (clientFor pem key agent b)) = b_caCertPEM b"
  by (simp_all add: clientFor_def Let_def split: option.split sum.split)

lemma broker_inv_client: "broker_inv H b \<Longrightarrow> broker_inv H (fst (clientFor pem key agent b))"
  by (simp add: broker_inv_def)

lemma broker_inv_commit:
  assumes "broker_inv H b" and "vetted H (storeKey (rf_ns rf) (rf_prefix rf)) (ce_Raw e)"
  shows "broker_inv H (commit_store rf e b)"
  using assms
  by (auto simp: broker_inv_def commit_store_def storeIfCurrent_def store_defs Let_def storeKey_def)

lemma broker_inv_fail:
  "broker_inv H b \<Longrightarrow> broker_inv H (failCardValidation ns pfx agent gwCA host reason b)"
  by (auto simp: broker_inv_def failCardValidation_def store_defs Let_def storeKey_def stillCurrent_def
      split: option.splits)

lemma broker_inv_accept:
  assumes "broker_inv H b" and "refresh_inv H rf"
  shows "broker_inv H (accept_body sha now rf etag modified body b)"
proof -
  have new: "broker_inv H (commit_store rf \<lparr>ce_Raw = body, ce_ETag = etag, ce_LastModified = modified,
      ce_SHA256 = sha body, ce_FetchedAt = now\<rparr> b)"
    if "length body \<le> maxCardBytes" "validateCard body (rf_host rf) (rf_ns rf) (rf_prefix rf) = None"
    using assms that by (intro broker_inv_commit) (auto simp: refresh_inv_def vetted_def)
  have old: "broker_inv H (commit_store rf
      (prev\<lparr>ce_FetchedAt := now, ce_ETag := etag, ce_LastModified := modified\<rparr>) b)"
    if "rf_prev rf = Some prev" for prev
    using assms that by (intro broker_inv_commit) (auto simp: refresh_inv_def)
  show ?thesis
    using assms(1) new old broker_inv_fail unfolding accept_body_def by (simp split: option.split)
qed

lemma broker_inv_finish:
  assumes "broker_inv H b" and "refresh_inv H rf"
  shows "broker_inv H (finish_refresh sha now rf resp b)"
proof -
  have "broker_inv H (commit_store rf (prev\<lparr>ce_FetchedAt := now\<rparr>) b)" if "rf_prev rf = Some prev" for prev
    using assms that by (intro broker_inv_commit) (auto simp: refresh_inv_def)
  then show ?thesis
    using assms broker_inv_accept unfolding finish_refresh_def
    by (simp split: card_response.split option.split bool.split)
qed

lemma refresh_inv_begin:
  "broker_inv H b \<Longrightarrow> CHR ''/'' \<notin> set ns \<Longrightarrow> refresh_inv H (begin_refresh b ns pfx agent)"
  by (simp add: refresh_inv_def begin_refresh_def broker_inv_def)

lemma refresh_inv_read: "broker_inv H b \<Longrightarrow> refresh_inv H rf \<Longrightarrow> refresh_inv H (read_prev b rf)"
  by (simp add: refresh_inv_def read_prev_def broker_inv_def store_Get_def)

lemma list_all_remove1: "list_all P xs \<Longrightarrow> list_all P (remove1 x xs)"
  using notin_set_remove1 by (fastforce simp: list_all_iff)

lemma sys_inv_step: "broker_step us H s s' \<Longrightarrow> sys_inv H s \<Longrightarrow> sys_inv H s'"
proof (induction rule: broker_step.induct)
  case (commit rf fs b ss now resp)
  then show ?case
    by (auto simp: sys_inv_def list_all_remove1 list_all_iff dest: notin_set_remove1
        intro!: broker_inv_finish)
qed (auto simp: sys_inv_def list_all_remove1 broker_inv_set_trust broker_inv_swap broker_inv_evict
    broker_inv_client refresh_inv_begin list_all_iff refresh_inv_read dest: notin_set_remove1)

lemma sys_inv_run: "broker_run us H s \<Longrightarrow> sys_inv H s"
  by (induction rule: broker_run.induct) (auto simp: broker_inv_NewBroker sys_inv_step, simp add: sys_inv_def broker_inv_NewBroker)

section \<open>What is served\<close>

definition key_part :: "string \<Rightarrow> bool" where
  "key_part s \<longleftrightarrow> s \<noteq> [] \<and> CHR ''/'' \<notin> set s"

lemma key_lookups:
  "GetAgentByPath b ns pfx = b_agents b (storeKey ns pfx)"
  "cardRejected b ns pfx \<longleftrightarrow> b_invalid b (storeKey ns pfx) \<noteq> None"
  "store_Get m ns pfx = ms_cards m (storeKey ns pfx)"
  by (simp_all add: GetAgentByPath_def cardRejected_def store_Get_def storeKey_def)

lemma parseCardPath_Some:
  assumes "parseCardPath path = Some (ns, pfx)"
  shows "path = a2aPathPrefix @ storeKey ns pfx @ wellKnownAgentCard \<and> key_part ns \<and> key_part pfx"
proof -
  obtain rest where r: "CutPrefix path a2aPathPrefix = (rest, True)"
    using assms by (auto simp: parseCardPath_def split: prod.splits bool.splits)
  then obtain rest' where r': "CutSuffix rest wellKnownAgentCard = (rest', True)"
    using assms by (auto simp: parseCardPath_def split: prod.splits bool.splits)
  have "Cut rest' (CHR ''/'') = (ns, pfx, True) \<and> ns \<noteq> [] \<and> pfx \<noteq> [] \<and> CHR ''/'' \<notin> set pfx"
    using assms r r' by (auto simp: parseCardPath_def split: prod.splits if_splits)
  then show ?thesis
    using Cut_True[of rest' "CHR ''/''" ns pfx] CutPrefix_True[OF r] CutSuffix_True[OF r']
    by (simp add: storeKey_def key_part_def)
qed

lemma parseCardPath_key:
  assumes "key_part ns" and "key_part pfx"
  shows "parseCardPath (a2aPathPrefix @ storeKey ns pfx @ wellKnownAgentCard) = Some (ns, pfx)"
proof -
  have "CutPrefix (a2aPathPrefix @ storeKey ns pfx @ wellKnownAgentCard) a2aPathPrefix =
      (storeKey ns pfx @ wellKnownAgentCard, True)" by simp
  moreover have "Cut (storeKey ns pfx) (CHR ''/'') = (ns, pfx, True)"
    using assms(1) by (intro Cut_storeKey) (simp add: key_part_def)
  ultimately show ?thesis
    using assms unfolding parseCardPath_def by (simp add: key_part_def)
qed

lemma served_entry:
  assumes "rp_Status (ServeAgentCard b path) = 200"
  obtains ns pfx entry where "parseCardPath path = Some (ns, pfx)" and "b_agents b (storeKey ns pfx) \<noteq> None"
    and "b_invalid b (storeKey ns pfx) = None" and "ms_cards (b_store b) (storeKey ns pfx) = Some entry"
    and "rp_Body (ServeAgentCard b path) = ce_Raw entry"
proof -
  obtain ns pfx where p: "parseCardPath path = Some (ns, pfx)"
    using assms by (auto simp: ServeAgentCard_def split: option.splits)
  then have "b_agents b (storeKey ns pfx) \<noteq> None" "b_invalid b (storeKey ns pfx) = None"
    using assms by (auto simp: ServeAgentCard_def key_lookups split: if_splits)
  moreover obtain entry where "ms_cards (b_store b) (storeKey ns pfx) = Some entry"
    using assms p by (auto simp: ServeAgentCard_def key_lookups split: if_splits option.splits)
  moreover have "rp_Body (ServeAgentCard b path) = ce_Raw entry"
    using assms p calculation
    by (auto simp: ServeAgentCard_def key_lookups)
  ultimately show ?thesis using p that by blast
qed

lemma served_iff:
  assumes "key_part ns" and "key_part pfx"
  shows "rp_Status (ServeAgentCard b (a2aPathPrefix @ storeKey ns pfx @ wellKnownAgentCard)) = 200 \<longleftrightarrow>
    b_agents b (storeKey ns pfx) \<noteq> None \<and> b_invalid b (storeKey ns pfx) = None \<and>
    ms_cards (b_store b) (storeKey ns pfx) \<noteq> None"
  by (auto simp: ServeAgentCard_def parseCardPath_key[OF assms] key_lookups split: option.split)

lemma card_path:
  "''/a2a/'' @ ns @ ''/'' @ pfx @ ''/.well-known/agent-card.json'' =
     a2aPathPrefix @ storeKey ns pfx @ wellKnownAgentCard"
  by (simp add: a2aPathPrefix_def wellKnownAgentCard_def storeKey_def)

lemma listed_in_catalog_key:
  "CHR ''/'' \<notin> set ns \<Longrightarrow> listed_in_catalog b (storeKey ns pfx) \<longleftrightarrow>
     b_invalid b (storeKey ns pfx) = None \<and> ms_cards (b_store b) (storeKey ns pfx) \<noteq> None"
  by (simp add: listed_in_catalog_def cut_key_def Cut_storeKey key_lookups)


text \<open>
  The catalog lists exactly the agents whose card can be fetched: when the namespaces and
  prefixes of the registered agents are path segments, a path is in the catalog if and only if a
  request for the card below it succeeds. The list is strictly sorted, so it does not depend on the
  order in which the agents are traversed.
\<close>

theorem catalog_lists_servable_cards:
  assumes "iter_order (b_agents b) keys"
    and "\<forall>k. b_agents b k \<noteq> None \<longrightarrow> (\<exists>ns pfx. key_part ns \<and> key_part pfx \<and> k = ns @ ''/'' @ pfx)"
  shows "set (catalog_items b keys) =
      {''/a2a/'' @ ns @ ''/'' @ pfx | ns pfx. key_part ns \<and> key_part pfx \<and>
         rp_Status (ServeAgentCard b (''/a2a/'' @ ns @ ''/'' @ pfx @ ''/.well-known/agent-card.json'')) = 200} \<and>
    sorted (catalog_items b keys) \<and> distinct (catalog_items b keys)"
proof -
  have seg: "rp_Status (ServeAgentCard b (''/a2a/'' @ ns @ ''/'' @ pfx @ ''/.well-known/agent-card.json'')) = 200 \<longleftrightarrow>
      b_agents b (storeKey ns pfx) \<noteq> None \<and> listed_in_catalog b (storeKey ns pfx)"
    if "key_part ns" "key_part pfx" for ns pfx
    using served_iff[OF that, of b] listed_in_catalog_key[of ns b pfx] that
    unfolding card_path key_part_def by blast
  have keys: "k \<in> set keys \<longleftrightarrow> b_agents b k \<noteq> None" for k
    using assms(1) by (rule iter_order_lookup)
  have "set (catalog_items b keys) = {''/a2a/'' @ k | k. b_agents b k \<noteq> None \<and> listed_in_catalog b k}"
    using keys by (auto simp: catalog_items_def a2aPathPrefix_def)
  also have "\<dots> = {''/a2a/'' @ ns @ ''/'' @ pfx | ns pfx. key_part ns \<and> key_part pfx \<and>
         rp_Status (ServeAgentCard b (''/a2a/'' @ ns @ ''/'' @ pfx @ ''/.well-known/agent-card.json'')) = 200}"
    using assms(2) seg by (simp add: storeKey_def) blast
  finally show ?thesis
    using assms(1) by (auto simp: catalog_items_def iter_order_def distinct_map inj_on_def)
qed

lemma finish_refresh_effect:
  assumes "finish_refresh sha now rf resp b \<noteq> b"
  obtains status etag modified body fails where "resp = Fetched status etag modified body fails"
    and "status = 304 \<and> rf_prev rf \<noteq> None \<or> status = 200 \<and> length body \<le> maxCardBytes \<and> \<not> fails"
    and "stillCurrent b (storeKey (rf_ns rf) (rf_prefix rf)) (rf_agent rf) (rf_gwCA rf) (rf_host rf)"
proof -
  have cur: "stillCurrent b (storeKey (rf_ns rf) (rf_prefix rf)) (rf_agent rf) (rf_gwCA rf) (rf_host rf)"
    if "commit_store rf e b \<noteq> b \<or>
      failCardValidation (rf_ns rf) (rf_prefix rf) (rf_agent rf) (rf_gwCA rf) (rf_host rf) r b \<noteq> b" for e r
    using that
    by (auto simp: commit_store_def storeIfCurrent_def failCardValidation_def Let_def storeKey_def
        split: if_splits)
  have body: "length t \<le> maxCardBytes \<and>
      stillCurrent b (storeKey (rf_ns rf) (rf_prefix rf)) (rf_agent rf) (rf_gwCA rf) (rf_host rf)"
    if "accept_body sha now rf etag modified t b \<noteq> b" for etag modified t
    using that cur by (auto simp: accept_body_def split: if_splits option.splits)
  obtain status etag modified t fails where r: "resp = Fetched status etag modified t fails"
    using assms by (cases resp) (auto simp: finish_refresh_def)
  show ?thesis
  proof (cases "status = 304 \<and> rf_prev rf \<noteq> None")
    case True
    then show ?thesis using that assms r cur by (fastforce simp: finish_refresh_def)
  next
    case False
    then obtain t' where t': "status = 200" "read_limited (maxCardBytes + 1) t fails = Some t'"
      "accept_body sha now rf etag modified t' b \<noteq> b"
      using assms r by (auto simp: finish_refresh_def split: if_splits option.splits bool.splits)
    then have "length t \<le> maxCardBytes \<and> \<not> fails"
      using body[OF t'(3)] by (auto simp: read_limited_def split: if_splits)
    then show ?thesis using that[OF r] t' body by blast
  qed
qed

text \<open>
  C15: A fetch that finishes late cannot disturb a newer configuration. If finishing it changes the
  broker at all, the agent registered under its key now has the same card URL, credential and CA as
  the agent it fetched for, and the gateway's host and CA are the ones it started with. An error, a
  status other than 200 and 304, an unreadable body and a card over 1 MiB change nothing.
\<close>

theorem late_fetch_cannot_clobber:
  assumes "finish_refresh sha now rf resp b \<noteq> b"
    and "CHR 0x00 \<notin> set (cardURL (rf_agent rf) @ ag_Credential (rf_agent rf) @ ag_CACert (rf_agent rf))"
    and "\<forall>cur. b_agents b (storeKey (rf_ns rf) (rf_prefix rf)) = Some cur \<longrightarrow>
           CHR 0x00 \<notin> set (cardURL cur @ ag_Credential cur @ ag_CACert cur)"
  shows "(\<exists>cur. b_agents b (storeKey (rf_ns rf) (rf_prefix rf)) = Some cur \<and>
      cardURL cur = cardURL (rf_agent rf) \<and> ag_Credential cur = ag_Credential (rf_agent rf) \<and>
      ag_CACert cur = ag_CACert (rf_agent rf)) \<and>
    b_externalHost b = rf_host rf \<and> b_caCertPEM b = rf_gwCA rf \<and>
    (\<exists>status etag modified body fails. resp = Fetched status etag modified body fails \<and>
       (status = 304 \<and> rf_prev rf \<noteq> None \<or> status = 200 \<and> length body \<le> maxCardBytes \<and> \<not> fails))"
proof -
  let ?key = "storeKey (rf_ns rf) (rf_prefix rf)"
  obtain status etag modified body fails where r: "resp = Fetched status etag modified body fails"
    "status = 304 \<and> rf_prev rf \<noteq> None \<or> status = 200 \<and> length body \<le> maxCardBytes \<and> \<not> fails"
    and cur: "stillCurrent b ?key (rf_agent rf) (rf_gwCA rf) (rf_host rf)"
    using finish_refresh_effect[OF assms(1)] by blast
  from cur obtain c where c: "b_agents b ?key = Some c" "agentFingerprint c = agentFingerprint (rf_agent rf)"
    and gw: "b_caCertPEM b = rf_gwCA rf \<and> b_externalHost b = rf_host rf"
    by (auto simp: stillCurrent_def split: option.splits)
  have "cardURL c = cardURL (rf_agent rf) \<and> ag_Credential c = ag_Credential (rf_agent rf) \<and>
      ag_CACert c = ag_CACert (rf_agent rf)"
    using c(2) assms(2) assms(3)[rule_format, OF c(1)]
    by (auto simp: agentFingerprint_def append_sep_inject)
  then show ?thesis using c(1) gw r by blast
qed

section \<open>Configuration changes and whole refreshes\<close>

lemma agent_index_find:
  "agent_index as m k =
     (case find (\<lambda>a. agentEnabled a \<and> pathKey a = k) (rev (List.map_filter id as)) of
        Some a \<Rightarrow> Some a
      | None \<Rightarrow> m k)"
proof (induction as m rule: agent_index.induct)
  case (3 a as m)
  then show ?case
    by (auto simp: map_filter_simps find_append split: option.splits)
qed (simp_all add: map_filter_simps)

lemma agent_index_slash: "agent_index as emptymap k \<noteq> None \<Longrightarrow> CHR ''/'' \<in> set k"
  by (auto simp: agent_index_find pathKey_def find_Some_iff split: option.splits)

lemma storeKey_cut_key: "CHR ''/'' \<in> set k \<Longrightarrow> storeKey (fst (cut_key k)) (snd (cut_key k)) = k"
  using storeKey_Cut[of k] by (simp add: cut_key_def case_prod_unfold)

lemma cut_key_slash: "CHR ''/'' \<notin> set (fst (cut_key k))"
  using Cut_before[of "CHR ''/''" k] by (simp add: cut_key_def case_prod_unfold)

lemma evictStaleCards_eq:
  "evictStaleCards current keys b =
     b\<lparr>b_store := fold (\<lambda>k. case Cut k (CHR ''/'') of (ns, pfx, _) \<Rightarrow> store_Delete ns pfx)
                    (filter (\<lambda>k. current k = None) keys) (b_store b)\<rparr>"
proof -
  have "fold evict_key ks b =
      b\<lparr>b_store := fold (\<lambda>k. case Cut k (CHR ''/'') of (ns, pfx, _) \<Rightarrow> store_Delete ns pfx) ks (b_store b)\<rparr>" for ks
    by (induction ks arbitrary: b) (simp_all add: evict_key_def cut_key_def case_prod_unfold)
  then show ?thesis by (simp add: evictStaleCards_def)
qed

lemma evictStaleCards_cards:
  assumes "iter_order (ms_cards (b_store b)) keys" and "\<forall>k. ms_cards (b_store b) k \<noteq> None \<longrightarrow> CHR ''/'' \<in> set k"
  shows "ms_cards (b_store (evictStaleCards current keys b)) = keep_keys current (ms_cards (b_store b))"
proof -
  have keys: "k \<in> set keys \<longleftrightarrow> ms_cards (b_store b) k \<noteq> None" for k
    using assms(1) by (rule iter_order_lookup)
  then show ?thesis
    using cards.listing_fold_del[of "filter (\<lambda>k. current k = None) keys" "b_store b"] assms(2)
    by (auto simp: evictStaleCards_eq store_List_def keep_keys_def fun_eq_iff)
qed

lemma evictStaleCards_frame [simp]:
  "b_agents (evictStaleCards current keys b) = b_agents b"
  "b_invalid (evictStaleCards current keys b) = b_invalid b"
  "b_externalHost (evictStaleCards current keys b) = b_externalHost b"
  "b_caCertPEM (evictStaleCards current keys b) = b_caCertPEM b"
  by (simp_all add: evictStaleCards_eq)

lemma SetAgents_fst_frame:
  "b_agents (fst (SetAgents as listed indexed b)) = agent_index as emptymap"
  "b_invalid (fst (SetAgents as listed indexed b)) = keep_keys (agent_index as emptymap) (b_invalid b)"
  "b_externalHost (fst (SetAgents as listed indexed b)) = b_externalHost b"
  "b_caCertPEM (fst (SetAgents as listed indexed b)) = b_caCertPEM b"
  by (simp_all add: SetAgents_def Let_def swap_agents_def)

lemma SetAgents_cards:
  assumes "iter_order (ms_cards (b_store b)) listed" and "\<forall>k. ms_cards (b_store b) k \<noteq> None \<longrightarrow> CHR ''/'' \<in> set k"
  shows "ms_cards (b_store (fst (SetAgents as listed indexed b))) =
    keep_keys (agent_index as emptymap) (ms_cards (b_store b))"
  using evictStaleCards_cards[of "swap_agents (agent_index as emptymap) b" listed] assms
  by (simp add: SetAgents_def Let_def swap_agents_def)

lemma SetAgents_pending:
  assumes "iter_order (agent_index as emptymap) indexed"
    and "ms_cards (b_store (fst (SetAgents as listed indexed b))) =
      keep_keys (agent_index as emptymap) (ms_cards (b_store b))"
  shows "set (snd (SetAgents as listed indexed b)) =
    {(fst (cut_key k), snd (cut_key k), a) | k a. agent_index as emptymap k = Some a \<and>
       (ms_cards (b_store b) k = None \<or>
        (\<exists>old. b_agents b k = Some old \<and> fetchInputsChanged old a))}"
proof -
  let ?next = "agent_index as emptymap" and ?b' = "fst (SetAgents as listed indexed b)"
  have keys: "k \<in> set indexed \<longleftrightarrow> ?next k \<noteq> None" for k
    using assms(1) by (rule iter_order_lookup)
  have need: "needs_fetch (b_agents b) ?b' k a \<longleftrightarrow>
      ms_cards (b_store b) k = None \<or> (\<exists>old. b_agents b k = Some old \<and> fetchInputsChanged old a)"
    if "?next k = Some a" for k a
    using that agent_index_slash[of as k] assms(2)
    by (auto simp: needs_fetch_def key_lookups storeKey_cut_key keep_keys_def split: option.split)
  have "snd (SetAgents as listed indexed b) = refreshNewCards (b_agents b) ?next indexed ?b'"
    by (simp add: SetAgents_def Let_def)
  then show ?thesis
    using keys need
    by (auto simp: refreshNewCards_def set_map_filter target_of_def split: option.splits)
qed

text \<open>
  After a configuration change the broker tracks the configuration: an agent is found under its
  routing key exactly when it is the last enabled one with that key; cached cards and validation
  failures stay for the registered keys and are gone for all others; and the fetches started in the
  background are those of the agents with no cached card and of the agents whose card URL,
  credential or CA changed.
\<close>

theorem config_change_tracks_agents:
  assumes "iter_order (ms_cards (b_store b)) listed"
    and "\<forall>k. ms_cards (b_store b) k \<noteq> None \<longrightarrow> CHR ''/'' \<in> set k"
    and "iter_order (agent_index (map Some (cfg_A2AAgents cfg)) emptymap) indexed"
    and "a2a_OnConfigChange cfg listed indexed b = (b', pending)"
  shows "(\<forall>k. b_agents b' k = find (\<lambda>a. agentEnabled a \<and> pathKey a = k) (rev (cfg_A2AAgents cfg)) \<and>
      ms_cards (b_store b') k = (if b_agents b' k = None then None else ms_cards (b_store b) k) \<and>
      b_invalid b' k = (if b_agents b' k = None then None else b_invalid b k)) \<and>
    b_externalHost b' = cfg_ExternalHostname cfg \<and> b_caCertPEM b' = cfg_GatewayCACertPEM cfg \<and>
    set pending = {(fst (cut_key k), snd (cut_key k), a) | k a. b_agents b' k = Some a \<and>
      (ms_cards (b_store b) k = None \<or> (\<exists>old. b_agents b k = Some old \<and> fetchInputsChanged old a))}"
proof -
  let ?as = "map Some (cfg_A2AAgents cfg)"
    and ?b = "set_trust (cfg_ExternalHostname cfg) (cfg_GatewayCACertPEM cfg) b"
  have b: "b_store ?b = b_store b" "b_agents ?b = b_agents b" "b_invalid ?b = b_invalid b"
    "b_externalHost ?b = cfg_ExternalHostname cfg" "b_caCertPEM ?b = cfg_GatewayCACertPEM cfg"
    by (simp_all add: set_trust_def)
  have eq: "SetAgents ?as listed indexed ?b = (b', pending)"
    using assms(4)
    by (simp add: a2a_OnConfigChange_def ListA2AAgents_def GetExternalHostname_def GetGatewayCACertPEM_def)
  have cards: "ms_cards (b_store b') = keep_keys (agent_index ?as emptymap) (ms_cards (b_store b))"
    using SetAgents_cards[of ?b listed ?as indexed] assms(1,2) by (simp add: eq b)
  have frame: "b_agents b' = agent_index ?as emptymap"
    "b_invalid b' = keep_keys (agent_index ?as emptymap) (b_invalid b)"
    "b_externalHost b' = cfg_ExternalHostname cfg" "b_caCertPEM b' = cfg_GatewayCACertPEM cfg"
    using SetAgents_fst_frame[of ?as listed indexed ?b] by (simp_all add: eq b)
  have "List.map_filter id ?as = cfg_A2AAgents cfg"
    by (simp add: List.map_filter_def o_def)
  then have "agent_index ?as emptymap k = find (\<lambda>a. agentEnabled a \<and> pathKey a = k) (rev (cfg_A2AAgents cfg))" for k
    by (simp add: agent_index_find split: option.split)
  then show ?thesis
    using frame cards SetAgents_pending[of ?as indexed listed ?b] assms(3)
    by (simp add: eq b keep_keys_def)
qed

text \<open>The sequential operations as runs of atomic steps.\<close>

lemma run_refreshCard:
  assumes "broker_run us H (b, [], [])" and "CHR ''/'' \<notin> set ns"
  shows "broker_run us H (refreshCard us n ns pfx agent b, [], [])"
proof -
  let ?begun = "begin_refresh b ns pfx agent" and ?c = "fst (clientFor (us_PEM us) (ns @ ''/'' @ pfx) agent b)"
  let ?rf = "read_prev b ?begun"
  have s1: "broker_run us H (b, [], [?rf])"
    using broker_step.read[of ?begun "[?begun]" us H b "[]"]
    by (auto intro: broker_run.step broker_run.step[OF assms(1) broker_step.start[OF assms(2)]])
  have s2: "broker_run us H (?c, [], [?rf])" by (rule broker_run.step[OF s1 broker_step.client])
  have fin: "broker_run us H (finish_refresh (us_SHA256 us) now ?rf resp c, [], [])"
    if "broker_run us H (c, [], [?rf])" for c now resp
    using broker_run.step[OF that broker_step.commit[of ?rf "[?rf]"]] by simp
  have none: "finish_refresh sha now ?rf FetchError c = c" for sha now c
    by (simp add: finish_refresh_def)
  show ?thesis
    using fin[OF s1, of 0 FetchError] fin[OF s2, of 0 FetchError] fin[OF s2] none
    by (auto simp: refreshCard_def Let_def split: option.split sum.split prod.split)
qed

lemma run_refresh_targets:
  "broker_run us H (b, [], []) \<Longrightarrow> \<forall>(ns, pfx, a) \<in> set ts. CHR ''/'' \<notin> set ns \<Longrightarrow>
   broker_run us H (refresh_targets us n ts b, [], [])"
  by (induction us n ts b rule: refresh_targets.induct) (auto simp: run_refreshCard)

lemma run_evict: "broker_run us H (b, [], []) \<Longrightarrow> broker_run us H (fold evict_key ks b, [], [])"
  by (induction ks arbitrary: b) (auto intro: broker_run.step broker_step.evict)

lemma run_Start: "broker_run us H (b, [], []) \<Longrightarrow> broker_run us H (Start us n ticks b, [], [])"
proof (induction us n ticks b rule: Start.induct)
  case (2 us n keys ticks b)
  have "broker_run us H (refreshAll us n keys b, [], [])"
    using 2(2) cut_key_slash unfolding refreshAll_def
    by (intro run_refresh_targets) (auto simp: set_map_filter target_of_def)
  then show ?case using 2(1) by simp
qed simp

text \<open>
  The operations as the code composes them are runs of the atomic steps: the refresh loop over
  any ticks, a configuration change, and the background fetches it starts. So what holds of every
  interleaving holds after each of them.
\<close>

theorem operations_are_runs:
  assumes "broker_run us H (b, [], [])" and "cfg_ExternalHostname cfg \<in> H"
  shows "broker_run us H (Start us n ticks b, [], []) \<and>
    broker_run us H (fst (a2a_OnConfigChange cfg listed indexed b), [], []) \<and>
    broker_run us H (refresh_targets us n (snd (a2a_OnConfigChange cfg listed indexed b))
                    (fst (a2a_OnConfigChange cfg listed indexed b)), [], [])"
proof -
  let ?r = "a2a_OnConfigChange cfg listed indexed b"
  have "broker_run us H (set_trust (cfg_ExternalHostname cfg) (cfg_GatewayCACertPEM cfg) b, [], [])"
    by (rule broker_run.step[OF assms(1) broker_step.trust[OF assms(2)]])
  then have r: "broker_run us H (fst ?r, [], [])"
    unfolding a2a_OnConfigChange_def SetAgents_def Let_def evictStaleCards_def
    by (auto simp: GetExternalHostname_def GetGatewayCACertPEM_def
        intro!: run_evict intro: broker_run.step broker_step.swap)
  have "\<forall>(ns, pfx, a) \<in> set (snd ?r). CHR ''/'' \<notin> set ns"
    using cut_key_slash
    by (auto simp: a2a_OnConfigChange_def SetAgents_def Let_def refreshNewCards_def set_map_filter target_of_def)
  then show ?thesis using run_Start[OF assms(1)] r run_refresh_targets[OF r] by blast
qed

section \<open>A card of an earlier host\<close>

lemma refreshCard_not_modified:
  assumes "ms_cards (b_store b) (storeKey ns pfx) = Some e"
    and "b_agents b (storeKey ns pfx) = Some agent" and "url_Parse (cardURL agent) \<noteq> None"
    and "b_caCertPEM b = []" and "ag_CACert agent = []"
    and "\<And>c r. us_Do us n c r = Fetched 304 etag modified body fails"
  shows "refreshCard us n ns pfx agent b =
    b\<lparr>b_invalid := (b_invalid b)(storeKey ns pfx := None),
      b_store := store_Set ns pfx (e\<lparr>ce_FetchedAt := us_Now us n\<rparr>) (b_store b)\<rparr>"
  using assms
  by (auto simp: refreshCard_def begin_refresh_def read_prev_def build_request_def clientFor_def Let_def
      finish_refresh_def commit_store_def storeIfCurrent_def stillCurrent_def key_lookups storeKey_def)

text \<open>
  C35: A card is not checked again when the gateway's host changes. If the upstream answers the next
  refresh with 304, the cached card stays and is served whatever its interfaces are for the new
  host: the check of the new host is never made.
\<close>

theorem new_host_does_not_recheck:
  assumes "ms_cards (b_store b) (storeKey ns pfx) = Some e"
    and "b_agents b (storeKey ns pfx) = Some agent" and "url_Parse (cardURL agent) \<noteq> None"
    and "ag_CACert agent = []" and "key_part ns" and "key_part pfx"
    and "\<And>c r. us_Do us n c r = Fetched 304 etag modified body fails"
  shows "let b' = refreshCard us n ns pfx agent (set_trust newhost [] b);
             reply = ServeAgentCard b' (a2aPathPrefix @ storeKey ns pfx @ wellKnownAgentCard)
         in b_externalHost b' = newhost \<and> rp_Status reply = 200 \<and> rp_Body reply = ce_Raw e"
proof -
  let ?b = "set_trust newhost [] b"
  have "refreshCard us n ns pfx agent ?b =
      ?b\<lparr>b_invalid := (b_invalid b)(storeKey ns pfx := None),
         b_store := store_Set ns pfx (e\<lparr>ce_FetchedAt := us_Now us n\<rparr>) (b_store b)\<rparr>"
    using refreshCard_not_modified[of ?b ns pfx e agent us n] assms by (simp add: set_trust_def)
  then show ?thesis
    using assms(2)
    by (simp add: Let_def ServeAgentCard_def parseCardPath_key[OF assms(5,6)] key_lookups set_trust_def
        store_Set_def)
qed

section \<open>Examples\<close>

definition weather_agent :: A2AAgent where
  "weather_agent =
     \<lparr>ag_Name = ''team/weather-agent'', ag_URL = ''http://weather/'', ag_Hostname = [],
      ag_AgentPrefix = ''weather'', ag_Auth = None, ag_Credential = [], ag_AgentCardURL = [],
      ag_CACert = [], ag_State = []\<rparr>"

definition weather_card :: string where
  "weather_card = json_encode (card_json ''weather'' [(''https'', ''gw.example'', ''/a2a/team/weather'')])"

definition weather_upstream :: "int \<Rightarrow> upstream" where
  "weather_upstream status =
     \<lparr>us_PEM = (\<lambda>_. True), us_SHA256 = (\<lambda>s. s), us_Now = (\<lambda>_. 0),
      us_Do = (\<lambda>_ _ _. Fetched status ''v1'' [] weather_card False)\<rparr>"

definition weather_config :: "string \<Rightarrow> unit MCPServersConfig" where
  "weather_config host =
     \<lparr>cfg_Servers = [], cfg_VirtualServers = [], cfg_A2AAgents = [weather_agent], cfg_observers = [],
      cfg_ExternalHostname = host, cfg_InternalHostname = [], cfg_GatewayCACertPEM = []\<rparr>"

definition configured_broker :: Broker where
  "configured_broker =
     fst (a2a_OnConfigChange (weather_config ''gw.example'') [] [] (set_trust ''gw.example'' [] (NewBroker 0)))"

definition weather_entry :: CardEntry where
  "weather_entry =
     \<lparr>ce_Raw = weather_card, ce_ETag = ''v1'', ce_LastModified = [], ce_SHA256 = weather_card, ce_FetchedAt = 0\<rparr>"

definition weather_broker :: Broker where
  "weather_broker = refreshCard (weather_upstream 200) 0 ''team'' ''weather'' weather_agent configured_broker"

lemma weather_card_length: "length weather_card \<le> 1000"
  by code_simp

lemma weather_card_check:
  "validateCard weather_card ''gw.example'' ''team'' ''weather'' = None"
  "validateCard weather_card ''new.example'' ''team'' ''weather'' \<noteq> None"
proof -
  have u: "plain_url (''https'', ''gw.example'', ''/a2a/team/weather'')" "list_all url_char ''gw.example''"
    "list_all url_char ''new.example''"
    by (simp_all add: plain_url_def url_char_def path_char_def is_letter_def is_digit_def byte_in_def)
  then show "validateCard weather_card ''gw.example'' ''team'' ''weather'' = None"
    "validateCard weather_card ''new.example'' ''team'' ''weather'' \<noteq> None"
    by (simp_all add: weather_card_def validateCard_card_json validateInterface_plain TrimRight_def)
qed

lemma weather_url: "url_Parse (cardURL weather_agent) \<noteq> None"
proof -
  have "cardURL weather_agent = ''http'' @ ''://'' @ ''weather'' @ ''/.well-known/agent-card.json''"
    by (simp add: cardURL_def weather_agent_def TrimRight_def wellKnownAgentCard_def)
  moreover have "url_Parse (''http'' @ ''://'' @ ''weather'' @ ''/.well-known/agent-card.json'') \<noteq> None"
    by (subst url_Parse_plain) (simp_all add: url_char_def path_char_def is_letter_def is_digit_def byte_in_def)
  ultimately show ?thesis by simp
qed

lemma configured_broker_eq:
  "configured_broker = (NewBroker 0)\<lparr>b_agents := [''team/weather'' \<mapsto> weather_agent], b_externalHost := ''gw.example''\<rparr>"
  by (simp add: configured_broker_def a2a_OnConfigChange_def weather_config_def ListA2AAgents_def
      GetExternalHostname_def GetGatewayCACertPEM_def set_trust_def SetAgents_def evictStaleCards_def
      swap_agents_def keep_keys_def NewBroker_def agentEnabled_def pathKey_def weather_agent_def Cut_def
      Let_def fun_eq_iff)

lemma weather_broker_eq:
  "weather_broker = configured_broker\<lparr>b_store := \<lparr>ms_cards = [''team/weather'' \<mapsto> weather_entry]\<rparr>\<rparr>"
proof -
  have "read_limited (maxCardBytes + 1) weather_card False = Some weather_card"
    "\<not> maxCardBytes < length weather_card"
    using weather_card_length by (simp_all add: read_limited_def maxCardBytes_def)
  moreover have "agentFingerprint weather_agent = agentFingerprint weather_agent" by simp
  moreover have "ag_CACert weather_agent = []" "ag_Credential weather_agent = []"
    by (simp_all add: weather_agent_def)
  ultimately show ?thesis
    using weather_url weather_card_check(1)
    by (auto simp: weather_broker_def configured_broker_eq NewBroker_def NewMemoryStore_def refreshCard_def
        begin_refresh_def read_prev_def store_defs storeKey_def build_request_def clientFor_def Let_def
        weather_upstream_def finish_refresh_def accept_body_def commit_store_def storeIfCurrent_def
        stillCurrent_def weather_entry_def)
qed

lemma weather_run: "broker_run (weather_upstream 200) {''gw.example''} (weather_broker, [], [])"
proof -
  let ?us = "weather_upstream 200"
  have "broker_run ?us {''gw.example''} (set_trust ''gw.example'' [] (NewBroker 0), [], [])"
    by (rule broker_run.init) simp
  then have "broker_run ?us {''gw.example''}
      (swap_agents (agent_index [Some weather_agent] emptymap) (set_trust ''gw.example'' [] (NewBroker 0)), [], [])"
    by (rule broker_run.step) (rule broker_step.swap)
  moreover have "swap_agents (agent_index [Some weather_agent] emptymap) (set_trust ''gw.example'' [] (NewBroker 0)) =
      configured_broker"
    by (simp add: configured_broker_def a2a_OnConfigChange_def weather_config_def ListA2AAgents_def
      GetExternalHostname_def GetGatewayCACertPEM_def set_trust_def SetAgents_def evictStaleCards_def Let_def
      swap_agents_def keep_keys_def NewBroker_def)
  ultimately show ?thesis
    unfolding weather_broker_def by (intro run_refreshCard) simp_all
qed

lemma weather_key: "storeKey ''team'' ''weather'' = ''team/weather''" "key_part ''team''" "key_part ''weather''"
  by (simp_all add: storeKey_def key_part_def)

lemma weather_fields:
  "ms_cards (b_store weather_broker) = [''team/weather'' \<mapsto> weather_entry]"
  "b_agents weather_broker = [''team/weather'' \<mapsto> weather_agent]"
  "b_invalid weather_broker = emptymap" "b_externalHost weather_broker = ''gw.example''"
  "b_caCertPEM weather_broker = []"
  by (simp_all add: weather_broker_eq configured_broker_eq NewBroker_def)

lemma weather_served:
  "rp_Status (ServeAgentCard weather_broker ''/a2a/team/weather/.well-known/agent-card.json'') = 200"
  using served_iff[of "''team''" "''weather''" weather_broker] weather_key
  by (simp add: weather_fields a2aPathPrefix_def wellKnownAgentCard_def)


theorem catalog_lists_servable_cards_witness:
  "''/a2a/team/weather'' \<in> set (catalog_items weather_broker [''team/weather''])"
proof -
  have "iter_order (b_agents weather_broker) [''team/weather'']"
    by (simp add: iter_order_def weather_fields)
  moreover have "\<forall>k. b_agents weather_broker k \<noteq> None \<longrightarrow>
      (\<exists>ns pfx. key_part ns \<and> key_part pfx \<and> k = ns @ ''/'' @ pfx)"
  proof (intro allI impI)
    fix k
    assume "b_agents weather_broker k \<noteq> None"
    then have "k = ''team'' @ ''/'' @ ''weather''" by (simp add: weather_fields split: if_splits)
    then show "\<exists>ns pfx. key_part ns \<and> key_part pfx \<and> k = ns @ ''/'' @ pfx" using weather_key by blast
  qed
  ultimately have "set (catalog_items weather_broker [''team/weather'']) =
      {''/a2a/'' @ ns @ ''/'' @ pfx | ns pfx. key_part ns \<and> key_part pfx \<and>
         rp_Status (ServeAgentCard weather_broker
           (''/a2a/'' @ ns @ ''/'' @ pfx @ ''/.well-known/agent-card.json'')) = 200}"
    using catalog_lists_servable_cards by blast
  moreover have "key_part ''team'' \<and> key_part ''weather'' \<and> rp_Status (ServeAgentCard weather_broker
      (''/a2a/'' @ ''team'' @ ''/'' @ ''weather'' @ ''/.well-known/agent-card.json'')) = 200"
    using weather_served weather_key by simp
  ultimately have "''/a2a/'' @ ''team'' @ ''/'' @ ''weather'' \<in> set (catalog_items weather_broker [''team/weather''])"
    by blast
  then show ?thesis by simp
qed

definition weather_refresh :: refresh where
  "weather_refresh = read_prev configured_broker (begin_refresh configured_broker ''team'' ''weather'' weather_agent)"

lemma weather_finish:
  "finish_refresh (\<lambda>s. s) 0 weather_refresh (Fetched 200 ''v1'' [] weather_card False) configured_broker = weather_broker"
proof -
  have "clientFor (\<lambda>_. True) ''team/weather'' weather_agent configured_broker =
      (configured_broker, Inr \<lparr>hc_Timeout = cardFetchTimeout, hc_RootCAs = None\<rparr>)"
    by (simp add: clientFor_def configured_broker_eq NewBroker_def weather_agent_def Let_def)
  moreover have "build_request weather_refresh \<noteq> None"
    using weather_url by (simp add: weather_refresh_def build_request_def begin_refresh_def read_prev_def Let_def)
  ultimately show ?thesis
    by (auto simp: weather_broker_def refreshCard_def weather_refresh_def weather_upstream_def Let_def)
qed

theorem late_fetch_cannot_clobber_witness:
  "b_externalHost configured_broker = rf_host weather_refresh \<and>
   b_agents configured_broker ''team/weather'' = Some weather_agent"
proof -
  have "finish_refresh (\<lambda>s. s) 0 weather_refresh (Fetched 200 ''v1'' [] weather_card False) configured_broker \<noteq>
      configured_broker"
  proof -
    have "ms_cards (b_store configured_broker) ''team/weather'' = None"
      by (simp add: configured_broker_eq NewBroker_def NewMemoryStore_def)
    moreover have "ms_cards (b_store weather_broker) ''team/weather'' \<noteq> None" by (simp add: weather_fields)
    ultimately show ?thesis unfolding weather_finish by metis
  qed
  moreover have "rf_agent weather_refresh = weather_agent" "rf_ns weather_refresh = ''team''"
    "rf_prefix weather_refresh = ''weather''"
    by (simp_all add: weather_refresh_def read_prev_def begin_refresh_def)
  moreover have "CHR 0x00 \<notin> set (cardURL weather_agent @ ag_Credential weather_agent @ ag_CACert weather_agent)"
    by (simp add: weather_agent_def cardURL_def TrimRight_def wellKnownAgentCard_def)
  moreover have "b_agents configured_broker ''team/weather'' = Some weather_agent"
    by (simp add: configured_broker_eq)
  ultimately show ?thesis
    using late_fetch_cannot_clobber[of "\<lambda>s. s" 0 weather_refresh "Fetched 200 ''v1'' [] weather_card False"
        configured_broker] weather_key by simp
qed

theorem config_change_tracks_agents_witness:
  "set (snd (a2a_OnConfigChange (weather_config ''gw.example'') [] [''team/weather''] (NewBroker 0))) =
     {(''team'', ''weather'', weather_agent)}"
proof -
  let ?r = "a2a_OnConfigChange (weather_config ''gw.example'') [] [''team/weather''] (NewBroker 0)"
  have cfg: "cfg_A2AAgents (weather_config ''gw.example'') = [weather_agent]" by (simp add: weather_config_def)
  have new: "ms_cards (b_store (NewBroker 0)) = emptymap" "b_agents (NewBroker 0) = emptymap"
    by (simp_all add: NewBroker_def NewMemoryStore_def)
  have enabled: "agentEnabled weather_agent" "pathKey weather_agent = ''team/weather''"
    by (simp_all add: agentEnabled_def pathKey_def weather_agent_def Cut_def)
  have cut: "cut_key ''team/weather'' = (''team'', ''weather'')" by (simp add: cut_key_def Cut_def)
  show ?thesis
    using config_change_tracks_agents[of "NewBroker 0" "[]" "weather_config ''gw.example''" "[''team/weather'']" "fst ?r" "snd ?r"]
    by (auto simp: iter_order_def new cfg enabled cut split: if_splits)
qed

theorem operations_are_runs_witness:
  "broker_run (weather_upstream 200) {''gw.example''}
     (Start (weather_upstream 200) 0 [[''team/weather''], [''team/weather'']] weather_broker, [], [])"
  by (rule operations_are_runs[OF weather_run, of "weather_config ''gw.example''", THEN conjunct1])
    (simp add: weather_config_def)

theorem new_host_does_not_recheck_witness:
  "validateCard weather_card ''new.example'' ''team'' ''weather'' \<noteq> None \<and>
   (let b' = refreshCard (weather_upstream 304) 1 ''team'' ''weather'' weather_agent
               (set_trust ''new.example'' [] weather_broker);
        reply = ServeAgentCard b' ''/a2a/team/weather/.well-known/agent-card.json''
    in b_externalHost b' = ''new.example'' \<and> rp_Status reply = 200 \<and> rp_Body reply = weather_card)"
proof -
  have path: "a2aPathPrefix @ storeKey ''team'' ''weather'' @ wellKnownAgentCard =
      ''/a2a/team/weather/.well-known/agent-card.json''"
    by (simp add: a2aPathPrefix_def storeKey_def wellKnownAgentCard_def)
  have "us_Do (weather_upstream 304) 1 c r = Fetched 304 ''v1'' [] weather_card False" for c r
    by (simp add: weather_upstream_def)
  moreover have "ms_cards (b_store weather_broker) (storeKey ''team'' ''weather'') = Some weather_entry"
    "b_agents weather_broker (storeKey ''team'' ''weather'') = Some weather_agent" "ag_CACert weather_agent = []"
    by (simp_all add: weather_key weather_fields weather_agent_def)
  ultimately show ?thesis
    using new_host_does_not_recheck[of weather_broker "''team''" "''weather''" weather_entry weather_agent
        "weather_upstream 304" 1 "''v1''" "[]" weather_card False "''new.example''"]
      weather_url weather_key(2,3) weather_card_check(2)
    unfolding path by (simp add: weather_entry_def)
qed
end
