(* ===== verification/Tool_Model.thy ===== *)
theory Tool_Model
  imports Go_Json
begin

text \<open>
  Tools and prompts as the broker handles them, and their validation
  (\<open>internal/broker/upstream/validate.go\<close>). A value of type \<open>any\<close> is a JSON value, with null for
  nil; a map of such values is the list of its members in the order in which it is traversed.
\<close>

section \<open>Tools and prompts\<close>

text \<open>\<open>t_Other\<close> holds the members the broker passes on without reading them.\<close>

record Tool =
  t_Name :: string
  t_Meta :: "(string \<times> json) list option"
  t_InputSchema :: json
  t_OutputSchema :: json
  t_Description :: string
  t_Other :: "(string \<times> json) list"

record PromptArgument =
  pa_Name :: string

record Prompt =
  p_Name :: string
  p_Meta :: "(string \<times> json) list option"
  p_Arguments :: "PromptArgument option list"
  p_Other :: "(string \<times> json) list"

datatype handler = NoopHandler | BrokerHandler string

record GatewayTool =
  gt_Tool :: Tool
  gt_Handler :: handler

record GatewayPrompt =
  gp_Prompt :: Prompt
  gp_Handler :: handler

definition gatewayServerID :: string where "gatewayServerID = ''kuadrant/id''"

text \<open>The server that a meta map names, when it names one.\<close>

definition meta_owner :: "(string \<times> json) list option \<Rightarrow> string option" where
  "meta_owner meta =
     (case meta of
        None \<Rightarrow> None
      | Some m \<Rightarrow> (case map_of m gatewayServerID of Some (JStr s) \<Rightarrow> Some s | _ \<Rightarrow> None))"

definition prefixedName :: "string \<Rightarrow> string \<Rightarrow> string" where
  "prefixedName pfx name = (if pfx = [] then name else pfx @ name)"

lemma prefixedName_append [simp]: "prefixedName pfx name = pfx @ name"
  by (simp add: prefixedName_def)

section \<open>Validation\<close>

datatype item_error =
    EmptyName
  | SchemaRequired
  | SchemaNotObject
  | SchemaType string string
  | PropertyNotObject string string
  | PropertyTypeNotString string string
  | PropertyType string string string
  | ArgumentName nat

record InvalidToolInfo =
  it_Name :: string
  it_Errors :: "item_error list"

definition validJSONSchemaTypes :: "string list" where
  "validJSONSchemaTypes =
     [''string'', ''number'', ''integer'', ''boolean'', ''array'', ''object'', ''null'']"

definition extractSchema :: "json \<Rightarrow> (string \<times> (string \<times> json) list option) option" where
  "extractSchema schema =
     (case schema of
        JObj m \<Rightarrow>
          Some (case map_of m ''type'' of Some (JStr t) \<Rightarrow> t | _ \<Rightarrow> [],
                case map_of m ''properties'' of Some (JObj p) \<Rightarrow> Some p | _ \<Rightarrow> None)
      | _ \<Rightarrow> None)"

definition validateProperty :: "string \<Rightarrow> string \<times> json \<Rightarrow> item_error list" where
  "validateProperty part kv =
     (case snd kv of
        JObj m \<Rightarrow>
          (case map_of m ''type'' of
             None \<Rightarrow> []
           | Some (JStr t) \<Rightarrow>
               if t \<in> set validJSONSchemaTypes then [] else [PropertyType part (fst kv) t]
           | Some _ \<Rightarrow> [PropertyTypeNotString part (fst kv)])
      | _ \<Rightarrow> [PropertyNotObject part (fst kv)])"

definition validateSchema ::
  "string \<Rightarrow> string \<Rightarrow> (string \<times> json) list option \<Rightarrow> item_error list" where
  "validateSchema part schemaType properties =
     (if schemaType \<noteq> ''object'' then [SchemaType part schemaType] else []) @
     concat (map (validateProperty part) (case properties of None \<Rightarrow> [] | Some p \<Rightarrow> p))"

definition ValidateTool :: "Tool \<Rightarrow> InvalidToolInfo" where
  "ValidateTool tool =
     \<lparr>it_Name = t_Name tool,
      it_Errors =
        (if t_Name tool = [] then [EmptyName] else []) @
        (if t_InputSchema tool = JNull then [SchemaRequired]
         else case extractSchema (t_InputSchema tool) of
                None \<Rightarrow> [SchemaNotObject]
              | Some (ty, props) \<Rightarrow> validateSchema ''inputSchema'' ty props) @
        (case extractSchema (t_OutputSchema tool) of
           None \<Rightarrow> []
         | Some (ty, props) \<Rightarrow>
             if ty \<noteq> [] \<or> props \<noteq> None then validateSchema ''outputSchema'' ty props else [])\<rparr>"

fun argument_errors :: "nat \<Rightarrow> PromptArgument option list \<Rightarrow> item_error list" where
  "argument_errors i [] = []"
| "argument_errors i (None # args) = argument_errors (Suc i) args"
| "argument_errors i (Some a # args) =
     (if pa_Name a = [] then [ArgumentName i] else []) @ argument_errors (Suc i) args"

definition ValidatePrompt :: "Prompt \<Rightarrow> InvalidToolInfo" where
  "ValidatePrompt p =
     \<lparr>it_Name = p_Name p,
      it_Errors = (if p_Name p = [] then [EmptyName] else []) @ argument_errors 0 (p_Arguments p)\<rparr>"

fun validate_items ::
  "('i \<Rightarrow> InvalidToolInfo) \<Rightarrow> 'i list \<Rightarrow> 'i list \<times> InvalidToolInfo list" where
  "validate_items check [] = ([], [])"
| "validate_items check (x # xs) =
     (let (valid, invalid) = validate_items check xs
      in if it_Errors (check x) \<noteq> [] then (valid, check x # invalid) else (x # valid, invalid))"

definition ValidateTools :: "Tool list \<Rightarrow> Tool list \<times> InvalidToolInfo list" where
  "ValidateTools tools = validate_items ValidateTool tools"

definition ValidatePrompts :: "Prompt list \<Rightarrow> Prompt list \<times> InvalidToolInfo list" where
  "ValidatePrompts prompts = validate_items ValidatePrompt prompts"

lemma validate_items_filter:
  "validate_items check xs =
     (filter (\<lambda>x. it_Errors (check x) = []) xs, map check (filter (\<lambda>x. it_Errors (check x) \<noteq> []) xs))"
  by (induction xs) auto

text \<open>
  What the SDK requires of a tool that is added to its server: an input schema that is an object
  schema. Adding any other tool is a panic of the SDK.
\<close>

definition addable :: "Tool \<Rightarrow> bool" where
  "addable tool \<longleftrightarrow>
     (case t_InputSchema tool of JObj m \<Rightarrow> map_of m ''type'' = Some (JStr ''object'') | _ \<Rightarrow> False)"

lemma extractSchema_object:
  assumes "extractSchema schema = Some (''object'', props)"
  shows "\<exists>m. schema = JObj m \<and> map_of m ''type'' = Some (JStr ''object'')"
proof (cases schema)
  case (JObj m)
  then have "(case map_of m ''type'' of Some (JStr t) \<Rightarrow> t | _ \<Rightarrow> []) = ''object''"
    using assms by (simp add: extractSchema_def)
  then show ?thesis using JObj by (cases "map_of m ''type''") (auto split: json.splits)
qed (use assms in \<open>simp_all add: extractSchema_def\<close>)

lemma valid_addable:
  assumes "it_Errors (ValidateTool tool) = []"
  shows "addable tool \<and> t_Name tool \<noteq> []"
proof -
  have name: "t_Name tool \<noteq> []" and nonnull: "t_InputSchema tool \<noteq> JNull"
    using assms by (simp_all add: ValidateTool_def split: if_splits)
  then obtain ty props where e: "extractSchema (t_InputSchema tool) = Some (ty, props)"
    using assms by (cases "extractSchema (t_InputSchema tool)") (auto simp: ValidateTool_def)
  then have "ty = ''object''"
    using assms nonnull by (simp add: ValidateTool_def validateSchema_def split: if_splits)
  then obtain m where "t_InputSchema tool = JObj m" "map_of m ''type'' = Some (JStr ''object'')"
    using extractSchema_object e by blast
  then show ?thesis using name by (simp add: addable_def)
qed
end
