(* ===== verification/Gateway_Server.thy ===== *)
theory Gateway_Server
  imports Tool_Model
begin

text \<open>
  The tools and prompts of the gateway's own MCP server and the targeting of its list-changed
  notifications (\<open>internal/broker/gateway_server.go\<close>). The SDK server below it is third-party code:
  the calls made to it are recorded, in order. \<open>gs_changes\<close> counts the calls of \<open>onTableChange\<close>.
\<close>

datatype sdk_call =
    SDK_AddTool Tool handler
  | SDK_RemoveTools "string list"
  | SDK_AddPrompt Prompt handler
  | SDK_RemovePrompts "string list"

record gatewayServer =
  gs_tools :: "GatewayTool gomap"
  gs_prompts :: "GatewayPrompt gomap"
  gs_notifyTargets :: "time gomap"
  gs_broadcastUntil :: time
  gs_sdk :: "sdk_call list"
  gs_changes :: nat

definition notifyWindow :: duration where "notifyWindow = 5 * 1000000000"

text \<open>The zero time is before every time the clock shows.\<close>

definition newGatewayServer :: "time \<Rightarrow> gatewayServer" where
  "newGatewayServer zero =
     \<lparr>gs_tools = emptymap, gs_prompts = emptymap, gs_notifyTargets = emptymap,
      gs_broadcastUntil = zero, gs_sdk = [], gs_changes = 0\<rparr>"

definition markBroadcast :: "time \<Rightarrow> gatewayServer \<Rightarrow> gatewayServer" where
  "markBroadcast now g = g\<lparr>gs_broadcastUntil := now + notifyWindow\<rparr>"

definition tableChange :: "gatewayServer \<Rightarrow> gatewayServer" where
  "tableChange g = g\<lparr>gs_changes := Suc (gs_changes g)\<rparr>"

fun put_tools :: "GatewayTool list \<Rightarrow> gatewayServer \<Rightarrow> gatewayServer" where
  "put_tools [] g = g"
| "put_tools (t # ts) g =
     put_tools ts (g\<lparr>gs_tools := (gs_tools g)(t_Name (gt_Tool t) \<mapsto> t),
                     gs_sdk := gs_sdk g @ [SDK_AddTool (gt_Tool t) (gt_Handler t)]\<rparr>)"

definition AddTools :: "time \<Rightarrow> GatewayTool list \<Rightarrow> gatewayServer \<Rightarrow> gatewayServer" where
  "AddTools now tools g =
     (if tools = [] then g else tableChange (put_tools tools (markBroadcast now g)))"

definition DeleteTools :: "time \<Rightarrow> string list \<Rightarrow> gatewayServer \<Rightarrow> gatewayServer" where
  "DeleteTools now names g =
     (if names = [] then g
      else (let g' = markBroadcast now g
            in tableChange (g'\<lparr>gs_tools := delete_keys names (gs_tools g'),
                               gs_sdk := gs_sdk g' @ [SDK_RemoveTools names]\<rparr>)))"

definition ListTools :: "gatewayServer \<Rightarrow> GatewayTool gomap" where
  "ListTools g = gs_tools g"

fun put_prompts :: "GatewayPrompt list \<Rightarrow> gatewayServer \<Rightarrow> gatewayServer" where
  "put_prompts [] g = g"
| "put_prompts (p # ps) g =
     put_prompts ps (g\<lparr>gs_prompts := (gs_prompts g)(p_Name (gp_Prompt p) \<mapsto> p),
                       gs_sdk := gs_sdk g @ [SDK_AddPrompt (gp_Prompt p) (gp_Handler p)]\<rparr>)"

definition AddPrompts :: "GatewayPrompt list \<Rightarrow> gatewayServer \<Rightarrow> gatewayServer" where
  "AddPrompts prompts g = (if prompts = [] then g else tableChange (put_prompts prompts g))"

definition DeletePrompts :: "string list \<Rightarrow> gatewayServer \<Rightarrow> gatewayServer" where
  "DeletePrompts names g =
     (if names = [] then g
      else tableChange (g\<lparr>gs_prompts := delete_keys names (gs_prompts g),
                          gs_sdk := gs_sdk g @ [SDK_RemovePrompts names]\<rparr>))"

definition ListPrompts :: "gatewayServer \<Rightarrow> GatewayPrompt gomap" where
  "ListPrompts g = gs_prompts g"

section \<open>Notifications\<close>

definition drop_expired :: "time \<Rightarrow> time gomap \<Rightarrow> time gomap" where
  "drop_expired now targets =
     (\<lambda>s. case targets s of None \<Rightarrow> None | Some e \<Rightarrow> if now > e then None else Some e)"

definition markNotifyTarget :: "time \<Rightarrow> string \<Rightarrow> gatewayServer \<Rightarrow> gatewayServer" where
  "markNotifyTarget now sessionID g =
     g\<lparr>gs_notifyTargets := (drop_expired now (gs_notifyTargets g))(sessionID \<mapsto> now + notifyWindow)\<rparr>"

text \<open>The traversal of the targets: whether a live one was seen, and whether it was the session.\<close>

fun live_targets :: "time gomap \<Rightarrow> string \<Rightarrow> string list \<Rightarrow> bool \<times> bool \<Rightarrow> bool \<times> bool" where
  "live_targets m sid [] r = r"
| "live_targets m sid (k # ks) (live, targeted) =
     (if m k = None then live_targets m sid ks (live, targeted)
      else live_targets m sid ks (True, if k = sid then True else targeted))"

definition shouldDeliver ::
  "time \<Rightarrow> string list \<Rightarrow> string \<Rightarrow> gatewayServer \<Rightarrow> gatewayServer \<times> bool" where
  "shouldDeliver now keys sessionID g =
     (if now < gs_broadcastUntil g then (g, True)
      else
        (let m = drop_expired now (gs_notifyTargets g);
             (live, targeted) = live_targets m sessionID keys (False, False)
         in (g\<lparr>gs_notifyTargets := m\<rparr>, \<not> live \<or> targeted)))"

definition toolsListChangedMethod :: string where
  "toolsListChangedMethod = ''notifications/tools/list_changed''"

definition scopeChangeSentinelName :: string where
  "scopeChangeSentinelName = ''__gateway_scope_change''"

definition sentinel_tool :: Tool where
  "sentinel_tool =
     \<lparr>t_Name = scopeChangeSentinelName, t_Meta = None,
      t_InputSchema = JObj [(''type'', JStr ''object'')], t_OutputSchema = JNull,
      t_Description = [], t_Other = []\<rparr>"

definition TriggerToolsListChanged :: "time \<Rightarrow> string \<Rightarrow> gatewayServer \<Rightarrow> gatewayServer" where
  "TriggerToolsListChanged now targetSessionID g =
     (let g' = (if targetSessionID \<noteq> [] then markNotifyTarget now targetSessionID g
                else markBroadcast now g)
      in g'\<lparr>gs_sdk := gs_sdk g' @ [SDK_AddTool sentinel_tool (BrokerHandler scopeChangeSentinelName),
                                   SDK_RemoveTools [scopeChangeSentinelName]]\<rparr>)"

text \<open>Whether a message to a session is passed on to the SDK.\<close>

definition notifyTargetMiddleware ::
  "time \<Rightarrow> string list \<Rightarrow> string \<Rightarrow> string \<Rightarrow> gatewayServer \<Rightarrow> gatewayServer \<times> bool" where
  "notifyTargetMiddleware now keys meth sessionID g =
     (if meth \<noteq> toolsListChangedMethod then (g, True) else shouldDeliver now keys sessionID g)"

section \<open>Sequences of operations\<close>

datatype gateway_op =
    OpAddTools time "GatewayTool list"
  | OpDeleteTools time "string list"
  | OpAddPrompts "GatewayPrompt list"
  | OpDeletePrompts "string list"
  | OpTrigger time string
  | OpDeliver time "string list" string

fun apply_op :: "gateway_op \<Rightarrow> gatewayServer \<Rightarrow> gatewayServer" where
  "apply_op (OpAddTools now ts) g = AddTools now ts g"
| "apply_op (OpDeleteTools now ns) g = DeleteTools now ns g"
| "apply_op (OpAddPrompts ps) g = AddPrompts ps g"
| "apply_op (OpDeletePrompts ns) g = DeletePrompts ns g"
| "apply_op (OpTrigger now sid) g = TriggerToolsListChanged now sid g"
| "apply_op (OpDeliver now keys sid) g = fst (shouldDeliver now keys sid g)"

fun gateway_op_time :: "gateway_op \<Rightarrow> time option" where
  "gateway_op_time (OpAddTools now ts) = Some now"
| "gateway_op_time (OpDeleteTools now ns) = Some now"
| "gateway_op_time (OpTrigger now sid) = Some now"
| "gateway_op_time (OpDeliver now keys sid) = Some now"
| "gateway_op_time _ = None"

definition apply_ops :: "gateway_op list \<Rightarrow> gatewayServer \<Rightarrow> gatewayServer" where
  "apply_ops ops g = fold apply_op ops g"

lemmas gateway_defs = AddTools_def DeleteTools_def AddPrompts_def DeletePrompts_def markBroadcast_def
  tableChange_def TriggerToolsListChanged_def markNotifyTarget_def shouldDeliver_def Let_def

subsection \<open>The SDK server\<close>

text \<open>
  The documented effect of the calls on the SDK server: a tool replaces the one of its name, a
  removal removes by name.
\<close>

fun sdk_tools :: "sdk_call list \<Rightarrow> (Tool \<times> handler) gomap \<Rightarrow> (Tool \<times> handler) gomap" where
  "sdk_tools [] m = m"
| "sdk_tools (SDK_AddTool t h # cs) m = sdk_tools cs (m(t_Name t \<mapsto> (t, h)))"
| "sdk_tools (SDK_RemoveTools ns # cs) m = sdk_tools cs (delete_keys ns m)"
| "sdk_tools (_ # cs) m = sdk_tools cs m"

fun sdk_prompts :: "sdk_call list \<Rightarrow> (Prompt \<times> handler) gomap \<Rightarrow> (Prompt \<times> handler) gomap" where
  "sdk_prompts [] m = m"
| "sdk_prompts (SDK_AddPrompt p h # cs) m = sdk_prompts cs (m(p_Name p \<mapsto> (p, h)))"
| "sdk_prompts (SDK_RemovePrompts ns # cs) m = sdk_prompts cs (delete_keys ns m)"
| "sdk_prompts (_ # cs) m = sdk_prompts cs m"

lemma sdk_tools_append: "sdk_tools (cs @ ds) m = sdk_tools ds (sdk_tools cs m)"
  proof (induction cs arbitrary: m)
  case (Cons c cs)
  then show ?case by (cases c) (simp_all add: fun_upd_def)
qed simp

lemma sdk_prompts_append: "sdk_prompts (cs @ ds) m = sdk_prompts ds (sdk_prompts cs m)"
  proof (induction cs arbitrary: m)
  case (Cons c cs)
  then show ?case by (cases c) (simp_all add: fun_upd_def)
qed simp

definition mirrors :: "gatewayServer \<Rightarrow> bool" where
  "mirrors g \<longleftrightarrow>
     (\<forall>k. k \<noteq> scopeChangeSentinelName \<longrightarrow>
        sdk_tools (gs_sdk g) emptymap k = map_option (\<lambda>t. (gt_Tool t, gt_Handler t)) (gs_tools g k)) \<and>
     (\<forall>k. sdk_prompts (gs_sdk g) emptymap k = map_option (\<lambda>p. (gp_Prompt p, gp_Handler p)) (gs_prompts g k))"

lemma mirrors_put_tools: "mirrors g \<Longrightarrow> mirrors (put_tools ts g)"
  by (induction ts g rule: put_tools.induct) (auto simp: mirrors_def sdk_tools_append sdk_prompts_append)

lemma mirrors_put_prompts: "mirrors g \<Longrightarrow> mirrors (put_prompts ps g)"
  by (induction ps g rule: put_prompts.induct) (auto simp: mirrors_def sdk_tools_append sdk_prompts_append)

lemma mirrors_cong:
  "gs_tools g' = gs_tools g \<Longrightarrow> gs_prompts g' = gs_prompts g \<Longrightarrow> gs_sdk g' = gs_sdk g \<Longrightarrow>
   mirrors g' = mirrors g"
  by (simp add: mirrors_def)

lemma mirrors_step: "mirrors g \<Longrightarrow> mirrors (apply_op x g)"
proof (cases x)
  case (OpAddTools now ts)
  assume "mirrors g"
  then have "mirrors (put_tools ts (markBroadcast now g))"
    by (intro mirrors_put_tools) (simp add: mirrors_def markBroadcast_def)
  then show ?thesis
    using \<open>mirrors g\<close> OpAddTools by (simp add: AddTools_def tableChange_def mirrors_def)
next
  case (OpAddPrompts ps)
  assume "mirrors g"
  then show ?thesis
    using mirrors_put_prompts[of g ps] OpAddPrompts by (simp add: AddPrompts_def tableChange_def mirrors_def)
qed (auto simp: mirrors_def gateway_defs sdk_tools_append sdk_prompts_append delete_keys_apply
    sentinel_tool_def delete_keys_def split: prod.splits)



subsection \<open>Owed notifications\<close>

lemma live_targets_eq:
  "live_targets m sid ks (l, t) = (l \<or> (\<exists>k \<in> set ks. m k \<noteq> None), t \<or> sid \<in> set ks \<and> m sid \<noteq> None)"
  by (induction ks arbitrary: l t) auto

definition owed :: "time \<Rightarrow> string \<Rightarrow> gatewayServer \<Rightarrow> bool" where
  "owed until sid g \<longleftrightarrow>
     (if sid = [] then until \<le> gs_broadcastUntil g
      else \<exists>e \<ge> until. gs_notifyTargets g sid = Some e)"

lemma put_tools_notify:
  "gs_notifyTargets (put_tools ts g) = gs_notifyTargets g \<and> gs_broadcastUntil (put_tools ts g) = gs_broadcastUntil g"
  by (induction ts g rule: put_tools.induct) auto

lemma put_prompts_notify:
  "gs_notifyTargets (put_prompts ts g) = gs_notifyTargets g \<and>
   gs_broadcastUntil (put_prompts ts g) = gs_broadcastUntil g"
  by (induction ts g rule: put_prompts.induct) auto

lemma owed_step:
  assumes "owed until sid g" and "\<forall>now. gateway_op_time x = Some now \<longrightarrow> now \<le> until \<and> until \<le> now + notifyWindow"
  shows "owed until sid (apply_op x g)"
  using assms
  by (cases x) (auto simp: owed_def gateway_defs put_tools_notify put_prompts_notify drop_expired_def
      case_prod_unfold)


end
