(* ===== verification/Routing_Table.thy ===== *)
theory Routing_Table
  imports Gateway_Config
begin

text \<open>
  The routing table that the broker builds for the router: \<open>internal/routing/table.go\<close>,
  \<open>internal/routing/mem_table.go\<close> and \<open>internal/broker/routing_table.go\<close>.

  The broker ranges over its map of upstream servers; the model takes the entries in the order of
  that traversal. What the builder reads of an upstream manager is the record \<open>upstream_view\<close>.
  The path of a server's URL comes from the parser of \<open>net/url\<close>, an argument. Looking a name up
  by prefix ranges over a map as well and takes the order of the traversal.
\<close>

section \<open>Tables\<close>

record ToolAnnotation =
  an_ReadOnlyHint :: "bool option"
  an_DestructiveHint :: "bool option"
  an_IdempotentHint :: "bool option"
  an_OpenWorldHint :: "bool option"

record ServerRoute =
  sr_Name :: string
  sr_Host :: string
  sr_Prefix :: string
  sr_Path :: string
  sr_URL :: string
  sr_TokenURLElicitation :: "string option"
  sr_UserSpecificList :: bool

record Table =
  tb_tools :: "ServerRoute gomap"
  tb_prompts :: "ServerRoute gomap"
  tb_prefixes :: "ServerRoute gomap"
  tb_brokerTools :: "unit gomap"
  tb_annotations :: "ToolAnnotation gomap"

text \<open>
  The builder has the fields of the table. \<open>Build\<close> hands clones of its maps to the table and
  leaves the builder unusable, so the model of a builder is the table built so far.
\<close>

type_synonym TableBuilder = Table

definition annotationKey :: "string \<Rightarrow> string \<Rightarrow> string" where
  "annotationKey serverID toolName = serverID @ ''/'' @ toolName"

definition NewTableBuilder :: TableBuilder where
  "NewTableBuilder =
     \<lparr>tb_tools = Map.empty, tb_prompts = Map.empty, tb_prefixes = Map.empty,
      tb_brokerTools = Map.empty, tb_annotations = Map.empty\<rparr>"

definition AddTool :: "string \<Rightarrow> ServerRoute \<Rightarrow> TableBuilder \<Rightarrow> TableBuilder" where
  "AddTool name route b = b\<lparr>tb_tools := (tb_tools b)(name \<mapsto> route)\<rparr>"

definition AddPrompt :: "string \<Rightarrow> ServerRoute \<Rightarrow> TableBuilder \<Rightarrow> TableBuilder" where
  "AddPrompt name route b = b\<lparr>tb_prompts := (tb_prompts b)(name \<mapsto> route)\<rparr>"

definition AddPrefix :: "string \<Rightarrow> ServerRoute \<Rightarrow> TableBuilder \<Rightarrow> TableBuilder" where
  "AddPrefix p route b = b\<lparr>tb_prefixes := (tb_prefixes b)(p \<mapsto> route)\<rparr>"

definition AddBrokerTool :: "string \<Rightarrow> TableBuilder \<Rightarrow> TableBuilder" where
  "AddBrokerTool name b = b\<lparr>tb_brokerTools := (tb_brokerTools b)(name \<mapsto> ())\<rparr>"

definition AddAnnotation :: "string \<Rightarrow> string \<Rightarrow> ToolAnnotation \<Rightarrow> TableBuilder \<Rightarrow> TableBuilder" where
  "AddAnnotation serverID toolName a b =
     b\<lparr>tb_annotations := (tb_annotations b)(annotationKey serverID toolName \<mapsto> a)\<rparr>"

definition Build :: "TableBuilder \<Rightarrow> Table" where
  "Build b =
     \<lparr>tb_tools = tb_tools b, tb_prompts = tb_prompts b, tb_prefixes = tb_prefixes b,
      tb_brokerTools = tb_brokerTools b, tb_annotations = tb_annotations b\<rparr>"

definition LookupTool :: "Table \<Rightarrow> string \<Rightarrow> ServerRoute option" where
  "LookupTool t name = tb_tools t name"

definition LookupPrompt :: "Table \<Rightarrow> string \<Rightarrow> ServerRoute option" where
  "LookupPrompt t name = tb_prompts t name"

text \<open>The first prefix of the traversal that the name starts with.\<close>

fun first_prefix :: "ServerRoute gomap \<Rightarrow> string list \<Rightarrow> string \<Rightarrow> ServerRoute option" where
  "first_prefix m [] name = None"
| "first_prefix m (p # ps) name = (if HasPrefix name p then m p else first_prefix m ps name)"

definition LookupPrefix :: "Table \<Rightarrow> string list \<Rightarrow> string \<Rightarrow> ServerRoute option" where
  "LookupPrefix t order name = first_prefix (tb_prefixes t) order name"

definition IsBrokerTool :: "Table \<Rightarrow> string \<Rightarrow> bool" where
  "IsBrokerTool t name = (tb_brokerTools t name \<noteq> None)"

definition ToolAnnotations :: "Table \<Rightarrow> string \<Rightarrow> string \<Rightarrow> ToolAnnotation option" where
  "ToolAnnotations t serverID toolName = tb_annotations t (annotationKey serverID toolName)"

section \<open>Building the table\<close>

definition discoverToolsName :: string where "discoverToolsName = ''discover_tools''"
definition selectToolsName :: string where "selectToolsName = ''select_tools''"
definition listTagsName :: string where "listTagsName = ''list_tags''"
definition filterToolsByTagsName :: string where "filterToolsByTagsName = ''filter_tools_by_tags''"

record upstream_view =
  uv_Config :: MCPServer
  uv_ManagedTools :: "string list"
  uv_ToolHints :: "string \<Rightarrow> ToolAnnotation option"
  uv_ManagedPrompts :: "string list"

definition route_of :: "(string \<Rightarrow> string option) \<Rightarrow> MCPServer \<Rightarrow> ServerRoute" where
  "route_of url_Path cfg =
     \<lparr>sr_Name = srv_Name cfg, sr_Host = srv_Hostname cfg, sr_Prefix = srv_Prefix cfg,
      sr_Path = (case url_Path (srv_URL cfg) of None \<Rightarrow> [] | Some p \<Rightarrow> p),
      sr_URL = srv_URL cfg, sr_TokenURLElicitation = srv_TokenURLElicitation cfg,
      sr_UserSpecificList = srv_UserSpecificList cfg\<rparr>"

fun add_tools ::
  "string \<Rightarrow> ServerRoute \<Rightarrow> upstream_view \<Rightarrow> string list \<Rightarrow> TableBuilder \<Rightarrow> TableBuilder" where
  "add_tools sid route up [] b = b"
| "add_tools sid route up (tool # tools) b =
     (let served = srv_Prefix (uv_Config up) @ tool;
          b1 = AddTool served route b;
          b2 = (case uv_ToolHints up served of None \<Rightarrow> b1 | Some h \<Rightarrow> AddAnnotation sid served h b1)
      in add_tools sid route up tools b2)"

fun add_prompts :: "ServerRoute \<Rightarrow> string \<Rightarrow> string list \<Rightarrow> TableBuilder \<Rightarrow> TableBuilder" where
  "add_prompts route pre [] b = b"
| "add_prompts route pre (p # ps) b = add_prompts route pre ps (AddPrompt (pre @ p) route b)"

definition add_server ::
  "(string \<Rightarrow> string option) \<Rightarrow> string \<times> upstream_view \<Rightarrow> TableBuilder \<Rightarrow> TableBuilder" where
  "add_server url_Path entry b =
     (let (sid, up) = entry; cfg = uv_Config up; route = route_of url_Path cfg;
          b1 = (if srv_UserSpecificList cfg \<and> srv_Prefix cfg \<noteq> []
                then AddPrefix (srv_Prefix cfg) route b else b);
          b2 = add_tools sid route up (uv_ManagedTools up) b1
      in add_prompts route (srv_Prefix cfg) (uv_ManagedPrompts up) b2)"

definition buildRoutingTable ::
  "(string \<Rightarrow> string option) \<Rightarrow> (string \<times> upstream_view) list \<Rightarrow> Table" where
  "buildRoutingTable url_Path mcpServers =
     Build
       (AddBrokerTool filterToolsByTagsName
         (AddBrokerTool listTagsName
           (AddBrokerTool selectToolsName
             (AddBrokerTool discoverToolsName
               (fold (add_server url_Path) mcpServers NewTableBuilder)))))"

text \<open>The table is built when it is first asked for and stays until it is refreshed.\<close>

definition refreshRoutingTable ::
  "(string \<Rightarrow> string option) \<Rightarrow> (string \<times> upstream_view) list \<Rightarrow> Table option \<Rightarrow> Table option" where
  "refreshRoutingTable url_Path mcpServers cachedTable = Some (buildRoutingTable url_Path mcpServers)"

definition RoutingTable ::
  "(string \<Rightarrow> string option) \<Rightarrow> (string \<times> upstream_view) list \<Rightarrow> Table option \<Rightarrow> Table option \<times> Table"
where
  "RoutingTable url_Path mcpServers cachedTable =
     (case cachedTable of
        Some t \<Rightarrow> (cachedTable, t)
      | None \<Rightarrow>
          (let t = buildRoutingTable url_Path mcpServers in (Some t, t)))"

section \<open>What a built table holds\<close>

text \<open>The last server of the traversal that serves a name decides its route.\<close>

definition serves_tool :: "string \<Rightarrow> string \<times> upstream_view \<Rightarrow> bool" where
  "serves_tool n e \<longleftrightarrow> n \<in> (\<lambda>t. srv_Prefix (uv_Config (snd e)) @ t) ` set (uv_ManagedTools (snd e))"

definition serves_prompt :: "string \<Rightarrow> string \<times> upstream_view \<Rightarrow> bool" where
  "serves_prompt n e \<longleftrightarrow> n \<in> (\<lambda>t. srv_Prefix (uv_Config (snd e)) @ t) ` set (uv_ManagedPrompts (snd e))"

lemmas table_ops =
  AddTool_def AddPrompt_def AddPrefix_def AddBrokerTool_def AddAnnotation_def Build_def
  NewTableBuilder_def

lemma add_tools_tools:
  "tb_tools (add_tools sid route up ts b) n =
     (if n \<in> (\<lambda>t. srv_Prefix (uv_Config up) @ t) ` set ts then Some route else tb_tools b n)"
  by (induction ts arbitrary: b) (auto simp: Let_def table_ops split: option.splits)

lemma add_tools_other [simp]:
  "tb_prompts (add_tools sid route up ts b) = tb_prompts b"
  "tb_prefixes (add_tools sid route up ts b) = tb_prefixes b"
  "tb_brokerTools (add_tools sid route up ts b) = tb_brokerTools b"
  by (induction ts arbitrary: b; simp add: Let_def table_ops split: option.splits)+

lemma add_prompts_prompts:
  "tb_prompts (add_prompts route p ps b) n =
     (if n \<in> (\<lambda>t. p @ t) ` set ps then Some route else tb_prompts b n)"
  by (induction ps arbitrary: b) (auto simp: table_ops)

lemma add_prompts_other [simp]:
  "tb_tools (add_prompts route p ps b) = tb_tools b"
  "tb_prefixes (add_prompts route p ps b) = tb_prefixes b"
  "tb_brokerTools (add_prompts route p ps b) = tb_brokerTools b"
  "tb_annotations (add_prompts route p ps b) = tb_annotations b"
  by (induction ps arbitrary: b; simp add: table_ops)+

lemma add_server_tools:
  "tb_tools (add_server u e b) n =
     (if serves_tool n e then Some (route_of u (uv_Config (snd e))) else tb_tools b n)"
  by (cases e) (simp add: add_server_def add_tools_tools serves_tool_def Let_def table_ops)

lemma add_server_prompts:
  "tb_prompts (add_server u e b) n =
     (if serves_prompt n e then Some (route_of u (uv_Config (snd e))) else tb_prompts b n)"
  by (cases e) (simp add: add_server_def add_prompts_prompts serves_prompt_def Let_def table_ops)

lemma add_server_prefixes:
  "tb_prefixes (add_server u e b) p =
     (if srv_UserSpecificList (uv_Config (snd e)) \<and> p = srv_Prefix (uv_Config (snd e)) \<and> p \<noteq> []
      then Some (route_of u (uv_Config (snd e))) else tb_prefixes b p)"
  by (cases e) (auto simp: add_server_def Let_def table_ops)

lemma add_server_brokerTools [simp]: "tb_brokerTools (add_server u e b) = tb_brokerTools b"
  by (cases e) (simp add: add_server_def Let_def table_ops)

text \<open>A name that at most one server of the traversal serves has that server's route.\<close>

definition sole_server :: "('e \<Rightarrow> bool) \<Rightarrow> 'e list \<Rightarrow> bool" where
  "sole_server serves es \<longleftrightarrow> (\<forall>e \<in> set es. \<forall>e' \<in> set es. serves e \<longrightarrow> serves e' \<longrightarrow> e = e')"

definition server_for :: "('e \<Rightarrow> bool) \<Rightarrow> 'e list \<Rightarrow> 'e option" where
  "server_for serves es = find serves es"

lemma find_unique:
  "sole_server P es \<Longrightarrow> e \<in> set es \<Longrightarrow> P e \<Longrightarrow> find P es = Some e"
  by (induction es) (auto simp: sole_server_def)

lemma find_perm:
  assumes "sole_server P es" and "set es' = set es"
  shows "find P es' = find P es"
proof (cases "\<exists>e \<in> set es. P e")
  case True
  then obtain e where e: "e \<in> set es" "P e" by blast
  have "sole_server P es'" using assms by (simp add: sole_server_def)
  with e assms find_unique[of P es e] find_unique[of P es' e] show ?thesis by simp
next
  case False
  then show ?thesis using assms(2) by (metis find_None_iff)
qed

lemma fold_lookup:
  fixes upd :: "'e \<Rightarrow> 'b \<Rightarrow> 'b" and get :: "'b \<Rightarrow> 'r option"
  assumes "\<And>e b. get (upd e b) = (if P e then Some (r e) else get b)" and "sole_server P es"
    and "get b0 = None"
  shows "get (fold upd es b0) = map_option r (find P es)"
  using assms(2,3)
proof (induction es arbitrary: b0)
  case (Cons e es)
  show ?case
  proof (cases "P e")
    case True
    then have e: "get (upd e b0) = Some (r e)" by (simp add: assms(1))
    have "get (fold upd es b) = Some (r e)" if "get b = Some (r e)" for b
      using that Cons.prems(1) True
    proof (induction es arbitrary: b)
      case (Cons e' es)
      have "get (upd e' b) = Some (r e)"
        using Cons.prems assms(1)[of e' b] by (auto simp: sole_server_def)
      with Cons show ?case by (simp add: sole_server_def)
    qed simp
    with e True show ?thesis by simp
  next
    case False
    with Cons show ?thesis by (simp add: assms(1) sole_server_def)
  qed
qed simp

lemma build_tools:
  assumes "sole_server (serves_tool n) es"
  shows "LookupTool (buildRoutingTable u es) n =
           map_option (\<lambda>e. route_of u (uv_Config (snd e))) (find (serves_tool n) es)"
proof -
  have "tb_tools (fold (add_server u) es NewTableBuilder) n =
          map_option (\<lambda>e. route_of u (uv_Config (snd e))) (find (serves_tool n) es)"
    by (rule fold_lookup[where get = "\<lambda>b. tb_tools b n", OF _ assms])
       (simp_all add: add_server_tools NewTableBuilder_def)
  then show ?thesis by (simp add: LookupTool_def buildRoutingTable_def table_ops)
qed

lemma build_prompts:
  assumes "sole_server (serves_prompt n) es"
  shows "LookupPrompt (buildRoutingTable u es) n =
           map_option (\<lambda>e. route_of u (uv_Config (snd e))) (find (serves_prompt n) es)"
proof -
  have "tb_prompts (fold (add_server u) es NewTableBuilder) n =
          map_option (\<lambda>e. route_of u (uv_Config (snd e))) (find (serves_prompt n) es)"
    by (rule fold_lookup[where get = "\<lambda>b. tb_prompts b n", OF _ assms])
       (simp_all add: add_server_prompts NewTableBuilder_def)
  then show ?thesis by (simp add: LookupPrompt_def buildRoutingTable_def table_ops)
qed

lemma first_prefix_iff:
  "first_prefix m ps name = Some r \<Longrightarrow> \<exists>p \<in> set ps. HasPrefix name p \<and> m p = Some r"
  by (induction ps) (auto split: if_splits)

lemma first_prefix_found:
  "iter_order m ps \<Longrightarrow> p \<in> dom m \<Longrightarrow> HasPrefix name p \<Longrightarrow>
   \<exists>q r. q \<in> dom m \<and> HasPrefix name q \<and> m q = Some r \<and> first_prefix m ps name = Some r"
proof -
  assume o: "iter_order m ps" and p: "p \<in> dom m" "HasPrefix name p"
  have "\<exists>q \<in> set qs. HasPrefix name q \<and> first_prefix m qs name = m q"
    if "\<exists>q \<in> set qs. HasPrefix name q" for qs
    using that by (induction qs) auto
  with p o show ?thesis by (fastforce simp: iter_order_def dom_def)
qed

section \<open>Properties\<close>

text \<open>
  C26: a tool or prompt name that one server serves is routed to that server, whatever the order in
  which the broker ranges over its servers; a name that no server serves has no route.
\<close>

theorem routing_independent_of_traversal:
  assumes "sole_server (serves_tool n) es" and "sole_server (serves_prompt n) es"
    and "set es' = set es"
  shows "LookupTool (buildRoutingTable u es') n =
           map_option (\<lambda>e. route_of u (uv_Config (snd e))) (find (serves_tool n) es) \<and>
         LookupPrompt (buildRoutingTable u es') n =
           map_option (\<lambda>e. route_of u (uv_Config (snd e))) (find (serves_prompt n) es)"
proof -
  have "sole_server (serves_tool n) es'" "sole_server (serves_prompt n) es'"
    using assms by (simp_all add: sole_server_def)
  then show ?thesis
    using find_perm[OF assms(1,3)] find_perm[OF assms(2,3)] by (simp add: build_tools build_prompts)
qed

definition sample_view :: "string \<Rightarrow> string list \<Rightarrow> upstream_view" where
  "sample_view pre tools =
     \<lparr>uv_Config = sample_server\<lparr>srv_Prefix := pre\<rparr>, uv_ManagedTools = tools,
      uv_ToolHints = (\<lambda>_. None), uv_ManagedPrompts = []\<rparr>"

theorem routing_independent_of_traversal_witness:
  "LookupTool (buildRoutingTable (\<lambda>_. None) [(''2'', sample_view ''b_'' [''x'']), (''1'', sample_view ''a_'' [''x''])])
     ''a_x'' = Some (route_of (\<lambda>_. None) (uv_Config (sample_view ''a_'' [''x''])))"
  using routing_independent_of_traversal
    [of "''a_x''" "[(''1'', sample_view ''a_'' [''x'']), (''2'', sample_view ''b_'' [''x''])]"
        "[(''2'', sample_view ''b_'' [''x'']), (''1'', sample_view ''a_'' [''x''])]" "\<lambda>_. None"]
  by (auto simp: sole_server_def serves_tool_def serves_prompt_def sample_view_def)

text \<open>
  \<open>LookupPrefix\<close> finds a route exactly when some registered prefix starts the name, and the
  route is the one of such a prefix; when no registered prefix starts another one, the result does
  not depend on the traversal.
\<close>

theorem prefix_lookup_deterministic:
  assumes "iter_order (tb_prefixes t) ps" and "iter_order (tb_prefixes t) ps'"
    and "\<forall>p q. p \<in> dom (tb_prefixes t) \<longrightarrow> q \<in> dom (tb_prefixes t) \<longrightarrow> HasPrefix p q \<longrightarrow> p = q"
  shows "LookupPrefix t ps name = LookupPrefix t ps' name \<and>
         (LookupPrefix t ps name \<noteq> None \<longleftrightarrow> (\<exists>p \<in> dom (tb_prefixes t). HasPrefix name p))"
proof -
  let ?m = "tb_prefixes t"
  have same: "p = q" if a: "p \<in> dom ?m" "q \<in> dom ?m" "HasPrefix name p" "HasPrefix name q" for p q
  proof -
    obtain x y where "name = p @ x" "name = q @ y" using a(3,4) unfolding HasPrefix_iff by blast
    then have "HasPrefix p q \<or> HasPrefix q p"
      by (metis HasPrefix_iff append_eq_append_conv2)
    with assms(3) a(1,2) show ?thesis by blast
  qed
  have some: "\<exists>r. ?m p = Some r \<and> first_prefix ?m qs name = Some r"
    if "iter_order ?m qs" "p \<in> dom ?m" "HasPrefix name p" for p qs
    using first_prefix_found[OF that] same that by blast
  have none: "first_prefix ?m qs name = None"
    if "iter_order ?m qs" "\<not> (\<exists>p \<in> dom ?m. HasPrefix name p)" for qs
    using that first_prefix_iff[of ?m qs name]
    by (metis domI iter_order_def not_None_eq)
  show ?thesis
  proof (cases "\<exists>p \<in> dom ?m. HasPrefix name p")
    case True
    then obtain p where "p \<in> dom ?m" "HasPrefix name p" by blast
    with some[OF assms(1) this] some[OF assms(2) this] show ?thesis by (auto simp: LookupPrefix_def)
  next
    case False
    with none[OF assms(1)] none[OF assms(2)] show ?thesis by (simp add: LookupPrefix_def)
  qed
qed

theorem prefix_lookup_deterministic_witness:
  "LookupPrefix (AddPrefix ''a_'' (route_of (\<lambda>_. None) sample_server) NewTableBuilder) [''a_''] ''a_x'' =
     Some (route_of (\<lambda>_. None) sample_server)"
proof -
  have "iter_order (tb_prefixes (AddPrefix ''a_'' (route_of (\<lambda>_. None) sample_server) NewTableBuilder))
          [''a_'']"
    by (simp add: iter_order_def table_ops)
  from prefix_lookup_deterministic[OF this this, of "''a_x''"] show ?thesis
    by (auto simp: table_ops LookupPrefix_def HasPrefix_def)
qed

text \<open>
  With one prefix at the start of another, the traversal decides: the same table sends the same
  name to one server or to the other.
\<close>

lemma prefix_lookup_depends_on_traversal:
  "\<exists>t ps ps' name. iter_order (tb_prefixes t) ps \<and> iter_order (tb_prefixes t) ps' \<and>
     LookupPrefix t ps name \<noteq> LookupPrefix t ps' name"
proof -
  let ?r1 = "route_of (\<lambda>_. None) sample_server"
  let ?r2 = "route_of (\<lambda>_. None) (sample_server\<lparr>srv_Name := ''other''\<rparr>)"
  let ?t = "AddPrefix ''a_'' ?r1 (AddPrefix ''a_b_'' ?r2 NewTableBuilder)"
  have "iter_order (tb_prefixes ?t) [''a_'', ''a_b_'']" "iter_order (tb_prefixes ?t) [''a_b_'', ''a_'']"
    by (auto simp: iter_order_def table_ops)
  moreover have "LookupPrefix ?t [''a_'', ''a_b_''] ''a_b_x'' \<noteq> LookupPrefix ?t [''a_b_'', ''a_''] ''a_b_x''"
    by (simp add: LookupPrefix_def table_ops HasPrefix_def route_of_def sample_server_def)
  ultimately show ?thesis by blast
qed

end
