(* ===== verification/Upstream_Manager.thy ===== *)
theory Upstream_Manager
  imports Gateway_Server Gateway_Config Routing_Table
begin

text \<open>
  The connection to one upstream MCP server (\<open>internal/broker/upstream/mcp.go\<close>) and the manager
  that keeps its tools and prompts on the gateway (\<open>internal/broker/upstream/manager.go\<close>).
  Tools and prompts are handled by the same steps, so what they share is stated once for items with
  a name.
\<close>

section \<open>Named items\<close>

text \<open>A map filled from a slice by name, where a later item replaces an earlier one of its name.\<close>

definition by_name :: "('i \<Rightarrow> string) \<Rightarrow> 'i list \<Rightarrow> 'i gomap" where
  "by_name nm xs = fold (\<lambda>x m. m(nm x \<mapsto> x)) xs emptymap"

definition name_keys :: "('i \<Rightarrow> string) \<Rightarrow> 'i list \<Rightarrow> string list" where
  "name_keys nm xs = remdups (map nm xs)"

text \<open>
  The four fields that the manager has for its tools, and again for its prompts: the items of the
  upstream, their map by name, their map by served name, and the served items.
\<close>

record ('i, 'g) listing =
  li_items :: "'i list"
  li_map :: "'i gomap"
  li_served :: "'i gomap"
  li_server :: "'g list"

definition empty_listing :: "('i, 'g) listing" where
  "empty_listing = \<lparr>li_items = [], li_map = emptymap, li_served = emptymap, li_server = []\<rparr>"

text \<open>\<open>ord\<close> is the traversal of a map with the given keys.\<close>

definition diff_items ::
  "('i \<Rightarrow> string) \<Rightarrow> (string \<Rightarrow> string) \<Rightarrow> ('i \<Rightarrow> 'g) \<Rightarrow> (string list \<Rightarrow> string list) \<Rightarrow>
   'i list \<Rightarrow> 'i list \<Rightarrow> 'g list \<times> string list" where
  "diff_items nm served stamp ord old new =
     (map stamp (List.map_filter (by_name nm new)
        (filter (\<lambda>n. by_name nm old n = None) (ord (name_keys nm new)))),
      map served (filter (\<lambda>n. by_name nm new n = None) (ord (name_keys nm old))))"

definition update_listing ::
  "('i \<Rightarrow> string) \<Rightarrow> ('g \<Rightarrow> string) \<Rightarrow> (string \<Rightarrow> string) \<Rightarrow> 'i list \<Rightarrow> 'g list \<Rightarrow> string list \<Rightarrow>
   ('i, 'g) listing \<Rightarrow> ('i, 'g) listing" where
  "update_listing nm gnm served fetched toAdd toRemove l =
     \<lparr>li_items = fetched, li_map = by_name nm fetched, li_served = by_name (\<lambda>x. served (nm x)) fetched,
      li_server = filter (\<lambda>g. gnm g \<notin> set toRemove) (li_server l) @ toAdd\<rparr>"

text \<open>The names of new items that the gateway already has from another server.\<close>

definition conflicts :: "('g \<Rightarrow> string) \<Rightarrow> ('g \<Rightarrow> string option) \<Rightarrow> string \<Rightarrow> 'g gomap \<Rightarrow> 'g list \<Rightarrow> string list" where
  "conflicts gnm owner sid existing items =
     map gnm (filter (\<lambda>g. case existing (gnm g) of
                            None \<Rightarrow> False
                          | Some e \<Rightarrow> (case owner e of None \<Rightarrow> False | Some i \<Rightarrow> i \<noteq> sid)) items)"

definition line_feed :: string where "line_feed = [CHR 0x0A]"

section \<open>The upstream connection\<close>

record InitializeResult =
  ir_ProtocolVersion :: string
  ir_Prompts :: "bool option"
  ir_Tools :: "bool option"
  ir_Capabilities :: bool

record upstreamMCP =
  up_cfg :: MCPServer
  up_headers :: "string gomap"
  up_gatewayCACertPEM :: string
  up_session :: bool
  up_init :: "InitializeResult option"
  up_toolHints :: "ToolAnnotation gomap"

text \<open>
  What a pass of the manager meets: the outcome of connecting, pinging, closing and listing at the
  upstream (an error or a result, where a listing may hold nil entries), the hints read from the
  tool listing, the clock, the certificate parser, the traversal of maps and the library's backoff.
\<close>

record Backoff =
  bo_Duration :: duration
  bo_Factor :: nat
  bo_Jitter :: "nat \<times> nat"
  bo_Steps :: nat
  bo_Cap :: duration

record probe =
  pr_Now :: time
  pr_PEM :: "string \<Rightarrow> bool"
  pr_Connect :: "string + InitializeResult"
  pr_Ping :: "string option"
  pr_ListTools :: "string + Tool option list"
  pr_Hints :: "ToolAnnotation gomap option"
  pr_ListPrompts :: "string + Prompt option list"
  pr_Order :: "string list \<Rightarrow> string list"
  pr_Step :: "Backoff \<Rightarrow> duration \<times> Backoff"

definition NewUpstreamMCP :: "MCPServer \<Rightarrow> string \<Rightarrow> upstreamMCP" where
  "NewUpstreamMCP cfg gatewayCACertPEM =
     \<lparr>up_cfg = cfg,
      up_headers =
        (let h = [''user-agent'' \<mapsto> ''mcp-broker'', ''gateway-server-id'' \<mapsto> server_ID cfg,
                  ''x-client-id'' \<mapsto> ''broker'']
         in if srv_Credential cfg \<noteq> [] then h(''Authorization'' \<mapsto> srv_Credential cfg) else h),
      up_gatewayCACertPEM = gatewayCACertPEM, up_session = False, up_init = None,
      up_toolHints = emptymap\<rparr>"

text \<open>The bundles added to the trust pool, or the error; None is the default transport.\<close>

definition buildHTTPClient :: "(string \<Rightarrow> bool) \<Rightarrow> upstreamMCP \<Rightarrow> string + string list option" where
  "buildHTTPClient pem up =
     (let gw = up_gatewayCACertPEM up; ca = srv_CACert (up_cfg up)
      in if gw = [] \<and> ca = [] then Inr None
         else if gw \<noteq> [] \<and> \<not> pem gw then Inl ''failed to parse gateway CA certificate bundle PEM''
         else if ca \<noteq> [] \<and> \<not> pem ca
         then Inl (''failed to parse CA certificate PEM for upstream '' @ srv_Name (up_cfg up))
         else Inr (Some (filter (\<lambda>p. p \<noteq> []) [gw, ca])))"

definition storeToolHints :: "ToolAnnotation gomap \<Rightarrow> upstreamMCP \<Rightarrow> upstreamMCP" where
  "storeToolHints raw up =
     up\<lparr>up_toolHints :=
       (\<lambda>served. case CutPrefix served (srv_Prefix (up_cfg up)) of
                   (name, True) \<Rightarrow> raw name
                 | _ \<Rightarrow> None)\<rparr>"

definition GetToolHints :: "upstreamMCP \<Rightarrow> string \<Rightarrow> ToolAnnotation option" where
  "GetToolHints up served = up_toolHints up served"

definition IsEnabled :: "upstreamMCP \<Rightarrow> bool" where
  "IsEnabled up \<longleftrightarrow> srv_State (up_cfg up) = [] \<or> srv_State (up_cfg up) = ''Enabled''"

definition SupportsPrompts :: "upstreamMCP \<Rightarrow> bool" where
  "SupportsPrompts up =
     (case up_init up of None \<Rightarrow> False | Some i \<Rightarrow> ir_Capabilities i \<and> ir_Prompts i \<noteq> None)"

definition SupportsPromptsListChanged :: "upstreamMCP \<Rightarrow> bool" where
  "SupportsPromptsListChanged up =
     (case up_init up of
        None \<Rightarrow> False
      | Some i \<Rightarrow> ir_Capabilities i \<and> (case ir_Prompts i of None \<Rightarrow> False | Some b \<Rightarrow> b))"

definition SupportsToolsListChanged :: "upstreamMCP \<Rightarrow> bool" where
  "SupportsToolsListChanged up =
     (case up_init up of
        None \<Rightarrow> False
      | Some i \<Rightarrow> ir_Capabilities i \<and> (case ir_Tools i of None \<Rightarrow> False | Some b \<Rightarrow> b))"

definition Connect :: "probe \<Rightarrow> upstreamMCP \<Rightarrow> upstreamMCP \<times> string option" where
  "Connect pr up =
     (if up_session up then (up, None)
      else
        case buildHTTPClient (pr_PEM pr) up of
          Inl e \<Rightarrow> (up, Some (''failed to build HTTP client: '' @ e))
        | Inr _ \<Rightarrow>
            (case pr_Connect pr of
               Inl e \<Rightarrow>
                 (up, Some (''failed to connect client for upstream '' @ server_ID (up_cfg up) @ '' : '' @ e))
             | Inr i \<Rightarrow> (up\<lparr>up_session := True, up_init := Some i\<rparr>, None)))"

definition Disconnect :: "upstreamMCP \<Rightarrow> upstreamMCP" where
  "Disconnect up = up\<lparr>up_session := False\<rparr>"

definition Ping :: "probe \<Rightarrow> upstreamMCP \<Rightarrow> string option" where
  "Ping pr up = (if up_session up then pr_Ping pr else Some ''client not connected'')"

definition upstream_ListTools :: "probe \<Rightarrow> upstreamMCP \<Rightarrow> upstreamMCP \<times> (string + Tool option list)" where
  "upstream_ListTools pr up =
     (if up_session up
      then (case pr_Hints pr of None \<Rightarrow> up | Some h \<Rightarrow> storeToolHints h up, pr_ListTools pr)
      else (up, Inl ''client not connected''))"

definition upstream_ListPrompts :: "probe \<Rightarrow> upstreamMCP \<Rightarrow> string + Prompt option list" where
  "upstream_ListPrompts pr up =
     (if up_session up then pr_ListPrompts pr else Inl ''client not connected'')"

text \<open>A copy of the configuration without its authentication settings.\<close>

definition GetConfig :: "upstreamMCP \<Rightarrow> MCPServer" where
  "GetConfig up = (up_cfg up)\<lparr>srv_Auth := None\<rparr>"

section \<open>The manager\<close>

datatype eventType = eventTypeTimer | eventTypeToolNotification | eventTypePromptNotification
datatype InvalidToolPolicy = FilterOut | RejectServer

record ProtocolValidation =
  pv_IsValid :: bool
  pv_SupportedVersion :: string
  pv_ExpectedVersion :: string

record ServerValidationStatus =
  st_ID :: string
  st_Name :: string
  st_LastValidated :: time
  st_Message :: string
  st_Ready :: bool
  st_TotalTools :: nat
  st_TotalPrompts :: nat
  st_InvalidTools :: nat
  st_InvalidToolList :: "InvalidToolInfo list"
  st_InvalidPrompts :: nat
  st_InvalidPromptList :: "InvalidToolInfo list"
  st_ProtocolValidation :: ProtocolValidation

text \<open>
  The ticker is the interval it was last armed with. The two event channels hold at most one event
  each. The gateway serves as the registry of the tools and of the prompts.
\<close>

record MCPManager =
  mm_mcp :: upstreamMCP
  mm_ticker :: duration
  mm_tickerInterval :: duration
  mm_backoff :: Backoff
  mm_baseBackoff :: Backoff
  mm_tools :: "(Tool, GatewayTool) listing"
  mm_prompts :: "(Prompt, GatewayPrompt) listing"
  mm_policy :: InvalidToolPolicy
  mm_toolEvents :: bool
  mm_promptEvents :: bool
  mm_status :: ServerValidationStatus
  mm_failures :: nat

definition DefaultTickerInterval :: duration where "DefaultTickerInterval = 60 * 1000000000"
definition maxConsecutiveFailures :: nat where "maxConsecutiveFailures = 3"
definition expectedProtocolVersion :: string where "expectedProtocolVersion = ''2025-11-25''"
definition notificationToolsListChanged :: string where
  "notificationToolsListChanged = ''notifications/tools/list_changed''"
definition notificationPromptsListChanged :: string where
  "notificationPromptsListChanged = ''notifications/prompts/list_changed''"

definition empty_status :: ServerValidationStatus where
  "empty_status =
     \<lparr>st_ID = [], st_Name = [], st_LastValidated = 0, st_Message = [], st_Ready = False,
      st_TotalTools = 0, st_TotalPrompts = 0, st_InvalidTools = 0, st_InvalidToolList = [],
      st_InvalidPrompts = 0, st_InvalidPromptList = [],
      st_ProtocolValidation = \<lparr>pv_IsValid = False, pv_SupportedVersion = [], pv_ExpectedVersion = []\<rparr>\<rparr>"

definition NewUpstreamMCPManager :: "upstreamMCP \<Rightarrow> duration \<Rightarrow> InvalidToolPolicy \<Rightarrow> MCPManager" where
  "NewUpstreamMCPManager upstr tickerInterval policy =
     (let ti = (if tickerInterval \<le> 0 then DefaultTickerInterval else tickerInterval);
          bo = \<lparr>bo_Duration = 1000000000, bo_Factor = 2, bo_Jitter = (1, 10), bo_Steps = 10, bo_Cap = ti\<rparr>
      in \<lparr>mm_mcp = upstr, mm_ticker = ti, mm_tickerInterval = ti, mm_backoff = bo, mm_baseBackoff = bo,
          mm_tools = empty_listing, mm_prompts = empty_listing, mm_policy = policy,
          mm_toolEvents = False, mm_promptEvents = False, mm_status = empty_status, mm_failures = 0\<rparr>)"

definition manager_ID :: "MCPManager \<Rightarrow> string" where
  "manager_ID man = server_ID (up_cfg (mm_mcp man))"

definition manager_prefix :: "MCPManager \<Rightarrow> string" where
  "manager_prefix man = srv_Prefix (up_cfg (mm_mcp man))"

definition MCPName :: "MCPManager \<Rightarrow> string" where
  "MCPName man = srv_Name (up_cfg (mm_mcp man))"

text \<open>The callback for notifications: an event is dropped when one of its kind is waiting.\<close>

definition on_notification :: "string \<Rightarrow> MCPManager \<Rightarrow> MCPManager" where
  "on_notification meth man =
     (if meth = notificationToolsListChanged then man\<lparr>mm_toolEvents := True\<rparr>
      else if meth = notificationPromptsListChanged then man\<lparr>mm_promptEvents := True\<rparr>
      else man)"

definition shouldFetchTools :: "eventType \<Rightarrow> bool" where
  "shouldFetchTools event \<longleftrightarrow> event = eventTypeTimer \<or> event = eventTypeToolNotification"

definition shouldFetchPrompts :: "eventType \<Rightarrow> bool" where
  "shouldFetchPrompts event \<longleftrightarrow> event = eventTypeTimer \<or> event = eventTypePromptNotification"

definition setStatus ::
  "time \<Rightarrow> string option \<Rightarrow> nat \<Rightarrow> nat \<Rightarrow> InvalidToolInfo list \<Rightarrow> InvalidToolInfo list \<Rightarrow> MCPManager \<Rightarrow> MCPManager" where
  "setStatus now err toolCount promptCount invalidTools invalidPrompts man =
     (let st = (mm_status man)\<lparr>st_ID := manager_ID man, st_LastValidated := now, st_Name := MCPName man,
                 st_InvalidTools := length invalidTools, st_InvalidToolList := invalidTools,
                 st_InvalidPrompts := length invalidPrompts, st_InvalidPromptList := invalidPrompts\<rparr>
      in man\<lparr>mm_status :=
           (case err of
              Some e \<Rightarrow> st\<lparr>st_Message := e, st_Ready := False\<rparr>
            | None \<Rightarrow>
                st\<lparr>st_TotalTools := toolCount, st_TotalPrompts := promptCount, st_Ready := True,
                   st_Message := ''server added successfully. Total tools added '' @ Itoa toolCount @
                     ''. Total prompts added '' @ Itoa promptCount,
                   st_ProtocolValidation :=
                     (case up_init (mm_mcp man) of
                        None \<Rightarrow> \<lparr>pv_IsValid = False, pv_SupportedVersion = [],
                                  pv_ExpectedVersion = expectedProtocolVersion\<rparr>
                      | Some i \<Rightarrow> \<lparr>pv_IsValid = True, pv_SupportedVersion = ir_ProtocolVersion i,
                                   pv_ExpectedVersion = expectedProtocolVersion\<rparr>)\<rparr>)\<rparr>)"

definition resetBackoff :: "MCPManager \<Rightarrow> MCPManager" where
  "resetBackoff man = man\<lparr>mm_backoff := mm_baseBackoff man, mm_ticker := mm_tickerInterval man\<rparr>"

definition applyBackoff :: "probe \<Rightarrow> MCPManager \<Rightarrow> MCPManager" where
  "applyBackoff pr man =
     (case pr_Step pr (mm_backoff man) of (d, bo) \<Rightarrow> man\<lparr>mm_backoff := bo, mm_ticker := d\<rparr>)"

definition removeAllTools :: "time \<Rightarrow> MCPManager \<times> gatewayServer \<Rightarrow> MCPManager \<times> gatewayServer" where
  "removeAllTools now mg =
     (case mg of (man, g) \<Rightarrow>
        (man\<lparr>mm_tools := empty_listing\<rparr>,
         DeleteTools now (map (\<lambda>t. t_Name (gt_Tool t)) (li_server (mm_tools man))) g))"

definition removeAllPrompts :: "MCPManager \<times> gatewayServer \<Rightarrow> MCPManager \<times> gatewayServer" where
  "removeAllPrompts mg =
     (case mg of (man, g) \<Rightarrow>
        (man\<lparr>mm_prompts := empty_listing\<rparr>,
         DeletePrompts (map (\<lambda>p. p_Name (gp_Prompt p)) (li_server (mm_prompts man))) g))"

definition handleConnectionFailure ::
  "probe \<Rightarrow> string \<Rightarrow> nat \<Rightarrow> nat \<Rightarrow> MCPManager \<times> gatewayServer \<Rightarrow> MCPManager \<times> gatewayServer" where
  "handleConnectionFailure pr err numberOfTools numberOfPrompts mg =
     (case mg of (man0, g0) \<Rightarrow>
        (let man1 = man0\<lparr>mm_failures := Suc (mm_failures man0)\<rparr>;
             (man2, g2) =
               (if mm_failures man1 \<ge> maxConsecutiveFailures
                then removeAllPrompts (removeAllTools (pr_Now pr) (man1, g0))
                else (man1, g0));
             man3 = man2\<lparr>mm_mcp := Disconnect (mm_mcp man2)\<rparr>
         in (applyBackoff pr (setStatus (pr_Now pr) (Some err) numberOfTools numberOfPrompts [] [] man3), g2)))"

definition toolToServerTool :: "MCPManager \<Rightarrow> Tool \<Rightarrow> GatewayTool" where
  "toolToServerTool man t =
     \<lparr>gt_Tool = t\<lparr>t_Name := prefixedName (manager_prefix man) (t_Name t),
                  t_Meta := Some [(gatewayServerID, JStr (manager_ID man))]\<rparr>,
      gt_Handler = NoopHandler\<rparr>"

definition promptToServerPrompt :: "MCPManager \<Rightarrow> Prompt \<Rightarrow> GatewayPrompt" where
  "promptToServerPrompt man p =
     \<lparr>gp_Prompt = p\<lparr>p_Name := prefixedName (manager_prefix man) (p_Name p),
                    p_Meta := Some [(gatewayServerID, JStr (manager_ID man))]\<rparr>,
      gp_Handler = NoopHandler\<rparr>"

definition diffTools :: "probe \<Rightarrow> MCPManager \<Rightarrow> Tool list \<Rightarrow> Tool list \<Rightarrow> GatewayTool list \<times> string list" where
  "diffTools pr man oldTools newTools =
     diff_items t_Name (prefixedName (manager_prefix man)) (toolToServerTool man) (pr_Order pr) oldTools newTools"

definition diffPrompts ::
  "probe \<Rightarrow> MCPManager \<Rightarrow> Prompt list \<Rightarrow> Prompt list \<Rightarrow> GatewayPrompt list \<times> string list" where
  "diffPrompts pr man oldPrompts newPrompts =
     diff_items p_Name (prefixedName (manager_prefix man)) (promptToServerPrompt man) (pr_Order pr)
       oldPrompts newPrompts"

definition tool_owner :: "GatewayTool \<Rightarrow> string option" where
  "tool_owner g = meta_owner (t_Meta (gt_Tool g))"

definition prompt_owner :: "GatewayPrompt \<Rightarrow> string option" where
  "prompt_owner g = meta_owner (p_Meta (gp_Prompt g))"

text \<open>The verb \<open>%v\<close> of a slice of strings.\<close>

definition show_names :: "string list \<Rightarrow> string" where
  "show_names ns = ''['' @ Join ns '' '' @ '']''"

definition findToolConflicts :: "MCPManager \<Rightarrow> gatewayServer \<Rightarrow> GatewayTool list \<Rightarrow> string option" where
  "findToolConflicts man g tools =
     (let names = conflicts (\<lambda>t. t_Name (gt_Tool t)) tool_owner (manager_ID man) (ListTools g) tools
      in if names \<noteq> []
         then Some (''conflicting tools discovered. conflicting tool names '' @ show_names names)
         else None)"

definition findPromptConflicts :: "MCPManager \<Rightarrow> gatewayServer \<Rightarrow> GatewayPrompt list \<Rightarrow> string option" where
  "findPromptConflicts man g prompts =
     (let names = conflicts (\<lambda>p. p_Name (gp_Prompt p)) prompt_owner (manager_ID man) (ListPrompts g) prompts
      in if names \<noteq> []
         then Some (''conflicting prompts discovered. conflicting prompt names '' @ show_names names)
         else None)"

definition getTools :: "probe \<Rightarrow> MCPManager \<Rightarrow> MCPManager \<times> (string + Tool list)" where
  "getTools pr man =
     (case upstream_ListTools pr (mm_mcp man) of
        (up, Inl e) \<Rightarrow> (man\<lparr>mm_mcp := up\<rparr>, Inl (''failed to get tools: '' @ e))
      | (up, Inr ts) \<Rightarrow> (man\<lparr>mm_mcp := up\<rparr>, Inr (List.map_filter id ts)))"

definition getPrompts :: "probe \<Rightarrow> MCPManager \<Rightarrow> string + Prompt list" where
  "getPrompts pr man =
     (case upstream_ListPrompts pr (mm_mcp man) of
        Inl e \<Rightarrow> Inl (''failed to get prompts: '' @ e)
      | Inr ps \<Rightarrow> Inr (List.map_filter id ps))"

text \<open>The registration of a fetched and validated listing: an error, or the new number of items.\<close>

definition register_tools ::
  "probe \<Rightarrow> Tool list \<Rightarrow> MCPManager \<times> gatewayServer \<Rightarrow> (MCPManager \<times> gatewayServer) \<times> string option" where
  "register_tools pr fetched mg =
     (case mg of (man, g) \<Rightarrow>
        (let (toAdd, toRemove) = diffTools pr man (li_items (mm_tools man)) fetched
         in case findToolConflicts man g toAdd of
              Some e \<Rightarrow> (mg, Some (''upstream mcp failed to add tools to gateway '' @ manager_ID man @ '' : '' @ e))
            | None \<Rightarrow>
                ((man\<lparr>mm_tools := update_listing t_Name (\<lambda>t. t_Name (gt_Tool t))
                        (prefixedName (manager_prefix man)) fetched toAdd toRemove (mm_tools man)\<rparr>,
                  AddTools (pr_Now pr) toAdd (DeleteTools (pr_Now pr) toRemove g)), None)))"

definition register_prompts ::
  "probe \<Rightarrow> Prompt list \<Rightarrow> MCPManager \<times> gatewayServer \<Rightarrow> (MCPManager \<times> gatewayServer) \<times> string option" where
  "register_prompts pr fetched mg =
     (case mg of (man, g) \<Rightarrow>
        (let (toAdd, toRemove) = diffPrompts pr man (li_items (mm_prompts man)) fetched
         in case findPromptConflicts man g toAdd of
              Some e \<Rightarrow> (mg, Some (''upstream mcp failed to add prompts to gateway '' @ manager_ID man @ '' : '' @ e))
            | None \<Rightarrow>
                ((man\<lparr>mm_prompts := update_listing p_Name (\<lambda>p. p_Name (gp_Prompt p))
                        (prefixedName (manager_prefix man)) fetched toAdd toRemove (mm_prompts man)\<rparr>,
                  AddPrompts toAdd (DeletePrompts toRemove g)), None)))"

definition fetch_tools ::
  "probe \<Rightarrow> MCPManager \<times> gatewayServer \<Rightarrow> (MCPManager \<times> gatewayServer) \<times> string option \<times> InvalidToolInfo list" where
  "fetch_tools pr mg =
     (case mg of (man0, g) \<Rightarrow>
        (case getTools pr man0 of
           (man, Inl e) \<Rightarrow>
             ((man, g), Some (''upstream mcp failed to list tools server '' @ manager_ID man @ '' : '' @ e), [])
         | (man, Inr fetched) \<Rightarrow>
             (case ValidateTools fetched of
                (valid, invalids) \<Rightarrow>
                  if invalids \<noteq> [] \<and> mm_policy man = RejectServer
                  then (removeAllTools (pr_Now pr) (man, g),
                        Some (''upstream mcp '' @ manager_ID man @ '' rejected: '' @ Itoa (length invalids) @
                              '' invalid tools found''), invalids)
                  else (case register_tools pr (if invalids \<noteq> [] then valid else fetched) (man, g) of
                          (mg', err) \<Rightarrow> (mg', err, invalids)))))"

definition fetch_prompts ::
  "probe \<Rightarrow> MCPManager \<times> gatewayServer \<Rightarrow> (MCPManager \<times> gatewayServer) \<times> string option \<times> InvalidToolInfo list" where
  "fetch_prompts pr mg =
     (case mg of (man, g) \<Rightarrow>
        (case getPrompts pr man of
           Inl e \<Rightarrow> (mg, Some (''upstream mcp failed to list prompts server '' @ manager_ID man @ '' : '' @ e), [])
         | Inr fetched \<Rightarrow>
             (case ValidatePrompts fetched of
                (valid, invalids) \<Rightarrow>
                  (case register_prompts pr (if invalids \<noteq> [] then valid else fetched) mg of
                     (mg', err) \<Rightarrow> (mg', err, invalids)))))"

definition join_errors :: "string option \<Rightarrow> string option \<Rightarrow> string option" where
  "join_errors a b =
     (case (a, b) of
        (None, e) \<Rightarrow> e
      | (e, None) \<Rightarrow> e
      | (Some x, Some y) \<Rightarrow> Some (x @ line_feed @ y))"

definition manage_disabled :: "probe \<Rightarrow> MCPManager \<times> gatewayServer \<Rightarrow> MCPManager \<times> gatewayServer" where
  "manage_disabled pr mg =
     (case removeAllPrompts (removeAllTools (pr_Now pr) mg) of
        (man, g) \<Rightarrow>
          (setStatus (pr_Now pr) (Some ''server is disabled'') 0 0 [] []
             (man\<lparr>mm_mcp := Disconnect (mm_mcp man), mm_failures := 0\<rparr>), g))"

definition manage_userSpecific :: "probe \<Rightarrow> MCPManager \<Rightarrow> MCPManager" where
  "manage_userSpecific pr man =
     resetBackoff (man\<lparr>mm_status := (mm_status man)\<lparr>st_ID := manager_ID man, st_LastValidated := pr_Now pr,
       st_Name := MCPName man, st_Ready := True,
       st_Message := ''userSpecificList server healthy, tools fetched per-user''\<rparr>\<rparr>)"

definition manage_listings ::
  "probe \<Rightarrow> eventType \<Rightarrow> nat \<Rightarrow> nat \<Rightarrow> MCPManager \<times> gatewayServer \<Rightarrow> MCPManager \<times> gatewayServer" where
  "manage_listings pr event numberOfTools numberOfPrompts mg =
     (let (mg1, toolErr, invalidTools) =
            (if shouldFetchTools event then fetch_tools pr mg else (mg, None, []));
          nt = (if shouldFetchTools event \<and> toolErr = None then length (li_items (mm_tools (fst mg1)))
                else numberOfTools);
          fetchP = SupportsPrompts (mm_mcp (fst mg1)) \<and> shouldFetchPrompts event;
          (mg2, promptErr, invalidPrompts) = (if fetchP then fetch_prompts pr mg1 else (mg1, None, []));
          np = (if fetchP \<and> promptErr = None then length (li_items (mm_prompts (fst mg2)))
                else numberOfPrompts);
          jointErr = join_errors toolErr promptErr;
          man = setStatus (pr_Now pr) jointErr nt np invalidTools invalidPrompts (fst mg2)
      in (if jointErr \<noteq> None then applyBackoff pr man else resetBackoff man, snd mg2))"

definition manage :: "probe \<Rightarrow> eventType \<Rightarrow> MCPManager \<times> gatewayServer \<Rightarrow> MCPManager \<times> gatewayServer" where
  "manage pr event mg =
     (case mg of (man0, g) \<Rightarrow>
        if \<not> IsEnabled (mm_mcp man0) then manage_disabled pr mg
        else
          (let nt = length (li_items (mm_tools man0)); np = length (li_items (mm_prompts man0))
           in case Connect pr (mm_mcp man0) of
                (up, Some e) \<Rightarrow>
                  handleConnectionFailure pr
                    (''failed to connect to upstream mcp '' @ manager_ID man0 @ '' : '' @ e) nt np
                    (man0\<lparr>mm_mcp := up\<rparr>, g)
              | (up, None) \<Rightarrow>
                  (case Ping pr up of
                     Some e \<Rightarrow>
                       handleConnectionFailure pr
                         (''upstream mcp failed to ping server '' @ manager_ID man0 @ '' : '' @ e) nt np
                         (man0\<lparr>mm_mcp := up\<rparr>, g)
                   | None \<Rightarrow>
                       (let man = man0\<lparr>mm_mcp := up, mm_failures := 0\<rparr>
                        in if srv_UserSpecificList (GetConfig up) then (manage_userSpecific pr man, g)
                           else manage_listings pr event nt np (man, g)))))"

text \<open>One round of the event loop, and its end.\<close>

definition take_event :: "eventType \<Rightarrow> MCPManager \<Rightarrow> MCPManager" where
  "take_event event man =
     (case event of
        eventTypeTimer \<Rightarrow> man
      | eventTypeToolNotification \<Rightarrow> man\<lparr>mm_toolEvents := False\<rparr>
      | eventTypePromptNotification \<Rightarrow> man\<lparr>mm_promptEvents := False\<rparr>)"

definition loop_round ::
  "probe \<Rightarrow> eventType \<Rightarrow> MCPManager \<times> gatewayServer \<Rightarrow> MCPManager \<times> gatewayServer" where
  "loop_round pr event mg = manage pr event (take_event event (fst mg), snd mg)"

definition loop_stop :: "time \<Rightarrow> MCPManager \<times> gatewayServer \<Rightarrow> MCPManager \<times> gatewayServer" where
  "loop_stop now mg =
     (case mg of (man, g) \<Rightarrow>
        removeAllTools now (removeAllPrompts (man\<lparr>mm_mcp := Disconnect (mm_mcp man)\<rparr>, g)))"

definition GetManagedTools :: "MCPManager \<Rightarrow> Tool list" where
  "GetManagedTools man = li_items (mm_tools man)"

definition GetServedManagedTool :: "MCPManager \<Rightarrow> string \<Rightarrow> Tool option" where
  "GetServedManagedTool man n = li_served (mm_tools man) n"

definition GetManagedPrompts :: "MCPManager \<Rightarrow> Prompt list" where
  "GetManagedPrompts man = li_items (mm_prompts man)"

definition GetServedManagedPrompt :: "MCPManager \<Rightarrow> string \<Rightarrow> Prompt option" where
  "GetServedManagedPrompt man n = li_served (mm_prompts man) n"

definition GetStatus :: "MCPManager \<Rightarrow> ServerValidationStatus" where
  "GetStatus man = mm_status man"
end
