(* ===== verification/Upstream_Correct.thy ===== *)
theory Upstream_Correct
  imports Upstream_Manager
begin

text \<open>
  What the managers of the upstream servers do to the gateway they share. A locale holds the facts
  about a registry of named and owned items once; it is interpreted for the tools and for the
  prompts of the gateway.
\<close>

section \<open>Listings and the registry of the gateway\<close>

lemma by_name_lookup: "by_name nm xs k = find (\<lambda>x. nm x = k) (rev xs)"
proof -
  have "fold (\<lambda>x m. m(nm x \<mapsto> x)) xs m k = (case find (\<lambda>x. nm x = k) (rev xs) of None \<Rightarrow> m k | Some x \<Rightarrow> Some x)" for m
  proof (induction xs rule: rev_induct)
    case (snoc x xs)
    then show ?case by (simp split: option.split)
  qed simp
  from this[of emptymap] show ?thesis by (simp add: by_name_def split: option.split)
qed

lemma by_name_Some: "by_name nm xs k = Some x \<Longrightarrow> x \<in> set xs \<and> nm x = k"
  unfolding by_name_lookup by (metis (mono_tags, lifting) find_Some_iff nth_mem set_rev)

lemma by_name_None: "by_name nm xs k = None \<longleftrightarrow> k \<notin> nm ` set xs"
  by (auto simp: by_name_lookup find_None_iff)

lemma by_name_inj:
  assumes "inj f"
  shows "by_name (\<lambda>x. f (nm x)) xs (f k) = by_name nm xs k"
  using assms by (simp add: by_name_lookup inj_eq)

text \<open>
  What a registry of named items promises to its clients: items that carry their owner, a name for
  an item on the gateway, and a stamp that puts the owner and the served name on it. \<open>listing_inv\<close>
  says that the gateway has from an owner exactly the items of the owner's listing.
\<close>

definition listing_inv ::
  "('i \<Rightarrow> string) \<Rightarrow> ('g \<Rightarrow> string) \<Rightarrow> ('g \<Rightarrow> string option) \<Rightarrow> string \<Rightarrow> string \<Rightarrow>
   ('i, 'g) listing \<Rightarrow> 'g gomap \<Rightarrow> bool" where
  "listing_inv nm gnm owner pfx sid l m \<longleftrightarrow>
     gnm ` set (li_server l) = (\<lambda>x. pfx @ nm x) ` set (li_items l) \<and>
     li_served l = by_name (\<lambda>x. pfx @ nm x) (li_items l) \<and>
     (\<forall>g \<in> set (li_server l). m (gnm g) = Some g \<and> owner g = Some sid) \<and>
     (\<forall>n g. m n = Some g \<and> owner g = Some sid \<longrightarrow> g \<in> set (li_server l) \<and> gnm g = n)"

definition put_all :: "('g \<Rightarrow> string) \<Rightarrow> 'g list \<Rightarrow> 'g gomap \<Rightarrow> 'g gomap" where
  "put_all gnm gs m = fold (\<lambda>g m. m(gnm g \<mapsto> g)) gs m"

definition traversal :: "(string list \<Rightarrow> string list) \<Rightarrow> bool" where
  "traversal ord \<longleftrightarrow> (\<forall>ks. distinct ks \<longrightarrow> distinct (ord ks) \<and> set (ord ks) = set ks)"

lemma put_all_other: "n \<notin> gnm ` set gs \<Longrightarrow> put_all gnm gs m n = m n"
  unfolding put_all_def by (induction gs arbitrary: m) auto

lemma put_all_in:
  "distinct (map gnm gs) \<Longrightarrow> g \<in> set gs \<Longrightarrow> put_all gnm gs m (gnm g) = Some g"
proof (induction gs arbitrary: m)
  case (Cons h gs)
  then show ?case
    using put_all_other[of "gnm h" gnm gs "m(gnm h \<mapsto> h)"] by (auto simp: put_all_def)
qed simp

lemma put_all_cases:
  assumes "distinct (map gnm gs)" and "put_all gnm gs m n = Some g"
  shows "g \<in> set gs \<and> gnm g = n \<or> n \<notin> gnm ` set gs \<and> m n = Some g"
proof (cases "n \<in> gnm ` set gs")
  case True
  then obtain h where "h \<in> set gs" "gnm h = n" by auto
  then show ?thesis using put_all_in[OF assms(1), of h m] assms(2) by auto
next
  case False
  then show ?thesis using put_all_other[OF False, of m] assms(2) by simp
qed

lemma name_keys: "distinct (name_keys nm xs)" "set (name_keys nm xs) = nm ` set xs"
  by (simp_all add: name_keys_def)

locale registry =
  fixes nm :: "'i \<Rightarrow> string"
    and gnm :: "'g \<Rightarrow> string"
    and owner :: "'g \<Rightarrow> string option"
    and stamp :: "string \<Rightarrow> string \<Rightarrow> 'i \<Rightarrow> 'g"
  assumes gnm_stamp: "gnm (stamp pfx sid x) = pfx @ nm x"
    and owner_stamp: "owner (stamp pfx sid x) = Some sid"
begin

abbreviation inv :: "string \<Rightarrow> string \<Rightarrow> ('i, 'g) listing \<Rightarrow> 'g gomap \<Rightarrow> bool" where
  "inv \<equiv> listing_inv nm gnm owner"

abbreviation difference ::
  "string \<Rightarrow> string \<Rightarrow> (string list \<Rightarrow> string list) \<Rightarrow> 'i list \<Rightarrow> 'i list \<Rightarrow> 'g list \<times> string list" where
  "difference pfx sid ord old new \<equiv> diff_items nm ((@) pfx) (stamp pfx sid) ord old new"

lemma toRemove_set:
  assumes "traversal ord"
  shows "set (snd (difference pfx sid ord old new)) = {pfx @ n | n. n \<in> nm ` set old \<and> n \<notin> nm ` set new}"
  using assms name_keys[of nm old] by (auto simp: diff_items_def traversal_def by_name_None)

lemma toAdd_set:
  assumes "traversal ord"
  shows "set (fst (difference pfx sid ord old new)) =
    {stamp pfx sid x | x. by_name nm new (nm x) = Some x \<and> nm x \<notin> nm ` set old}"
proof -
  have ks: "set (ord (name_keys nm new)) = nm ` set new"
    using assms name_keys[of nm new] by (auto simp: traversal_def)
  have "(\<exists>n \<in> nm ` set new. n \<notin> nm ` set old \<and> by_name nm new n = Some x) \<longleftrightarrow>
      by_name nm new (nm x) = Some x \<and> nm x \<notin> nm ` set old" (is "?a \<longleftrightarrow> ?b") for x
  proof
    assume ?a
    then obtain n where n: "n \<notin> nm ` set old" "by_name nm new n = Some x" by blast
    then show ?b using by_name_Some[OF n(2)] by simp
  next
    assume ?b
    then show ?a using by_name_Some[of nm new "nm x" x] by auto
  qed
  then have "{x. \<exists>n \<in> nm ` set new. n \<notin> nm ` set old \<and> by_name nm new n = Some x} =
      {x. by_name nm new (nm x) = Some x \<and> nm x \<notin> nm ` set old}" by (rule Collect_cong)
  moreover have "set (fst (difference pfx sid ord old new)) =
      stamp pfx sid ` {x. \<exists>n \<in> nm ` set new. n \<notin> nm ` set old \<and> by_name nm new n = Some x}"
    unfolding diff_items_def fst_conv set_map set_map_filter set_filter ks by_name_None by blast
  ultimately show ?thesis by (simp only:) blast
qed

lemma toAdd_names:
  assumes "traversal ord"
  shows "gnm ` set (fst (difference pfx sid ord old new)) = {pfx @ n | n. n \<in> nm ` set new \<and> n \<notin> nm ` set old}"
    (is "?lhs = ?rhs")
proof
  show "?lhs \<subseteq> ?rhs"
  proof
    fix s
    assume "s \<in> ?lhs"
    then obtain x where x: "by_name nm new (nm x) = Some x" "nm x \<notin> nm ` set old" "s = pfx @ nm x"
      unfolding toAdd_set[OF assms] by (auto simp: gnm_stamp)
    then have "nm x \<in> nm ` set new" using by_name_Some[OF x(1)] by blast
    then show "s \<in> ?rhs" using x(2,3) by blast
  qed
  show "?rhs \<subseteq> ?lhs"
  proof
    fix s
    assume "s \<in> ?rhs"
    then obtain n where n: "s = pfx @ n" "n \<in> nm ` set new" "n \<notin> nm ` set old" by blast
    then obtain x where x: "by_name nm new n = Some x" using by_name_None[of nm new n] by auto
    then have "nm x = n" using by_name_Some by metis
    then have "stamp pfx sid x \<in> set (fst (difference pfx sid ord old new))"
      using n x unfolding toAdd_set[OF assms] by blast
    then show "s \<in> ?lhs" using n \<open>nm x = n\<close> gnm_stamp by (metis image_eqI)
  qed
qed

lemma toAdd_distinct:
  assumes "traversal ord"
  shows "distinct (map gnm (fst (difference pfx sid ord old new)))"
proof -
  let ?ks = "filter (\<lambda>n. by_name nm old n = None) (ord (name_keys nm new))"
  have "distinct (ord (name_keys nm new))" using assms name_keys[of nm new] by (simp add: traversal_def)
  moreover have "map (gnm \<circ> stamp pfx sid) (List.map_filter (by_name nm new) ks) =
      map ((@) pfx) (filter (\<lambda>n. by_name nm new n \<noteq> None) ks)" for ks
    by (induction ks) (auto simp: map_filter_simps gnm_stamp dest: by_name_Some split: option.splits)
  ultimately show ?thesis by (simp add: diff_items_def distinct_map inj_on_def)
qed

lemma invD:
  assumes "inv pfx sid l m"
  shows "gnm ` set (li_server l) = (@) pfx ` nm ` set (li_items l)"
    and "g \<in> set (li_server l) \<Longrightarrow> m (gnm g) = Some g"
    and "g \<in> set (li_server l) \<Longrightarrow> owner g = Some sid"
    and "m n = Some g \<Longrightarrow> owner g = Some sid \<Longrightarrow> g \<in> set (li_server l)"
    and "m n = Some g \<Longrightarrow> owner g = Some sid \<Longrightarrow> gnm g = n"
  using assms by (simp_all add: listing_inv_def image_image)

lemma register_keeps:
  assumes inv: "inv pfx sid l m" and ord: "traversal ord"
    and d: "difference pfx sid ord (li_items l) fetched = (toAdd, toRemove)"
  shows "inv pfx sid (update_listing nm gnm ((@) pfx) fetched toAdd toRemove l)
    (put_all gnm toAdd (delete_keys toRemove m))"
proof -
  let ?m = "put_all gnm toAdd (delete_keys toRemove m)"
  let ?kept = "filter (\<lambda>g. gnm g \<notin> set toRemove) (li_server l)"
  have rem: "set toRemove = {pfx @ n | n. n \<in> nm ` set (li_items l) \<and> n \<notin> nm ` set fetched}"
    using toRemove_set[OF ord, of pfx sid "li_items l" fetched] d by simp
  have add: "gnm ` set toAdd = {pfx @ n | n. n \<in> nm ` set fetched \<and> n \<notin> nm ` set (li_items l)}"
    using toAdd_names[OF ord, of pfx sid "li_items l" fetched] d by simp
  have own: "owner g = Some sid" if "g \<in> set toAdd" for g
    using toAdd_set[OF ord, of pfx sid "li_items l" fetched] d that by (auto simp: owner_stamp)
  have dist: "distinct (map gnm toAdd)"
    using toAdd_distinct[OF ord, of pfx sid "li_items l" fetched] d by simp
  have old: "gnm g \<notin> gnm ` set toAdd" if "g \<in> set (li_server l)" for g
  proof -
    have "gnm g \<in> (@) pfx ` nm ` set (li_items l)" using that invD(1)[OF inv] by blast
    then show ?thesis unfolding add by auto
  qed
  have "gnm ` set (?kept @ toAdd) = (gnm ` set (li_server l) - set toRemove) \<union> gnm ` set toAdd" by auto
  also have "\<dots> = (\<lambda>x. pfx @ nm x) ` set fetched"
    unfolding add rem invD(1)[OF inv] by auto
  finally have 1: "gnm ` set (?kept @ toAdd) = (\<lambda>x. pfx @ nm x) ` set fetched" .
  have 2: "?m (gnm g) = Some g \<and> owner g = Some sid" if "g \<in> set (?kept @ toAdd)" for g
  proof (cases "g \<in> set toAdd")
    case True
    then show ?thesis using put_all_in[OF dist] own by blast
  next
    case False
    then show ?thesis
      using that invD(2,3)[OF inv] put_all_other[OF old] by (simp add: delete_keys_apply)
  qed
  have 3: "g \<in> set (?kept @ toAdd) \<and> gnm g = n" if "?m n = Some g" "owner g = Some sid" for n g
    using put_all_cases[OF dist that(1)]
  proof
    assume "n \<notin> gnm ` set toAdd \<and> delete_keys toRemove m n = Some g"
    then have "m n = Some g" "n \<notin> set toRemove" by (simp_all add: delete_keys_apply split: if_splits)
    then show ?thesis using invD(4,5)[OF inv] that(2) by auto
  qed simp
  show ?thesis
    unfolding listing_inv_def update_listing_def listing.select_convs using 1 2 3 by blast
qed

lemma same_for_others:
  assumes "\<And>n g. owner g = Some sid' \<Longrightarrow> m' n = Some g \<longleftrightarrow> m n = Some g" and "inv pfx' sid' l' m"
  shows "inv pfx' sid' l' m'"
  using assms unfolding listing_inv_def by metis

lemma register_keeps_others:
  assumes inv: "inv pfx sid l m" and ord: "traversal ord"
    and d: "difference pfx sid ord (li_items l) fetched = (toAdd, toRemove)"
    and free: "conflicts gnm owner sid m toAdd = []"
    and other: "inv pfx' sid' l' m" and ne: "sid' \<noteq> sid"
  shows "inv pfx' sid' l' (put_all gnm toAdd (delete_keys toRemove m))"
proof (rule same_for_others[OF _ other])
  fix n g
  assume g: "owner g = Some sid'"
  let ?m = "put_all gnm toAdd (delete_keys toRemove m)"
  have dist: "distinct (map gnm toAdd)"
    using toAdd_distinct[OF ord, of pfx sid "li_items l" fetched] d by simp
  have own: "owner h = Some sid" if "h \<in> set toAdd" for h
    using toAdd_set[OF ord, of pfx sid "li_items l" fetched] d that by (auto simp: owner_stamp)
  have rem: "set toRemove \<subseteq> gnm ` set (li_server l)"
    using toRemove_set[OF ord, of pfx sid "li_items l" fetched] d invD(1)[OF inv] by auto
  show "?m n = Some g \<longleftrightarrow> m n = Some g"
  proof
    assume "?m n = Some g"
    then show "m n = Some g"
      using put_all_cases[OF dist, of "delete_keys toRemove m" n g] own[of g] g ne
      by (auto simp: delete_keys_apply split: if_splits)
  next
    assume m: "m n = Some g"
    have "n \<notin> set toRemove"
    proof
      assume "n \<in> set toRemove"
      then obtain h where "h \<in> set (li_server l)" "gnm h = n" using rem by blast
      then show False using invD(2,3)[OF inv] m g ne by fastforce
    qed
    moreover have "n \<notin> gnm ` set toAdd"
      using free m g ne by (auto simp: conflicts_def filter_empty_conv)
    ultimately show "?m n = Some g" using m by (simp add: put_all_other delete_keys_apply)
  qed
qed

lemma clear_keeps:
  assumes "inv pfx sid l m"
  shows "inv pfx sid empty_listing (delete_keys (map gnm (li_server l)) m)"
proof -
  have "m n \<noteq> Some g \<or> owner g \<noteq> Some sid" if "n \<notin> gnm ` set (li_server l)" for n g
    using invD(4,5)[OF assms] that by blast
  then show ?thesis
    by (simp add: listing_inv_def empty_listing_def by_name_def delete_keys_apply)
qed

lemma clear_keeps_others:
  assumes "inv pfx sid l m" and "inv pfx' sid' l' m" and "sid' \<noteq> sid"
  shows "inv pfx' sid' l' (delete_keys (map gnm (li_server l)) m)"
proof (rule same_for_others[OF _ assms(2)])
  fix n g
  assume g: "owner g = Some sid'"
  have "m n \<noteq> Some g" if served: "n \<in> gnm ` set (li_server l)"
  proof
    assume "m n = Some g"
    moreover obtain h where "h \<in> set (li_server l)" "gnm h = n" using served by blast
    ultimately show False using invD(2,3)[OF assms(1)] g assms(3) by fastforce
  qed
  then show "delete_keys (map gnm (li_server l)) m n = Some g \<longleftrightarrow> m n = Some g"
    by (simp add: delete_keys_apply)
qed

end

subsection \<open>Tools and prompts\<close>

abbreviation tool_name :: "GatewayTool \<Rightarrow> string" where
  "tool_name g \<equiv> t_Name (gt_Tool g)"

abbreviation prompt_name :: "GatewayPrompt \<Rightarrow> string" where
  "prompt_name g \<equiv> p_Name (gp_Prompt g)"

definition tool_stamp :: "string \<Rightarrow> string \<Rightarrow> Tool \<Rightarrow> GatewayTool" where
  "tool_stamp pfx sid t =
     \<lparr>gt_Tool = t\<lparr>t_Name := pfx @ t_Name t, t_Meta := Some [(gatewayServerID, JStr sid)]\<rparr>,
      gt_Handler = NoopHandler\<rparr>"

definition prompt_stamp :: "string \<Rightarrow> string \<Rightarrow> Prompt \<Rightarrow> GatewayPrompt" where
  "prompt_stamp pfx sid p =
     \<lparr>gp_Prompt = p\<lparr>p_Name := pfx @ p_Name p, p_Meta := Some [(gatewayServerID, JStr sid)]\<rparr>,
      gp_Handler = NoopHandler\<rparr>"

interpretation tools: registry t_Name tool_name tool_owner tool_stamp
  by unfold_locales (simp_all add: tool_stamp_def tool_owner_def meta_owner_def)

interpretation prompts: registry p_Name prompt_name prompt_owner prompt_stamp
  by unfold_locales (simp_all add: prompt_stamp_def prompt_owner_def meta_owner_def)

lemma prefixedName_eq: "prefixedName pfx = (@) pfx"
  by (rule ext) simp

lemma stamps:
  "toolToServerTool man = tool_stamp (manager_prefix man) (manager_ID man)"
  "promptToServerPrompt man = prompt_stamp (manager_prefix man) (manager_ID man)"
  by (simp_all add: fun_eq_iff toolToServerTool_def tool_stamp_def promptToServerPrompt_def prompt_stamp_def)

lemma put_tools_fields:
  "gs_tools (put_tools ts g) = put_all tool_name ts (gs_tools g)" "gs_prompts (put_tools ts g) = gs_prompts g"
  by (induction ts g rule: put_tools.induct) (simp_all add: put_all_def)

lemma put_prompts_fields:
  "gs_prompts (put_prompts ps g) = put_all prompt_name ps (gs_prompts g)" "gs_tools (put_prompts ps g) = gs_tools g"
  by (induction ps g rule: put_prompts.induct) (simp_all add: put_all_def)

lemma gateway_fields [simp]:
  "gs_tools (AddTools now ts g) = put_all tool_name ts (gs_tools g)"
  "gs_prompts (AddTools now ts g) = gs_prompts g"
  "gs_tools (DeleteTools now ns g) = delete_keys ns (gs_tools g)"
  "gs_prompts (DeleteTools now ns g) = gs_prompts g"
  "gs_prompts (AddPrompts ps g) = put_all prompt_name ps (gs_prompts g)"
  "gs_tools (AddPrompts ps g) = gs_tools g"
  "gs_prompts (DeletePrompts ns g) = delete_keys ns (gs_prompts g)"
  "gs_tools (DeletePrompts ns g) = gs_tools g"
  by (simp_all add: AddTools_def DeleteTools_def AddPrompts_def DeletePrompts_def tableChange_def
      markBroadcast_def Let_def put_tools_fields put_prompts_fields put_all_def)

definition managed :: "MCPManager \<Rightarrow> gatewayServer \<Rightarrow> bool" where
  "managed man g \<longleftrightarrow>
     tools.inv (manager_prefix man) (manager_ID man) (mm_tools man) (gs_tools g) \<and>
     prompts.inv (manager_prefix man) (manager_ID man) (mm_prompts man) (gs_prompts g)"

text \<open>What every operation of a manager does to the gateway that it shares with other managers.\<close>

definition keeps :: "MCPManager \<times> gatewayServer \<Rightarrow> MCPManager \<times> gatewayServer \<Rightarrow> bool" where
  "keeps mg mg' \<longleftrightarrow>
     up_cfg (mm_mcp (fst mg')) = up_cfg (mm_mcp (fst mg)) \<and>
     (managed (fst mg) (snd mg) \<longrightarrow>
        managed (fst mg') (snd mg') \<and>
        (\<forall>pfx sid l. sid \<noteq> manager_ID (fst mg) \<longrightarrow>
           tools.inv pfx sid l (gs_tools (snd mg)) \<longrightarrow> tools.inv pfx sid l (gs_tools (snd mg'))) \<and>
        (\<forall>pfx sid l. sid \<noteq> manager_ID (fst mg) \<longrightarrow>
           prompts.inv pfx sid l (gs_prompts (snd mg)) \<longrightarrow> prompts.inv pfx sid l (gs_prompts (snd mg'))))"

lemma keeps_refl: "keeps mg mg"
  by (simp add: keeps_def)

lemma keeps_trans: "keeps a b \<Longrightarrow> keeps b c \<Longrightarrow> keeps a c"
  unfolding keeps_def manager_ID_def by metis

lemma manager_cfg:
  "up_cfg (mm_mcp man') = up_cfg (mm_mcp man) \<Longrightarrow>
   manager_ID man' = manager_ID man \<and> manager_prefix man' = manager_prefix man"
  by (simp add: manager_ID_def manager_prefix_def)

lemma keeps_same:
  assumes "up_cfg (mm_mcp man') = up_cfg (mm_mcp man)" and "mm_tools man' = mm_tools man"
    and "mm_prompts man' = mm_prompts man"
  shows "keeps (man, g) (man', g)"
  using assms manager_cfg[OF assms(1)] by (simp add: keeps_def managed_def)

lemma keeps_removeAllTools: "keeps mg (removeAllTools now mg)"
proof -
  obtain man g where mg: "mg = (man, g)" by (cases mg)
  show ?thesis
    unfolding keeps_def mg removeAllTools_def managed_def
    by (auto simp: manager_ID_def manager_prefix_def
        intro!: tools.clear_keeps tools.clear_keeps_others)
qed

lemma keeps_removeAllPrompts: "keeps mg (removeAllPrompts mg)"
proof -
  obtain man g where mg: "mg = (man, g)" by (cases mg)
  show ?thesis
    unfolding keeps_def mg removeAllPrompts_def managed_def
    by (auto simp: manager_ID_def manager_prefix_def
        intro!: prompts.clear_keeps prompts.clear_keeps_others)
qed

lemma keeps_register_tools:
  assumes "traversal (pr_Order pr)"
  shows "keeps mg (fst (register_tools pr fetched mg))"
proof -
  obtain man g where mg: "mg = (man, g)" by (cases mg)
  obtain toAdd toRemove where d: "diffTools pr man (li_items (mm_tools man)) fetched = (toAdd, toRemove)"
    by (cases "diffTools pr man (li_items (mm_tools man)) fetched")
  then have d': "tools.difference (manager_prefix man) (manager_ID man) (pr_Order pr) (li_items (mm_tools man)) fetched =
      (toAdd, toRemove)"
    by (simp add: diffTools_def prefixedName_eq stamps)
  show ?thesis
  proof (cases "findToolConflicts man g toAdd")
    case (Some e)
    then show ?thesis by (simp add: register_tools_def mg d keeps_refl)
  next
    case None
    then have free: "conflicts tool_name tool_owner (manager_ID man) (gs_tools g) toAdd = []"
      by (simp add: findToolConflicts_def Let_def ListTools_def split: if_splits)
    show ?thesis
      using None tools.register_keeps[OF _ assms d'] tools.register_keeps_others[OF _ assms d' free]
      by (simp add: register_tools_def mg d keeps_def managed_def manager_ID_def manager_prefix_def
          prefixedName_eq)
  qed
qed

lemma keeps_register_prompts:
  assumes "traversal (pr_Order pr)"
  shows "keeps mg (fst (register_prompts pr fetched mg))"
proof -
  obtain man g where mg: "mg = (man, g)" by (cases mg)
  obtain toAdd toRemove where d: "diffPrompts pr man (li_items (mm_prompts man)) fetched = (toAdd, toRemove)"
    by (cases "diffPrompts pr man (li_items (mm_prompts man)) fetched")
  then have d': "prompts.difference (manager_prefix man) (manager_ID man) (pr_Order pr) (li_items (mm_prompts man)) fetched =
      (toAdd, toRemove)"
    by (simp add: diffPrompts_def prefixedName_eq stamps)
  show ?thesis
  proof (cases "findPromptConflicts man g toAdd")
    case (Some e)
    then show ?thesis by (simp add: register_prompts_def mg d keeps_refl)
  next
    case None
    then have free: "conflicts prompt_name prompt_owner (manager_ID man) (gs_prompts g) toAdd = []"
      by (simp add: findPromptConflicts_def Let_def ListPrompts_def split: if_splits)
    show ?thesis
      using None prompts.register_keeps[OF _ assms d'] prompts.register_keeps_others[OF _ assms d' free]
      by (simp add: register_prompts_def mg d keeps_def managed_def manager_ID_def manager_prefix_def
          prefixedName_eq)
  qed
qed

subsection \<open>A pass of the manager\<close>

lemma upstream_cfg [simp]:
  "up_cfg (fst (Connect pr up)) = up_cfg up" "up_cfg (Disconnect up) = up_cfg up"
  "up_cfg (storeToolHints h up) = up_cfg up" "up_cfg (fst (upstream_ListTools pr up)) = up_cfg up"
  by (simp_all add: Connect_def Disconnect_def storeToolHints_def upstream_ListTools_def
      split: sum.split option.split)

lemma status_frame [simp]:
  "mm_mcp (setStatus now e nt np it ip man) = mm_mcp man" "mm_tools (setStatus now e nt np it ip man) = mm_tools man"
  "mm_prompts (setStatus now e nt np it ip man) = mm_prompts man"
  "mm_failures (setStatus now e nt np it ip man) = mm_failures man"
  "mm_mcp (applyBackoff pr man) = mm_mcp man" "mm_tools (applyBackoff pr man) = mm_tools man"
  "mm_prompts (applyBackoff pr man) = mm_prompts man" "mm_failures (applyBackoff pr man) = mm_failures man"
  "mm_mcp (resetBackoff man) = mm_mcp man" "mm_tools (resetBackoff man) = mm_tools man"
  "mm_prompts (resetBackoff man) = mm_prompts man" "mm_failures (resetBackoff man) = mm_failures man"
  "mm_mcp (take_event ev man) = mm_mcp man" "mm_tools (take_event ev man) = mm_tools man"
  "mm_prompts (take_event ev man) = mm_prompts man" "mm_failures (take_event ev man) = mm_failures man"
  by (simp_all add: setStatus_def applyBackoff_def resetBackoff_def take_event_def Let_def
      split: prod.split option.split eventType.split)

lemma getTools_frame:
  "mm_tools (fst (getTools pr man)) = mm_tools man" "mm_prompts (fst (getTools pr man)) = mm_prompts man"
  "mm_failures (fst (getTools pr man)) = mm_failures man"
  "up_cfg (mm_mcp (fst (getTools pr man))) = up_cfg (mm_mcp man)"
  by (simp_all add: getTools_def case_prod_unfold split: sum.split)

lemma keeps_fetch_tools:
  assumes "traversal (pr_Order pr)"
  shows "keeps mg (fst (fetch_tools pr mg))"
proof -
  obtain man0 g where mg: "mg = (man0, g)" by (cases mg)
  obtain man r where t: "getTools pr man0 = (man, r)" by (cases "getTools pr man0")
  have k: "keeps mg (man, g)"
    using getTools_frame[of pr man0] t unfolding mg by (intro keeps_same) simp_all
  show ?thesis
    using k keeps_trans[OF k keeps_removeAllTools] keeps_trans[OF k keeps_register_tools[OF assms]]
    unfolding fetch_tools_def mg prod.case t by (simp add: case_prod_unfold split: sum.split)
qed

lemma keeps_fetch_prompts:
  assumes "traversal (pr_Order pr)"
  shows "keeps mg (fst (fetch_prompts pr mg))"
  using keeps_refl keeps_register_prompts[OF assms]
  unfolding fetch_prompts_def by (simp add: case_prod_unfold split: sum.split)

lemma keeps_handleConnectionFailure: "keeps mg (handleConnectionFailure pr e nt np mg)"
proof -
  obtain man g where mg: "mg = (man, g)" by (cases mg)
  let ?one = "(man\<lparr>mm_failures := Suc (mm_failures man)\<rparr>, g)"
  have one: "keeps mg ?one" unfolding mg by (intro keeps_same) simp_all
  have two: "keeps mg (removeAllPrompts (removeAllTools (pr_Now pr) ?one))"
    by (rule keeps_trans[OF one keeps_trans[OF keeps_removeAllTools keeps_removeAllPrompts]])
  have three: "keeps mg (applyBackoff pr (setStatus (pr_Now pr) (Some e) nt np [] []
      (man'\<lparr>mm_mcp := Disconnect (mm_mcp man')\<rparr>)), g')" if "keeps mg (man', g')" for man' g'
    by (rule keeps_trans[OF that keeps_same]) simp_all
  obtain m2 g2 where r: "removeAllPrompts (removeAllTools (pr_Now pr) ?one) = (m2, g2)" by fastforce
  show ?thesis
    using three[OF one] three[OF two[unfolded r]]
    by (simp add: handleConnectionFailure_def mg Let_def r)
qed

lemma keeps_manage_disabled: "keeps mg (manage_disabled pr mg)"
proof -
  obtain man g where r: "removeAllPrompts (removeAllTools (pr_Now pr) mg) = (man, g)" by fastforce
  have "keeps mg (man, g)"
    using keeps_trans[OF keeps_removeAllTools keeps_removeAllPrompts] r by metis
  then show ?thesis
    unfolding manage_disabled_def r prod.case by (rule keeps_trans[OF _ keeps_same]) simp_all
qed

lemma keeps_manage_listings:
  assumes "traversal (pr_Order pr)"
  shows "keeps mg (manage_listings pr ev nt np mg)"
proof -
  obtain mg1 te it where t: "(if shouldFetchTools ev then fetch_tools pr mg else (mg, None, [])) = (mg1, te, it)"
    by (cases "if shouldFetchTools ev then fetch_tools pr mg else (mg, None, [])") auto
  have k1: "keeps mg mg1"
    using t keeps_refl[of mg] keeps_fetch_tools[OF assms, of mg] by (cases "shouldFetchTools ev") auto
  let ?p = "if SupportsPrompts (mm_mcp (fst mg1)) \<and> shouldFetchPrompts ev then fetch_prompts pr mg1 else (mg1, None, [])"
  obtain mg2 pe ip where p: "?p = (mg2, pe, ip)" by (cases ?p) auto
  have "keeps mg1 mg2"
    using p keeps_refl[of mg1] keeps_fetch_prompts[OF assms, of mg1] by (auto split: if_splits)
  then have k2: "keeps mg (fst mg2, snd mg2)" using keeps_trans[OF k1] by simp
  show ?thesis
    unfolding manage_listings_def t p Let_def prod.case
    by (rule keeps_trans[OF k2 keeps_same]) simp_all
qed

lemma keeps_manage:
  assumes "traversal (pr_Order pr)"
  shows "keeps mg (manage pr ev mg)"
proof -
  obtain man0 g where mg: "mg = (man0, g)" by (cases mg)
  obtain up e where c: "Connect pr (mm_mcp man0) = (up, e)" by (cases "Connect pr (mm_mcp man0)")
  have cfg: "up_cfg up = up_cfg (mm_mcp man0)" using upstream_cfg(1)[of pr "mm_mcp man0"] c by simp
  have k: "keeps mg (man0\<lparr>mm_mcp := up\<rparr>, g)" "keeps mg (man0\<lparr>mm_mcp := up, mm_failures := 0\<rparr>, g)"
    unfolding mg by (rule keeps_same; simp add: cfg)+
  have us: "keeps mg (manage_userSpecific pr (man0\<lparr>mm_mcp := up, mm_failures := 0\<rparr>), g)"
    unfolding mg by (rule keeps_same) (simp_all add: manage_userSpecific_def cfg)
  show ?thesis
    using keeps_manage_disabled[of mg] us keeps_trans[OF k(1) keeps_handleConnectionFailure]
      keeps_trans[OF k(2) keeps_manage_listings[OF assms]]
    unfolding manage_def mg prod.case c Let_def by (simp split: option.split)
qed

lemma keeps_loop_round: "traversal (pr_Order pr) \<Longrightarrow> keeps mg (loop_round pr ev mg)"
  unfolding loop_round_def
  by (rule keeps_trans[OF _ keeps_manage]) (simp_all add: keeps_def managed_def manager_ID_def manager_prefix_def)

lemma keeps_loop_stop: "keeps mg (loop_stop now mg)"
proof -
  obtain man g where mg: "mg = (man, g)" by (cases mg)
  have "keeps mg (man\<lparr>mm_mcp := Disconnect (mm_mcp man)\<rparr>, g)" unfolding mg by (rule keeps_same) simp_all
  then show ?thesis
    unfolding loop_stop_def mg prod.case
    by (rule keeps_trans[OF _ keeps_trans[OF keeps_removeAllPrompts keeps_removeAllTools]])
qed

section \<open>A fleet of managers\<close>

text \<open>
  The managers of a broker, by the identifier of their server, with the gateway they share. A pass
  of a manager, the start of a new one and the stop of one happen in any order. The initial gateway
  has only tools and prompts of the broker itself.
\<close>

type_synonym fleet = "MCPManager gomap \<times> gatewayServer"

definition brokerServerID :: string where "brokerServerID = ''broker''"

inductive fleet_step :: "fleet \<Rightarrow> fleet \<Rightarrow> bool" where
  round: "ms i = Some man \<Longrightarrow> traversal (pr_Order pr) \<Longrightarrow> loop_round pr ev (man, g) = (man', g') \<Longrightarrow>
    fleet_step (ms, g) (ms(i \<mapsto> man'), g')"
| notice: "ms i = Some man \<Longrightarrow> fleet_step (ms, g) (ms(i \<mapsto> on_notification meth man), g)"
| launch: "ms (server_ID cfg) = None \<Longrightarrow>
    fleet_step (ms, g) (ms(server_ID cfg \<mapsto> NewUpstreamMCPManager (NewUpstreamMCP cfg ca) ti policy), g)"
| halt: "ms i = Some man \<Longrightarrow> loop_stop now (man, g) = (man', g') \<Longrightarrow> fleet_step (ms, g) (ms(i := None), g')"

inductive fleet_run :: "fleet \<Rightarrow> bool" where
  init: "\<forall>n t. gs_tools g n = Some t \<longrightarrow> tool_owner t = Some brokerServerID \<Longrightarrow> gs_prompts g = emptymap \<Longrightarrow>
    fleet_run (emptymap, g)"
| step: "fleet_run s \<Longrightarrow> fleet_step s s' \<Longrightarrow> fleet_run s'"

definition fleet_inv :: "fleet \<Rightarrow> bool" where
  "fleet_inv s =
     (case s of (ms, g) \<Rightarrow>
        (\<forall>i man. ms i = Some man \<longrightarrow> manager_ID man = i \<and> managed man g) \<and>
        (\<forall>n t i. gs_tools g n = Some t \<longrightarrow> tool_owner t = Some i \<longrightarrow> i \<noteq> brokerServerID \<longrightarrow> ms i \<noteq> None) \<and>
        (\<forall>n p i. gs_prompts g n = Some p \<longrightarrow> prompt_owner p = Some i \<longrightarrow> ms i \<noteq> None))"

lemma server_ID_not_broker: "server_ID cfg \<noteq> brokerServerID"
proof
  assume "server_ID cfg = brokerServerID"
  then have "CHR '':'' \<in> set brokerServerID" by (metis server_ID_def append_Cons in_set_conv_decomp)
  then show False by (simp add: brokerServerID_def)
qed

lemma fleet_invD:
  assumes "fleet_inv (ms, g)"
  shows "ms i = Some man \<Longrightarrow> manager_ID man = i" and "ms i = Some man \<Longrightarrow> managed man g"
    and "gs_tools g n = Some t \<Longrightarrow> tool_owner t = Some i \<Longrightarrow> i \<noteq> brokerServerID \<Longrightarrow> ms i \<noteq> None"
    and "gs_prompts g n = Some p \<Longrightarrow> prompt_owner p = Some i \<Longrightarrow> ms i \<noteq> None"
  using assms unfolding fleet_inv_def prod.case by metis+

lemma fleet_invI:
  assumes "\<And>i man. ms i = Some man \<Longrightarrow> manager_ID man = i \<and> managed man g"
    and "\<And>n t i. gs_tools g n = Some t \<Longrightarrow> tool_owner t = Some i \<Longrightarrow> i \<noteq> brokerServerID \<Longrightarrow> ms i \<noteq> None"
    and "\<And>n p i. gs_prompts g n = Some p \<Longrightarrow> prompt_owner p = Some i \<Longrightarrow> ms i \<noteq> None"
  shows "fleet_inv (ms, g)"
  using assms unfolding fleet_inv_def prod.case by blast

lemma managed_new:
  assumes "manager_ID man = i" and "mm_tools man = empty_listing" and "mm_prompts man = empty_listing"
    and "\<And>n t. gs_tools g n = Some t \<Longrightarrow> tool_owner t \<noteq> Some i"
    and "\<And>n p. gs_prompts g n = Some p \<Longrightarrow> prompt_owner p \<noteq> Some i"
  shows "managed man g"
  using assms by (auto simp: managed_def listing_inv_def empty_listing_def by_name_def)

lemma managed_owned:
  assumes "managed man g" and "manager_ID man = i"
  shows "(\<exists>t. gs_tools g n = Some t \<and> tool_owner t = Some i) \<longleftrightarrow> GetServedManagedTool man n \<noteq> None"
    and "(\<exists>p. gs_prompts g n = Some p \<and> prompt_owner p = Some i) \<longleftrightarrow> GetServedManagedPrompt man n \<noteq> None"
proof -
  have t: "tools.inv (manager_prefix man) i (mm_tools man) (gs_tools g)"
    and p: "prompts.inv (manager_prefix man) i (mm_prompts man) (gs_prompts g)"
    using assms by (simp_all add: managed_def)
  have "GetServedManagedTool man n \<noteq> None \<longleftrightarrow> n \<in> tool_name ` set (li_server (mm_tools man))"
    using t by (simp add: listing_inv_def GetServedManagedTool_def by_name_None)
  then show "(\<exists>t. gs_tools g n = Some t \<and> tool_owner t = Some i) \<longleftrightarrow> GetServedManagedTool man n \<noteq> None"
    using tools.invD(2-5)[OF t] by blast
  have "GetServedManagedPrompt man n \<noteq> None \<longleftrightarrow> n \<in> prompt_name ` set (li_server (mm_prompts man))"
    using p by (simp add: listing_inv_def GetServedManagedPrompt_def by_name_None)
  then show "(\<exists>p. gs_prompts g n = Some p \<and> prompt_owner p = Some i) \<longleftrightarrow> GetServedManagedPrompt man n \<noteq> None"
    using prompts.invD(2-5)[OF p] by blast
qed

lemma no_items:
  "tools.inv pfx sid empty_listing m \<longleftrightarrow> (\<forall>n t. m n = Some t \<longrightarrow> tool_owner t \<noteq> Some sid)"
  "prompts.inv pfx sid empty_listing m' \<longleftrightarrow> (\<forall>n p. m' n = Some p \<longrightarrow> prompt_owner p \<noteq> Some sid)"
  by (auto simp: listing_inv_def empty_listing_def by_name_def)

lemma fleet_inv_keeps:
  assumes k: "keeps (man, g) (man', g')" and f: "fleet_inv (ms, g)" and ms: "ms i = Some man"
  shows "fleet_inv (ms(i \<mapsto> man'), g')"
proof -
  have i: "manager_ID man = i" "managed man g" using f ms by (simp_all add: fleet_inv_def)
  have "manager_ID man' = i" using k i(1) by (simp add: keeps_def manager_ID_def)
  moreover have "managed man' g'" using k i by (simp add: keeps_def)
  moreover have "manager_ID other = j \<and> managed other g'" if "ms j = Some other" "j \<noteq> i" for j other
  proof -
    have oth: "manager_ID other = j" "managed other g" using f that(1) by (simp_all add: fleet_inv_def)
    then have "tools.inv (manager_prefix other) j (mm_tools other) (gs_tools g)"
      "prompts.inv (manager_prefix other) j (mm_prompts other) (gs_prompts g)" by (simp_all add: managed_def)
    then show ?thesis using k i that(2) oth(1) unfolding keeps_def managed_def fst_conv snd_conv by blast
  qed
  ultimately have 1: "\<forall>j other. (ms(i \<mapsto> man')) j = Some other \<longrightarrow> manager_ID other = j \<and> managed other g'"
    by auto
  have 2: "\<forall>n t. gs_tools g' n = Some t \<longrightarrow> tool_owner t \<noteq> Some j" if "ms j = None" "j \<noteq> brokerServerID" for j
  proof -
    have "tools.inv [] j empty_listing (gs_tools g)" using fleet_invD(3)[OF f] that unfolding no_items by metis
    moreover have "j \<noteq> i" using that ms by auto
    ultimately have "tools.inv [] j empty_listing (gs_tools g')" using k i by (simp add: keeps_def)
    then show ?thesis by (simp add: no_items)
  qed
  have 3: "\<forall>n p. gs_prompts g' n = Some p \<longrightarrow> prompt_owner p \<noteq> Some j" if "ms j = None" for j
  proof -
    have "prompts.inv [] j empty_listing (gs_prompts g)" using fleet_invD(4)[OF f] that unfolding no_items by metis
    moreover have "j \<noteq> i" using that ms by auto
    ultimately have "prompts.inv [] j empty_listing (gs_prompts g')" using k i by (simp add: keeps_def)
    then show ?thesis by (simp add: no_items)
  qed
  show ?thesis
    unfolding fleet_inv_def prod.case
  proof (intro conjI allI impI)
    fix n t j
    assume "gs_tools g' n = Some t" "tool_owner t = Some j" "j \<noteq> brokerServerID"
    then show "(ms(i \<mapsto> man')) j \<noteq> None" using 2[of j] by (cases "j = i") auto
  next
    fix n p j
    assume "gs_prompts g' n = Some p" "prompt_owner p = Some j"
    then show "(ms(i \<mapsto> man')) j \<noteq> None" using 3[of j] by (cases "j = i") auto
  qed (use 1 in blast)+
qed

lemma loop_stop_empty:
  assumes "managed man g" and "loop_stop now (man, g) = (man', g')"
  shows "mm_tools man' = empty_listing" "mm_prompts man' = empty_listing"
  using assms(2) by (auto simp: loop_stop_def removeAllTools_def removeAllPrompts_def)

lemma fleet_inv_step: "fleet_step s s' \<Longrightarrow> fleet_inv s \<Longrightarrow> fleet_inv s'"
proof (induction rule: fleet_step.induct)
  case (round ms i man pr ev g man' g')
  then show ?case using keeps_loop_round[of pr "(man, g)" ev] fleet_inv_keeps by metis
next
  case (notice ms i man g meth)
  have "keeps (man, g) (on_notification meth man, g)"
    by (rule keeps_same) (simp_all add: on_notification_def)
  then show ?case using fleet_inv_keeps notice by blast
next
  case (launch ms cfg g ca ti policy)
  let ?man = "NewUpstreamMCPManager (NewUpstreamMCP cfg ca) ti policy"
  have id: "manager_ID ?man = server_ID cfg" "mm_tools ?man = empty_listing" "mm_prompts ?man = empty_listing"
    by (simp_all add: manager_ID_def NewUpstreamMCPManager_def NewUpstreamMCP_def Let_def)
  have "managed ?man g"
    using launch server_ID_not_broker[of cfg] unfolding fleet_inv_def prod.case
    by (intro managed_new[OF id]) (metis option.distinct(1))+
  then show ?case using launch id(1) by (auto simp: fleet_inv_def)
next
  case (halt ms i man now g man' g')
  have i: "manager_ID man = i" "managed man g" using halt by (simp_all add: fleet_inv_def)
  have k: "keeps (man, g) (man', g')" using keeps_loop_stop[of "(man, g)" now] halt(2) by simp
  then have f: "fleet_inv (ms(i \<mapsto> man'), g')" using fleet_inv_keeps halt by blast
  have "managed man' g'" "manager_ID man' = i" using k i by (simp_all add: keeps_def manager_ID_def)
  then have none: "\<forall>n t. gs_tools g' n = Some t \<longrightarrow> tool_owner t \<noteq> Some i"
    "\<forall>n p. gs_prompts g' n = Some p \<longrightarrow> prompt_owner p \<noteq> Some i"
    using loop_stop_empty[OF i(2) halt(2)] by (auto simp: managed_def no_items)
  show ?case
  proof (rule fleet_invI)
    fix j other
    assume "(ms(i := None)) j = Some other"
    then have "(ms(i \<mapsto> man')) j = Some other" by (simp split: if_splits)
    then show "manager_ID other = j \<and> managed other g'" using fleet_invD(1,2)[OF f] by blast
  next
    fix n t j
    assume t: "gs_tools g' n = Some t" "tool_owner t = Some j" "j \<noteq> brokerServerID"
    then have "j \<noteq> i" using none(1) by metis
    then show "(ms(i := None)) j \<noteq> None" using fleet_invD(3)[OF f t] by simp
  next
    fix n p j
    assume p: "gs_prompts g' n = Some p" "prompt_owner p = Some j"
    then have "j \<noteq> i" using none(2) by metis
    then show "(ms(i := None)) j \<noteq> None" using fleet_invD(4)[OF f p] by simp
  qed
qed

lemma fleet_inv_run: "fleet_run s \<Longrightarrow> fleet_inv s"
proof (induction rule: fleet_run.induct)
  case (init g)
  then show ?case by (auto simp: fleet_inv_def)
next
  case (step s s')
  then show ?case using fleet_inv_step by blast
qed


definition echo_tool :: Tool where
  "echo_tool =
     \<lparr>t_Name = ''echo'', t_Meta = None, t_InputSchema = JObj [(''type'', JStr ''object'')],
      t_OutputSchema = JNull, t_Description = [], t_Other = []\<rparr>"

definition echo_probe :: "string option \<Rightarrow> Tool list \<Rightarrow> probe" where
  "echo_probe ping ts =
     \<lparr>pr_Now = 1, pr_PEM = (\<lambda>_. True),
      pr_Connect = Inr \<lparr>ir_ProtocolVersion = ''2025-11-25'', ir_Prompts = None, ir_Tools = Some True,
                        ir_Capabilities = True\<rparr>,
      pr_Ping = ping, pr_ListTools = Inr (map Some ts), pr_Hints = None, pr_ListPrompts = Inr [],
      pr_Order = (\<lambda>ks. ks), pr_Step = (\<lambda>bo. (bo_Duration bo, bo))\<rparr>"

definition echo_server :: MCPServer where
  "echo_server =
     \<lparr>srv_Name = ''ns/echo'', srv_URL = ''http://echo/mcp'', srv_Hostname = ''echo.mcp'', srv_Prefix = ''e_'',
      srv_Auth = None, srv_Credential = [], srv_CACert = [], srv_State = [],
      srv_TokenURLElicitation = None, srv_UserSpecificList = False, srv_Category = [], srv_Hint = [], srv_Tags = []\<rparr>"

definition echo_new :: MCPManager where
  "echo_new = NewUpstreamMCPManager (NewUpstreamMCP echo_server []) 0 FilterOut"

definition echo_state :: "MCPManager \<times> gatewayServer" where
  "echo_state = loop_round (echo_probe None [echo_tool]) eventTypeTimer (echo_new, newGatewayServer 0)"

lemma echo_served:
  "gs_tools (snd echo_state) ''e_echo'' = Some (tool_stamp ''e_'' (server_ID echo_server) echo_tool)"
  by code_simp

lemma echo_run: "fleet_run ([server_ID echo_server \<mapsto> fst echo_state], snd echo_state)"
proof -
  have "fleet_run (emptymap, newGatewayServer 0)"
    by (rule fleet_run.init) (simp_all add: newGatewayServer_def)
  then have "fleet_run ([server_ID echo_server \<mapsto> echo_new], newGatewayServer 0)"
    unfolding echo_new_def by (rule fleet_run.step) (rule fleet_step.launch, simp)
  moreover have "fleet_step ([server_ID echo_server \<mapsto> echo_new], newGatewayServer 0)
      ([server_ID echo_server \<mapsto> echo_new, server_ID echo_server \<mapsto> fst echo_state], snd echo_state)"
    by (rule fleet_step.round[of _ _ echo_new "echo_probe None [echo_tool]" eventTypeTimer])
      (simp_all add: echo_state_def traversal_def echo_probe_def)
  ultimately have "fleet_run ([server_ID echo_server \<mapsto> echo_new, server_ID echo_server \<mapsto> fst echo_state], snd echo_state)"
    by (rule fleet_run.step)
  then show ?thesis by simp
qed


section \<open>Failures of an upstream\<close>

fun loop_rounds :: "(probe \<times> eventType) list \<Rightarrow> MCPManager \<times> gatewayServer \<Rightarrow> MCPManager \<times> gatewayServer" where
  "loop_rounds [] mg = mg"
| "loop_rounds ((pr, ev) # ps) mg = loop_rounds ps (loop_round pr ev mg)"

lemma handleConnectionFailure_effect:
  "let mg' = handleConnectionFailure pr e nt np (man, g); out = maxConsecutiveFailures \<le> Suc (mm_failures man)
   in mm_failures (fst mg') = Suc (mm_failures man) \<and>
      up_cfg (mm_mcp (fst mg')) = up_cfg (mm_mcp man) \<and>
      mm_tools (fst mg') = (if out then empty_listing else mm_tools man) \<and>
      mm_prompts (fst mg') = (if out then empty_listing else mm_prompts man) \<and>
      gs_tools (snd mg') = (if out then delete_keys (map tool_name (li_server (mm_tools man))) (gs_tools g) else gs_tools g) \<and>
      gs_prompts (snd mg') = (if out then delete_keys (map prompt_name (li_server (mm_prompts man))) (gs_prompts g) else gs_prompts g)"
  by (simp add: handleConnectionFailure_def Let_def removeAllTools_def removeAllPrompts_def)

lemma failing_round:
  assumes "pr_Ping pr \<noteq> None" and "IsEnabled (mm_mcp man)"
  shows "\<exists>up e nt np. up_cfg up = up_cfg (mm_mcp man) \<and>
    loop_round pr ev (man, g) =
      handleConnectionFailure pr e nt np ((take_event ev man)\<lparr>mm_mcp := up\<rparr>, g)"
proof -
  obtain up err where c: "Connect pr (mm_mcp man) = (up, err)" by (cases "Connect pr (mm_mcp man)")
  have cfg: "up_cfg up = up_cfg (mm_mcp man)" using upstream_cfg(1)[of pr "mm_mcp man"] c by simp
  obtain e where "Ping pr up = Some e" using assms(1) by (cases "up_session up") (auto simp: Ping_def)
  then show ?thesis
    using c cfg assms(2) unfolding loop_round_def manage_def fst_conv snd_conv prod.case status_frame Let_def
    by (cases err) auto
qed

lemma failing_round_effect:
  assumes "pr_Ping pr \<noteq> None" and "IsEnabled (mm_mcp man)"
  shows "let mg' = loop_round pr ev (man, g); out = 3 \<le> Suc (mm_failures man)
    in mm_failures (fst mg') = Suc (mm_failures man) \<and>
       up_cfg (mm_mcp (fst mg')) = up_cfg (mm_mcp man) \<and>
       mm_tools (fst mg') = (if out then empty_listing else mm_tools man) \<and>
       mm_prompts (fst mg') = (if out then empty_listing else mm_prompts man) \<and>
       (\<not> out \<longrightarrow> gs_tools (snd mg') = gs_tools g \<and> gs_prompts (snd mg') = gs_prompts g)"
proof -
  obtain up e nt np where "up_cfg up = up_cfg (mm_mcp man)"
    "loop_round pr ev (man, g) = handleConnectionFailure pr e nt np ((take_event ev man)\<lparr>mm_mcp := up\<rparr>, g)"
    using failing_round[OF assms] by blast
  then show ?thesis
    using handleConnectionFailure_effect[of pr e nt np "(take_event ev man)\<lparr>mm_mcp := up\<rparr>" g]
    by (simp add: Let_def maxConsecutiveFailures_def)
qed

lemma IsEnabled_cfg: "up_cfg up' = up_cfg up \<Longrightarrow> IsEnabled up' = IsEnabled up"
  by (simp add: IsEnabled_def)

lemma failing_rounds:
  assumes "\<forall>(pr, ev) \<in> set ps. pr_Ping pr \<noteq> None" and "IsEnabled (mm_mcp man)"
  shows "let mg' = loop_rounds ps (man, g); out = ps \<noteq> [] \<and> 3 \<le> mm_failures man + length ps
    in mm_failures (fst mg') = mm_failures man + length ps \<and>
       mm_tools (fst mg') = (if out then empty_listing else mm_tools man) \<and>
       mm_prompts (fst mg') = (if out then empty_listing else mm_prompts man) \<and>
       (\<not> out \<longrightarrow> gs_tools (snd mg') = gs_tools g \<and> gs_prompts (snd mg') = gs_prompts g)"
  using assms
proof (induction ps arbitrary: man g)
  case (Cons p ps)
  obtain pr ev where p: "p = (pr, ev)" by (cases p)
  obtain man1 g1 where r: "loop_round pr ev (man, g) = (man1, g1)" by (cases "loop_round pr ev (man, g)")
  have e: "mm_failures man1 = Suc (mm_failures man) \<and> up_cfg (mm_mcp man1) = up_cfg (mm_mcp man) \<and>
      mm_tools man1 = (if 3 \<le> Suc (mm_failures man) then empty_listing else mm_tools man) \<and>
      mm_prompts man1 = (if 3 \<le> Suc (mm_failures man) then empty_listing else mm_prompts man) \<and>
      (\<not> 3 \<le> Suc (mm_failures man) \<longrightarrow> gs_tools g1 = gs_tools g \<and> gs_prompts g1 = gs_prompts g)"
    using failing_round_effect[of pr man ev g] Cons.prems p r by (simp add: Let_def)
  then have "IsEnabled (mm_mcp man1)" using Cons.prems(2) IsEnabled_cfg by blast
  then show ?case
    using Cons.IH[of man1 g1] Cons.prems(1) e p r by (auto simp: Let_def)
qed (simp add: Let_def)

text \<open>
  C36: Cached tools survive a short outage and not a long one. While an enabled server fails fewer
  than three health passes in a row, the gateway and the manager keep all its tools and prompts;
  from the third failure on the manager has none and the gateway has none of this server.
\<close>

theorem tools_survive_short_outage:
  assumes "managed man g" and "IsEnabled (mm_mcp man)" and "mm_failures man = 0"
    and "\<forall>(pr, ev) \<in> set ps. pr_Ping pr \<noteq> None \<and> traversal (pr_Order pr)"
    and "loop_rounds ps (man, g) = (man', g')"
  shows "(length ps < 3 \<longrightarrow>
      gs_tools g' = gs_tools g \<and> gs_prompts g' = gs_prompts g \<and>
      GetManagedTools man' = GetManagedTools man \<and> GetManagedPrompts man' = GetManagedPrompts man) \<and>
    (3 \<le> length ps \<longrightarrow>
      GetManagedTools man' = [] \<and> GetManagedPrompts man' = [] \<and>
      (\<forall>n t. gs_tools g' n = Some t \<longrightarrow> tool_owner t \<noteq> Some (manager_ID man)) \<and>
      (\<forall>n p. gs_prompts g' n = Some p \<longrightarrow> prompt_owner p \<noteq> Some (manager_ID man)))"
proof -
  have "keeps mg (loop_rounds qs mg)" if "\<forall>(pr, ev) \<in> set qs. traversal (pr_Order pr)" for qs mg
    using that
  proof (induction qs arbitrary: mg)
    case (Cons q qs)
    then show ?case using keeps_trans[OF keeps_loop_round] by (cases q) fastforce
  qed (simp add: keeps_refl)
  then have k: "keeps (man, g) (man', g')" using assms(4,5) by (metis (mono_tags, lifting) case_prodD case_prodI2)
  have id: "managed man' g'" "manager_ID man' = manager_ID man"
    using k assms(1) by (simp_all add: keeps_def manager_ID_def)
  have r: "mm_tools man' = (if ps \<noteq> [] \<and> 3 \<le> length ps then empty_listing else mm_tools man) \<and>
      mm_prompts man' = (if ps \<noteq> [] \<and> 3 \<le> length ps then empty_listing else mm_prompts man) \<and>
      (\<not> (ps \<noteq> [] \<and> 3 \<le> length ps) \<longrightarrow> gs_tools g' = gs_tools g \<and> gs_prompts g' = gs_prompts g)"
  proof -
    have "\<forall>(pr, ev) \<in> set ps. pr_Ping pr \<noteq> None" using assms(4) by auto
    from failing_rounds[OF this assms(2), of g] show ?thesis by (simp add: Let_def assms(3,5))
  qed
  have none: "(\<forall>n t. gs_tools g' n = Some t \<longrightarrow> tool_owner t \<noteq> Some (manager_ID man)) \<and>
      (\<forall>n p. gs_prompts g' n = Some p \<longrightarrow> prompt_owner p \<noteq> Some (manager_ID man))" if "3 \<le> length ps"
  proof -
    have "mm_tools man' = empty_listing" "mm_prompts man' = empty_listing" using r that by auto
    then show ?thesis using id unfolding managed_def by (simp add: no_items)
  qed
  show ?thesis
    using r none by (auto simp: GetManagedTools_def GetManagedPrompts_def empty_listing_def)
qed

theorem tools_survive_short_outage_witness:
  "gs_tools (snd (loop_rounds [(echo_probe (Some ''down'') [], eventTypeTimer)] echo_state)) ''e_echo'' \<noteq> None \<and>
   GetManagedTools (fst (loop_rounds (replicate 3 (echo_probe (Some ''down'') [], eventTypeTimer)) echo_state)) = []"
proof -
  have m: "managed (fst echo_state) (snd echo_state)" using fleet_invD(2)[OF fleet_inv_run[OF echo_run]] by simp
  have e: "IsEnabled (mm_mcp (fst echo_state))" "mm_failures (fst echo_state) = 0" by code_simp+
  have p: "\<forall>(pr, ev) \<in> set (replicate n (echo_probe (Some ''down'') [], eventTypeTimer)).
      pr_Ping pr \<noteq> None \<and> traversal (pr_Order pr)" for n
    by (auto simp: echo_probe_def traversal_def)
  show ?thesis
    using tools_survive_short_outage[OF m e p[of 1] surjective_pairing]
      tools_survive_short_outage[OF m e p[of 3] surjective_pairing] echo_served
    by simp
qed

section \<open>Changed definitions\<close>

lemma diff_items_same_names:
  assumes "traversal ord" and "nm ` set old = nm ` set new"
  shows "diff_items nm served stamp ord old new = ([], [])"
proof -
  have "filter (\<lambda>n. by_name nm old n = None) (ord (name_keys nm new)) = []"
    "filter (\<lambda>n. by_name nm new n = None) (ord (name_keys nm old)) = []"
    using assms name_keys[of nm old] name_keys[of nm new]
    by (auto simp: filter_empty_conv by_name_None traversal_def)
  then show ?thesis by (simp add: diff_items_def map_filter_simps)
qed

text \<open>
  C39: A tool whose definition changes under the same name is not updated on the gateway. If the
  upstream lists tools of the same names with other definitions, the manager takes over the new
  definitions and the gateway keeps serving the old ones.
\<close>

theorem changed_definition_is_not_served:
  assumes "traversal (pr_Order pr)" and "t_Name ` set fetched = t_Name ` set (GetManagedTools man)"
    and "register_tools pr fetched (man, g) = ((man', g'), err)"
  shows "err = None \<and> GetManagedTools man' = fetched \<and> g' = g"
proof -
  have "diffTools pr man (li_items (mm_tools man)) fetched = ([], [])"
    using diff_items_same_names[OF assms(1), of t_Name "li_items (mm_tools man)" fetched] assms(2)
    by (simp add: diffTools_def GetManagedTools_def)
  then show ?thesis
    using assms(3)
    by (auto simp: register_tools_def findToolConflicts_def conflicts_def Let_def AddTools_def DeleteTools_def
        GetManagedTools_def update_listing_def)
qed

theorem changed_definition_is_not_served_witness:
  "let r = register_tools (echo_probe None []) [echo_tool\<lparr>t_Description := ''new''\<rparr>] echo_state
   in map t_Description (GetManagedTools (fst (fst r))) = [''new''] \<and>
      map_option (\<lambda>t. t_Description (gt_Tool t)) (gs_tools (snd (fst r)) ''e_echo'') = Some []"
proof -
  let ?fetched = "[echo_tool\<lparr>t_Description := ''new''\<rparr>]"
  let ?r = "register_tools (echo_probe None []) ?fetched (fst echo_state, snd echo_state)"
  have "GetManagedTools (fst echo_state) = [echo_tool]" by code_simp
  then have "GetManagedTools (fst (fst ?r)) = ?fetched \<and> snd (fst ?r) = snd echo_state"
    using changed_definition_is_not_served[of "echo_probe None []" ?fetched "fst echo_state" "snd echo_state"
        "fst (fst ?r)" "snd (fst ?r)" "snd ?r"]
    by (simp add: traversal_def echo_probe_def echo_tool_def)
  then show ?thesis using echo_served by (simp add: Let_def tool_stamp_def echo_tool_def)
qed
end
