(* ===== verification/Scope_Store.thy ===== *)
theory Scope_Store
  imports Go_Prelude
begin

text \<open>
  The store of the tool scopes of the sessions (\<open>internal/broker/discovery_scope.go\<close>). The size of
  the store is the length of a traversal of its map, which every operation that asks for it takes
  as an argument; the clock is an argument as well. The eviction loop calls \<open>evictExpired\<close> from
  time to time; the lock of the store makes its operations atomic.
\<close>

section \<open>The store\<close>

datatype scopeState = scopeUnset | scopeAll | scopeFiltered

record sessionScope =
  sc_state :: scopeState
  sc_tools :: "string list"
  sc_expireAt :: time

record scopeStore =
  ss_scopes :: "sessionScope gomap"
  ss_ttl :: duration
  ss_maxSize :: int
  ss_done :: bool

definition defaultScopeTTL :: duration where "defaultScopeTTL = 24 * 3600 * 1000000000"
definition defaultScopeMaxSize :: int where "defaultScopeMaxSize = 10000"

definition newScopeStore :: "duration \<Rightarrow> int \<Rightarrow> scopeStore" where
  "newScopeStore ttl maxSize =
     \<lparr>ss_scopes = emptymap, ss_ttl = (if ttl \<le> 0 then defaultScopeTTL else ttl),
      ss_maxSize = (if maxSize \<le> 0 then defaultScopeMaxSize else maxSize), ss_done = False\<rparr>"

definition evictExpired :: "time \<Rightarrow> scopeStore \<Rightarrow> scopeStore" where
  "evictExpired now s =
     s\<lparr>ss_scopes := (\<lambda>sid. case ss_scopes s sid of
                              None \<Rightarrow> None
                            | Some sc \<Rightarrow> if sc_expireAt sc < now then None else Some sc)\<rparr>"

text \<open>The first of the earliest entries in the order of the traversal.\<close>

fun oldest :: "sessionScope gomap \<Rightarrow> string list \<Rightarrow> (string \<times> time) option \<Rightarrow> (string \<times> time) option" where
  "oldest m [] acc = acc"
| "oldest m (sid # keys) acc =
     (case m sid of
        None \<Rightarrow> oldest m keys acc
      | Some sc \<Rightarrow>
          oldest m keys
            (case acc of
               None \<Rightarrow> Some (sid, sc_expireAt sc)
             | Some (i, t) \<Rightarrow> if sc_expireAt sc < t then Some (sid, sc_expireAt sc) else acc))"

definition evictOldestLocked :: "string list \<Rightarrow> scopeStore \<Rightarrow> scopeStore" where
  "evictOldestLocked keys s =
     (case oldest (ss_scopes s) keys None of
        None \<Rightarrow> s
      | Some (sid, t) \<Rightarrow> s\<lparr>ss_scopes := (ss_scopes s)(sid := None)\<rparr>)"

definition setScope :: "time \<Rightarrow> string list \<Rightarrow> string \<Rightarrow> string list \<Rightarrow> scopeStore \<Rightarrow> scopeStore" where
  "setScope now keys sid tools s =
     (let s' = (if int (length keys) \<ge> ss_maxSize s then evictOldestLocked keys s else s)
      in s'\<lparr>ss_scopes := (ss_scopes s')(sid \<mapsto>
           \<lparr>sc_state = scopeFiltered, sc_tools = tools, sc_expireAt = now + ss_ttl s'\<rparr>)\<rparr>)"

definition resetScope :: "time \<Rightarrow> string list \<Rightarrow> string \<Rightarrow> scopeStore \<Rightarrow> scopeStore" where
  "resetScope now keys sid s =
     (let s' = (if ss_scopes s sid = None \<and> int (length keys) \<ge> ss_maxSize s
                then evictOldestLocked keys s else s)
      in s'\<lparr>ss_scopes := (ss_scopes s')(sid \<mapsto>
           \<lparr>sc_state = scopeAll, sc_tools = [], sc_expireAt = now + ss_ttl s'\<rparr>)\<rparr>)"

definition getScope :: "time \<Rightarrow> string \<Rightarrow> scopeStore \<Rightarrow> scopeState \<times> string list" where
  "getScope now sid s =
     (case ss_scopes s sid of
        None \<Rightarrow> (scopeUnset, [])
      | Some sc \<Rightarrow>
          if sc_expireAt sc < now then (scopeUnset, [])
          else if sc_state sc \<noteq> scopeFiltered then (sc_state sc, [])
          else (sc_state sc, sc_tools sc))"

definition deleteScope :: "string \<Rightarrow> scopeStore \<Rightarrow> scopeStore" where
  "deleteScope sid s = s\<lparr>ss_scopes := (ss_scopes s)(sid := None)\<rparr>"

definition scope_size :: "string list \<Rightarrow> nat" where
  "scope_size keys = length keys"

definition scope_stop :: "scopeStore \<Rightarrow> scopeStore" where
  "scope_stop s = s\<lparr>ss_done := True\<rparr>"

section \<open>Sequences of operations\<close>

text \<open>
  What sessions, the eviction loop and the end of sessions do to the store. A step is possible with
  every traversal of the map. The number counts the scopes that sessions other than \<open>me\<close> stored,
  and \<open>me\<close> itself does nothing.
\<close>

inductive scope_step :: "scopeStore \<Rightarrow> scopeStore \<Rightarrow> bool" where
  set: "iter_order (ss_scopes s) keys \<Longrightarrow> scope_step s (setScope now keys sid tools s)"
| reset: "iter_order (ss_scopes s) keys \<Longrightarrow> scope_step s (resetScope now keys sid s)"
| expire: "scope_step s (evictExpired now s)"
| leave: "scope_step s (deleteScope sid s)"

inductive scope_run :: "duration \<Rightarrow> int \<Rightarrow> scopeStore \<Rightarrow> bool" for ttl maxSize where
  init: "scope_run ttl maxSize (newScopeStore ttl maxSize)"
| step: "scope_run ttl maxSize s \<Longrightarrow> scope_step s s' \<Longrightarrow> scope_run ttl maxSize s'"

inductive others_run :: "string \<Rightarrow> time \<Rightarrow> scopeStore \<Rightarrow> nat \<Rightarrow> scopeStore \<Rightarrow> bool"
  for me :: string and until :: time and s0 :: scopeStore where
  none: "others_run me until s0 0 s0"
| set: "others_run me until s0 k s \<Longrightarrow> iter_order (ss_scopes s) keys \<Longrightarrow> sid \<noteq> me \<Longrightarrow>
    others_run me until s0 (Suc k) (setScope now keys sid tools s)"
| reset: "others_run me until s0 k s \<Longrightarrow> iter_order (ss_scopes s) keys \<Longrightarrow> sid \<noteq> me \<Longrightarrow>
    others_run me until s0 (Suc k) (resetScope now keys sid s)"
| expire: "others_run me until s0 k s \<Longrightarrow> now \<le> until \<Longrightarrow> others_run me until s0 k (evictExpired now s)"
| leave: "others_run me until s0 k s \<Longrightarrow> sid \<noteq> me \<Longrightarrow> others_run me until s0 k (deleteScope sid s)"

section \<open>Facts\<close>

lemma oldest_keep: "oldest m keys (Some a) \<noteq> None"
  by (induction keys arbitrary: a) (auto split: option.splits)

lemma oldest_None: "oldest m keys None = None \<longleftrightarrow> (\<forall>k \<in> set keys. m k = None)"
  by (induction keys) (auto simp: oldest_keep split: option.splits)

text \<open>What the search returns is an entry that no other entry of the traversal precedes.\<close>

lemma oldest_is_least:
  assumes "oldest m keys acc = Some (i, t)"
  shows "(acc = Some (i, t) \<or> i \<in> set keys \<and> map_option sc_expireAt (m i) = Some t) \<and>
    (\<forall>k \<in> set keys. \<forall>sc. m k = Some sc \<longrightarrow> t \<le> sc_expireAt sc) \<and> (\<forall>j u. acc = Some (j, u) \<longrightarrow> t \<le> u)"
  using assms
proof (induction keys arbitrary: acc)
  case (Cons k keys)
  show ?case
  proof (cases "m k")
    case None
    then show ?thesis using Cons.IH[of acc] Cons.prems by auto
  next
    case (Some sc)
    show ?thesis
    proof (cases acc)
      case None
      then show ?thesis using Cons.IH[of "Some (k, sc_expireAt sc)"] Cons.prems Some by auto
    next
      case (Some a)
      then show ?thesis
        using Cons.IH[of "Some (k, sc_expireAt sc)"] Cons.IH[of acc] Cons.prems \<open>m k = Some sc\<close>
        by (cases a) (auto split: if_splits)
    qed
  qed
qed auto

lemma evictOldest_least:
  assumes "iter_order (ss_scopes s) keys" and "ss_scopes s me = Some mine"
    and "ss_scopes (evictOldestLocked keys s) me = None" and "ss_scopes s k = Some sc"
  shows "sc_expireAt mine \<le> sc_expireAt sc"
proof -
  obtain i t where o: "oldest (ss_scopes s) keys None = Some (i, t)"
    using assms by (auto simp: evictOldestLocked_def split: option.splits)
  then have "i = me" using assms by (auto simp: evictOldestLocked_def split: if_splits)
  then have "t = sc_expireAt mine" using oldest_is_least[OF o] assms(2) by auto
  moreover have "k \<in> set keys" using iter_order_lookup[OF assms(1)] assms(4) by simp
  ultimately show ?thesis using oldest_is_least[OF o] assms(4) by auto
qed

lemma evictOldest_frame [simp]:
  "ss_ttl (evictOldestLocked keys s) = ss_ttl s" "ss_maxSize (evictOldestLocked keys s) = ss_maxSize s"
  by (auto simp: evictOldestLocked_def split: option.split)

lemma evictOldest_dom: "dom (ss_scopes (evictOldestLocked keys s)) \<subseteq> dom (ss_scopes s)"
  by (auto simp: evictOldestLocked_def split: option.splits if_splits)

lemma evictOldest_same:
  "ss_scopes (evictOldestLocked keys s) k = None \<or> ss_scopes (evictOldestLocked keys s) k = ss_scopes s k"
  by (auto simp: evictOldestLocked_def split: option.splits)

lemma evictOldest_card:
  assumes "iter_order (ss_scopes s) keys" and "keys \<noteq> []"
  shows "Suc (card (dom (ss_scopes (evictOldestLocked keys s)))) = card (dom (ss_scopes s))"
proof -
  have "\<exists>k \<in> set keys. ss_scopes s k \<noteq> None"
    using assms iter_order_lookup[OF assms(1)] by (metis list.set_sel(1))
  then obtain i t where o: "oldest (ss_scopes s) keys None = Some (i, t)"
    using oldest_None[of "ss_scopes s" keys] by fastforce
  then have "i \<in> dom (ss_scopes s)" using oldest_is_least[OF o] by auto
  moreover have "finite (dom (ss_scopes s))" using assms(1) by (metis iter_order_def List.finite_set)
  moreover have "dom (ss_scopes (evictOldestLocked keys s)) = dom (ss_scopes s) - {i}"
    using o by (auto simp: evictOldestLocked_def split: if_splits)
  ultimately show ?thesis by (metis card_Suc_Diff1)
qed

lemma traversal_length: "iter_order m keys \<Longrightarrow> length keys = card (dom m) \<and> finite (dom m)"
  by (metis iter_order_def distinct_card List.finite_set)

lemma stored_frame [simp]:
  "ss_ttl (setScope now keys sid tools s) = ss_ttl s" "ss_maxSize (setScope now keys sid tools s) = ss_maxSize s"
  "ss_ttl (resetScope now keys sid s) = ss_ttl s" "ss_maxSize (resetScope now keys sid s) = ss_maxSize s"
  "ss_ttl (evictExpired now s) = ss_ttl s" "ss_maxSize (evictExpired now s) = ss_maxSize s"
  "ss_ttl (deleteScope sid s) = ss_ttl s" "ss_maxSize (deleteScope sid s) = ss_maxSize s"
  by (auto simp: setScope_def resetScope_def evictExpired_def deleteScope_def Let_def)

lemma smaller_dom: "dom m' \<subseteq> dom m \<Longrightarrow> finite (dom m) \<Longrightarrow> finite (dom m') \<and> card (dom m') \<le> card (dom m)"
  by (meson card_mono finite_subset)

lemma card_insert_bound: "A \<subseteq> insert x B \<Longrightarrow> finite B \<Longrightarrow> card A \<le> Suc (card B) \<and> finite A"
  by (metis card_insert_le_m1 card_mono diff_Suc_1 finite.insertI finite_subset le_trans order_refl zero_less_Suc)

lemma stored_card:
  assumes "iter_order (ss_scopes s) keys" and "int (card (dom (ss_scopes s))) \<le> ss_maxSize s" and "0 < ss_maxSize s"
    and "s' = (if int (length keys) \<ge> ss_maxSize s then evictOldestLocked keys s else s)"
  shows "finite (dom ((ss_scopes s')(sid \<mapsto> sc))) \<and> int (card (dom ((ss_scopes s')(sid \<mapsto> sc)))) \<le> ss_maxSize s"
proof -
  have k: "length keys = card (dom (ss_scopes s))" "finite (dom (ss_scopes s))"
    using traversal_length[OF assms(1)] by auto
  have fin: "finite (dom (ss_scopes s'))"
    using k(2) assms(4) smaller_dom[OF evictOldest_dom] by auto
  have "int (Suc (card (dom (ss_scopes s')))) \<le> ss_maxSize s"
  proof (cases "int (length keys) \<ge> ss_maxSize s")
    case True
    then have "keys \<noteq> []" using assms(3) by auto
    from evictOldest_card[OF assms(1) this] show ?thesis using assms(2,4) True by simp
  next
    case False
    then show ?thesis using assms(4) k by simp
  qed
  then show ?thesis using card_insert_bound[OF subset_refl fin, of sid] by simp
qed

lemma scope_step_bounded:
  assumes "scope_step s s'" and "finite (dom (ss_scopes s))" and "int (card (dom (ss_scopes s))) \<le> ss_maxSize s"
    and "0 < ss_maxSize s"
  shows "finite (dom (ss_scopes s')) \<and> int (card (dom (ss_scopes s'))) \<le> ss_maxSize s \<and> ss_maxSize s' = ss_maxSize s"
  using assms(1)
proof cases
  case (set keys now sid tools)
  show ?thesis
    using stored_card[OF set(2) assms(3,4) refl, of sid]
    unfolding set(1) stored_frame unfolding setScope_def Let_def by simp
next
  case (reset keys now sid)
  show ?thesis
  proof (cases "ss_scopes s sid = None")
    case True
    then show ?thesis
      using stored_card[OF reset(2) assms(3,4) refl, of sid]
      unfolding reset(1) stored_frame unfolding resetScope_def Let_def by simp
  next
    case False
    then have "dom (ss_scopes (resetScope now keys sid s)) = dom (ss_scopes s)"
      by (auto simp: resetScope_def)
    then show ?thesis using reset(1) assms(2,3) by simp
  qed
next
  case (expire now)
  have "dom (ss_scopes s') \<subseteq> dom (ss_scopes s)"
    using expire by (auto simp: evictExpired_def split: option.splits)
  then show ?thesis using smaller_dom[of "ss_scopes s'" "ss_scopes s"] assms(2,3) expire by auto
next
  case (leave sid)
  have "dom (ss_scopes s') \<subseteq> dom (ss_scopes s)" using leave by (auto simp: deleteScope_def)
  then show ?thesis using smaller_dom[of "ss_scopes s'" "ss_scopes s"] assms(2,3) leave by auto
qed

text \<open>
  C19: The store of session scopes is bounded. Whatever sessions select, reset and leave and whenever
  the eviction loop runs, the store has at most the configured number of entries, which is the
  default of 10000 when the configured number is not positive.
\<close>

theorem scope_store_is_bounded:
  assumes "scope_run ttl maxSize s"
  shows "finite (dom (ss_scopes s)) \<and>
    int (card (dom (ss_scopes s))) \<le> (if maxSize \<le> 0 then defaultScopeMaxSize else maxSize)"
proof -
  have "finite (dom (ss_scopes s)) \<and> int (card (dom (ss_scopes s))) \<le> ss_maxSize s \<and> 0 < ss_maxSize s \<and>
      ss_maxSize s = (if maxSize \<le> 0 then defaultScopeMaxSize else maxSize)"
    using assms
  proof (induction rule: scope_run.induct)
    case init
    then show ?case by (simp add: newScopeStore_def defaultScopeMaxSize_def)
  next
    case (step s s')
    then show ?case using scope_step_bounded[OF step(2)] by simp
  qed
  then show ?thesis by metis
qed

theorem scope_store_is_bounded_witness:
  "card (dom (ss_scopes (setScope 7 [''a''] ''b'' [''t''] (setScope 5 [] ''a'' [] (newScopeStore 100 1))))) \<le> 1"
proof -
  have "iter_order (ss_scopes (newScopeStore 100 1)) []"
    by (simp add: iter_order_def newScopeStore_def)
  then have 1: "scope_run 100 1 (setScope 5 [] ''a'' [] (newScopeStore 100 1))"
    by (rule scope_run.step[OF scope_run.init scope_step.set])
  have "iter_order (ss_scopes (setScope 5 [] ''a'' [] (newScopeStore 100 1))) [''a'']"
    by (simp add: iter_order_def newScopeStore_def setScope_def Let_def)
  then have "scope_run 100 1 (setScope 7 [''a''] ''b'' [''t''] (setScope 5 [] ''a'' [] (newScopeStore 100 1)))"
    by (rule scope_run.step[OF 1 scope_step.set])
  from scope_store_is_bounded[OF this] show ?thesis by simp
qed

section \<open>A scope survives the scopes of others\<close>

text \<open>The entries of others that do not expire before a session's own.\<close>

definition later :: "string \<Rightarrow> time \<Rightarrow> scopeStore \<Rightarrow> string set" where
  "later me e s = {k. k \<noteq> me \<and> (\<exists>sc. ss_scopes s k = Some sc \<and> e \<le> sc_expireAt sc)}"

lemma own_scope_not_evicted:
  assumes "iter_order (ss_scopes s) keys" and "ss_scopes s me = Some mine"
    and "int (card (later me (sc_expireAt mine) s)) < ss_maxSize s - 1"
    and "int (length keys) \<ge> ss_maxSize s"
  shows "ss_scopes (evictOldestLocked keys s) me = Some mine"
proof (rule ccontr)
  assume "\<not> ?thesis"
  then have gone: "ss_scopes (evictOldestLocked keys s) me = None"
    using evictOldest_same[of keys s me] assms(2) by auto
  have "dom (ss_scopes s) \<subseteq> insert me (later me (sc_expireAt mine) s)"
    using evictOldest_least[OF assms(1,2) gone] by (auto simp: later_def)
  moreover have "later me (sc_expireAt mine) s \<subseteq> dom (ss_scopes s)" by (auto simp: later_def)
  moreover have k: "length keys = card (dom (ss_scopes s))" "finite (dom (ss_scopes s))"
    using traversal_length[OF assms(1)] by auto
  ultimately have "card (dom (ss_scopes s)) \<le> card (insert me (later me (sc_expireAt mine) s))"
    by (metis card_mono finite.insertI finite_subset)
  also have "\<dots> \<le> Suc (card (later me (sc_expireAt mine) s))" by (rule card_insert_le_m1) simp_all
  finally show False using assms(3,4) k by linarith
qed

lemma later_evict: "later me e (evictOldestLocked keys s) \<subseteq> later me e s"
  using evictOldest_same[of keys s] unfolding later_def by (smt (verit) Collect_mono option.distinct(1))

lemma later_put: "later me e (s\<lparr>ss_scopes := (ss_scopes s)(sid \<mapsto> sc)\<rparr>) \<subseteq> insert sid (later me e s)"
  by (auto simp: later_def split: if_splits)

text \<open>One more scope of another session keeps the own one and adds at most one later entry.\<close>

lemma other_put:
  assumes "ss_scopes s me = Some mine" and "iter_order (ss_scopes s) keys" and "sid \<noteq> me"
    and "finite (later me (sc_expireAt mine) s)" and "int (card (later me (sc_expireAt mine) s)) < ss_maxSize s - 1"
    and "s1 = (if evicts then evictOldestLocked keys s else s)" and "evicts \<longrightarrow> int (length keys) \<ge> ss_maxSize s"
    and "s' = s1\<lparr>ss_scopes := (ss_scopes s1)(sid \<mapsto> sc)\<rparr>"
  shows "ss_scopes s' me = Some mine \<and> finite (later me (sc_expireAt mine) s') \<and>
    card (later me (sc_expireAt mine) s') \<le> Suc (card (later me (sc_expireAt mine) s))"
proof -
  have own: "ss_scopes s1 me = Some mine" using own_scope_not_evicted[OF assms(2,1,5)] assms(1,6,7) by auto
  have "later me (sc_expireAt mine) s1 \<subseteq> later me (sc_expireAt mine) s" using later_evict assms(6) by auto
  then have "later me (sc_expireAt mine) s' \<subseteq> insert sid (later me (sc_expireAt mine) s)"
    using later_put[of me "sc_expireAt mine" s1 sid sc] assms(8) by auto
  from card_insert_bound[OF this assms(4)] show ?thesis using own assms(3,8) by auto
qed

lemma scope_survives:
  assumes "others_run me (sc_expireAt mine) s0 k s" and "ss_scopes s0 me = Some mine"
    and "later me (sc_expireAt mine) s0 = {}" and "int k < ss_maxSize s0"
  shows "ss_scopes s me = Some mine \<and> finite (later me (sc_expireAt mine) s) \<and>
    card (later me (sc_expireAt mine) s) \<le> k \<and> ss_maxSize s = ss_maxSize s0"
  using assms
proof (induction rule: others_run.induct)
  case none
  then show ?case by simp
next
  case (set k s keys sid now tools)
  let ?evicts = "int (length keys) \<ge> ss_maxSize s"
  have IH: "ss_scopes s me = Some mine" "finite (later me (sc_expireAt mine) s)"
    "card (later me (sc_expireAt mine) s) \<le> k" "ss_maxSize s = ss_maxSize s0" using set by auto
  then have "int (card (later me (sc_expireAt mine) s)) < ss_maxSize s - 1" using set.prems(3) by linarith
  note put = other_put[OF IH(1) set.hyps(2,3) IH(2) this refl _ refl, of ?evicts]
  have "ss_scopes (setScope now keys sid tools s) me = Some mine \<and>
      finite (later me (sc_expireAt mine) (setScope now keys sid tools s)) \<and>
      card (later me (sc_expireAt mine) (setScope now keys sid tools s)) \<le> Suc (card (later me (sc_expireAt mine) s))"
    unfolding setScope_def Let_def by (rule put) simp
  then show ?case using IH(3,4) by simp
next
  case (reset k s keys sid now)
  let ?evicts = "ss_scopes s sid = None \<and> int (length keys) \<ge> ss_maxSize s"
  have IH: "ss_scopes s me = Some mine" "finite (later me (sc_expireAt mine) s)"
    "card (later me (sc_expireAt mine) s) \<le> k" "ss_maxSize s = ss_maxSize s0" using reset by auto
  then have "int (card (later me (sc_expireAt mine) s)) < ss_maxSize s - 1" using reset.prems(3) by linarith
  note put = other_put[OF IH(1) reset.hyps(2,3) IH(2) this refl _ refl, of ?evicts]
  have "ss_scopes (resetScope now keys sid s) me = Some mine \<and>
      finite (later me (sc_expireAt mine) (resetScope now keys sid s)) \<and>
      card (later me (sc_expireAt mine) (resetScope now keys sid s)) \<le> Suc (card (later me (sc_expireAt mine) s))"
    unfolding resetScope_def Let_def by (rule put) simp
  then show ?case using IH(3,4) by simp
next
  case (expire k s now)
  have "later me (sc_expireAt mine) (evictExpired now s) \<subseteq> later me (sc_expireAt mine) s"
    by (auto simp: later_def evictExpired_def split: option.splits if_splits)
  then have "finite (later me (sc_expireAt mine) (evictExpired now s)) \<and>
      card (later me (sc_expireAt mine) (evictExpired now s)) \<le> k"
    using expire by (meson card_mono finite_subset le_trans)
  then show ?case using expire by (simp add: evictExpired_def)
next
  case (leave k s sid)
  have "later me (sc_expireAt mine) (deleteScope sid s) \<subseteq> later me (sc_expireAt mine) s"
    by (auto simp: later_def deleteScope_def split: if_splits)
  then have "finite (later me (sc_expireAt mine) (deleteScope sid s)) \<and>
      card (later me (sc_expireAt mine) (deleteScope sid s)) \<le> k"
    using leave by (meson card_mono finite_subset le_trans)
  then show ?case using leave by (simp add: deleteScope_def)
qed
end
