(* ===== verification/MCP_Broker.thy ===== *)
theory MCP_Broker
  imports Upstream_Correct Scope_Store Go_Url
begin

text \<open>
  The broker itself (\<open>internal/broker/broker.go\<close>): its state, its options, the tools it offers
  under its own name (\<open>discovery.go\<close>, \<open>tags_handler.go\<close>), the reload of the configuration and
  the lookups that other parts make.

  A Go map is ranged over in the order that \<open>be_Order\<close> gives for it. \<open>mb_mcpLock\<close> says whether the
  goroutine at hand holds \<open>mcpLock\<close> for writing: the lock is not reentrant, so a goroutine that asks
  for it again never goes on, which is the result None. What other goroutines do to the lock is the
  subject of the theory on the broker's locks.
\<close>

section \<open>State\<close>

record discoveryConfig =
  dc_enabled :: bool
  dc_threshold :: int

record userSpecificServer =
  us_id :: string
  us_name :: string
  us_url :: string
  us_prefix :: string

text \<open>A pooled session to an upstream server: its identifier and the headers of its next request.\<close>

record cachedUserSession =
  cu_session :: string
  cu_headers :: "string gomap"

record mcpBrokerImpl =
  mb_virtualServers :: "VirtualServer gomap"
  mb_mcpServers :: "MCPManager gomap"
  mb_mcpLock :: bool
  mb_gatewayServer :: gatewayServer
  mb_enforceCapabilityFilter :: bool
  mb_trustedHeadersPublicKey :: string
  mb_managerTickerInterval :: duration
  mb_invalidToolPolicy :: InvalidToolPolicy
  mb_elicitationEnabled :: bool
  mb_discovery :: discoveryConfig
  mb_scopeStore :: "scopeStore option"
  mb_userSpecificFetchTimeout :: duration
  mb_userSpecificServers :: "userSpecificServer list"
  mb_gatewayCACertPEM :: string
  mb_userSessionPool :: "cachedUserSession gomap"
  mb_cachedTable :: "Table option"
  mb_tagsToolsRegistered :: bool

record broker_env =
  be_Now :: time
  be_Order :: "MCPManager gomap \<Rightarrow> string list"

section \<open>The routing table\<close>

definition server_Path :: "string \<Rightarrow> string option" where
  "server_Path url = map_option u_Path (url_Parse url)"

definition view_of :: "MCPManager \<Rightarrow> upstream_view" where
  "view_of man =
     \<lparr>uv_Config = GetConfig (mm_mcp man), uv_ManagedTools = map t_Name (GetManagedTools man),
      uv_ToolHints = GetToolHints (mm_mcp man), uv_ManagedPrompts = map p_Name (GetManagedPrompts man)\<rparr>"

text \<open>The entries of the map of servers in the order of a traversal.\<close>

definition servers_in_order :: "broker_env \<Rightarrow> mcpBrokerImpl \<Rightarrow> (string \<times> MCPManager) list" where
  "servers_in_order E br =
     List.map_filter (\<lambda>i. map_option (\<lambda>man. (i, man)) (mb_mcpServers br i)) (be_Order E (mb_mcpServers br))"

definition broker_refresh :: "broker_env \<Rightarrow> mcpBrokerImpl \<Rightarrow> mcpBrokerImpl" where
  "broker_refresh E br =
     br\<lparr>mb_cachedTable :=
       refreshRoutingTable server_Path (map (\<lambda>(i, man). (i, view_of man)) (servers_in_order E br))
         (mb_cachedTable br)\<rparr>"

definition onTableChange :: "broker_env \<Rightarrow> mcpBrokerImpl \<Rightarrow> mcpBrokerImpl option" where
  "onTableChange E br = (if mb_mcpLock br then None else Some (broker_refresh E br))"

text \<open>
  An operation on the gateway server calls \<open>onTableChange\<close> when it has added or removed anything.
  The operations of a manager call it several times; each call replaces the table by one that is
  built from the same servers.
\<close>

definition on_gateway ::
  "broker_env \<Rightarrow> (gatewayServer \<Rightarrow> gatewayServer) \<Rightarrow> mcpBrokerImpl \<Rightarrow> mcpBrokerImpl option" where
  "on_gateway E f br =
     (let g = mb_gatewayServer br; br' = br\<lparr>mb_gatewayServer := f g\<rparr>
      in if gs_changes (f g) = gs_changes g then Some br' else onTableChange E br')"

section \<open>The broker's own tools\<close>

definition brokerToolMetaKey :: string where "brokerToolMetaKey = ''kuadrant/broker-tool''"

definition broker_meta :: "(string \<times> json) list option" where
  "broker_meta = Some [(brokerToolMetaKey, JBool True), (gatewayServerID, JStr brokerServerID)]"

definition meta_tool :: "string \<Rightarrow> string \<Rightarrow> json \<Rightarrow> GatewayTool" where
  "meta_tool name descr schema =
     \<lparr>gt_Tool = \<lparr>t_Name = name, t_Meta = broker_meta, t_InputSchema = schema, t_OutputSchema = JNull,
                 t_Description = descr, t_Other = []\<rparr>,
      gt_Handler = BrokerHandler name\<rparr>"

definition strings_schema :: "string \<Rightarrow> string \<Rightarrow> json" where
  "strings_schema name descr =
     JObj [(''type'', JStr ''object''),
           (''properties'',
            JObj [(name, JObj [(''type'', JStr ''array''), (''description'', JStr descr),
                               (''items'', JObj [(''type'', JStr ''string'')])])]),
           (''required'', JArr [JStr name])]"

definition registerDiscoveryTools :: "broker_env \<Rightarrow> mcpBrokerImpl \<Rightarrow> mcpBrokerImpl option" where
  "registerDiscoveryTools E =
     on_gateway E (AddTools (be_Now E)
       [meta_tool discoverToolsName
          ''Browse available servers and tools. Returns server names, categories, hints, and tool names without full schemas. Use the optional category parameter to filter by category.''
          (JObj [(''type'', JStr ''object''),
                 (''properties'',
                  JObj [(''category'',
                         JObj [(''type'', JStr ''string''),
                               (''description'', JStr (''Filter servers by category (case-insensitive match against any element in the server'' @ [CHR 0x27] @ ''s category list)''))])])]),
        meta_tool selectToolsName
          ''Scope your session to a specific set of tools. After calling this, subsequent tools/list calls will return only the selected tools with full schemas. Pass an empty list to reset to the full tool set.''
          (strings_schema ''tools''
            ''List of tool names to include in your session scope. Pass an empty array to reset to the full tool set.'')])"

definition registerTagsTools :: "broker_env \<Rightarrow> mcpBrokerImpl \<Rightarrow> mcpBrokerImpl option" where
  "registerTagsTools E =
     on_gateway E (AddTools (be_Now E)
       [meta_tool listTagsName ''List all tags across registered MCP servers''
          (JObj [(''type'', JStr ''object'')]),
        meta_tool filterToolsByTagsName
          ''Return tools available through the gateway that match all of the given tags''
          (strings_schema ''tags'' ''list of tags to filter by (must not be empty)'')])"

definition syncTagsTools :: "broker_env \<Rightarrow> MCPServer list \<Rightarrow> mcpBrokerImpl \<Rightarrow> mcpBrokerImpl option" where
  "syncTagsTools E servers br =
     (let hasTags = list_ex (\<lambda>s. srv_Tags s \<noteq> []) servers
      in if hasTags \<and> \<not> mb_tagsToolsRegistered br
         then map_option (\<lambda>b. b\<lparr>mb_tagsToolsRegistered := True\<rparr>) (registerTagsTools E br)
         else if \<not> hasTags \<and> mb_tagsToolsRegistered br
         then map_option (\<lambda>b. b\<lparr>mb_tagsToolsRegistered := False\<rparr>)
                (on_gateway E (DeleteTools (be_Now E) [listTagsName, filterToolsByTagsName]) br)
         else Some br)"

section \<open>Options and construction\<close>

definition WithEnforceCapabilityFilter :: "bool \<Rightarrow> mcpBrokerImpl \<Rightarrow> mcpBrokerImpl" where
  "WithEnforceCapabilityFilter enforce mb = mb\<lparr>mb_enforceCapabilityFilter := enforce\<rparr>"
definition WithTrustedHeadersPublicKey :: "string \<Rightarrow> mcpBrokerImpl \<Rightarrow> mcpBrokerImpl" where
  "WithTrustedHeadersPublicKey key mb = mb\<lparr>mb_trustedHeadersPublicKey := key\<rparr>"
definition WithManagerTickerInterval :: "duration \<Rightarrow> mcpBrokerImpl \<Rightarrow> mcpBrokerImpl" where
  "WithManagerTickerInterval interval mb = mb\<lparr>mb_managerTickerInterval := interval\<rparr>"
definition WithInvalidToolPolicy :: "InvalidToolPolicy \<Rightarrow> mcpBrokerImpl \<Rightarrow> mcpBrokerImpl" where
  "WithInvalidToolPolicy policy mb = mb\<lparr>mb_invalidToolPolicy := policy\<rparr>"
definition WithElicitationEnabled :: "bool \<Rightarrow> mcpBrokerImpl \<Rightarrow> mcpBrokerImpl" where
  "WithElicitationEnabled enabled mb = mb\<lparr>mb_elicitationEnabled := enabled\<rparr>"
definition WithDiscoveryToolsEnabled :: "bool \<Rightarrow> mcpBrokerImpl \<Rightarrow> mcpBrokerImpl" where
  "WithDiscoveryToolsEnabled enabled mb = mb\<lparr>mb_discovery := (mb_discovery mb)\<lparr>dc_enabled := enabled\<rparr>\<rparr>"
definition WithDiscoveryToolThreshold :: "int \<Rightarrow> mcpBrokerImpl \<Rightarrow> mcpBrokerImpl" where
  "WithDiscoveryToolThreshold threshold mb =
     mb\<lparr>mb_discovery := (mb_discovery mb)\<lparr>dc_threshold := threshold\<rparr>\<rparr>"
definition WithUserSpecificFetchTimeout :: "duration \<Rightarrow> mcpBrokerImpl \<Rightarrow> mcpBrokerImpl" where
  "WithUserSpecificFetchTimeout timeout mb = mb\<lparr>mb_userSpecificFetchTimeout := timeout\<rparr>"

text \<open>The broker before any option; the policy is the empty string there, which rejects nothing.\<close>

definition zero_broker :: mcpBrokerImpl where
  "zero_broker =
     \<lparr>mb_virtualServers = emptymap, mb_mcpServers = emptymap, mb_mcpLock = False,
      mb_gatewayServer = newGatewayServer 0, mb_enforceCapabilityFilter = False,
      mb_trustedHeadersPublicKey = [], mb_managerTickerInterval = 60 * 1000000000,
      mb_invalidToolPolicy = FilterOut, mb_elicitationEnabled = False,
      mb_discovery = \<lparr>dc_enabled = True, dc_threshold = 0\<rparr>, mb_scopeStore = None,
      mb_userSpecificFetchTimeout = 30 * 1000000000, mb_userSpecificServers = [],
      mb_gatewayCACertPEM = [], mb_userSessionPool = emptymap, mb_cachedTable = None,
      mb_tagsToolsRegistered = False\<rparr>"

text \<open>Options that set none of the fields the broker computes for itself.\<close>

definition broker_NewBroker :: "broker_env \<Rightarrow> (mcpBrokerImpl \<Rightarrow> mcpBrokerImpl) list \<Rightarrow> mcpBrokerImpl option" where
  "broker_NewBroker E opts =
     (let mb = fold (\<lambda>opt b. opt b) opts zero_broker;
          mb1 = (if dc_enabled (mb_discovery mb)
                 then mb\<lparr>mb_scopeStore := Some (newScopeStore defaultScopeTTL defaultScopeMaxSize)\<rparr> else mb);
          mb2 = mb1\<lparr>mb_gatewayServer := newGatewayServer 0\<rparr>
      in if dc_enabled (mb_discovery mb2) then registerDiscoveryTools E mb2 else Some mb2)"

section \<open>Reloading the configuration\<close>

text \<open>The managers to stop: those of servers that are gone, then those of servers that changed.\<close>

fun stale_changed ::
  "bool \<Rightarrow> MCPServer list \<Rightarrow> MCPManager gomap \<Rightarrow> MCPManager list \<times> MCPManager gomap" where
  "stale_changed certChanged [] ms = ([], ms)"
| "stale_changed certChanged (s # servers) ms =
     (case ms (server_ID s) of
        None \<Rightarrow> stale_changed certChanged servers ms
      | Some man \<Rightarrow>
          if (certChanged \<and> HasPrefix (srv_URL s) ''https://'') \<or>
             server_ConfigChanged s (GetConfig (mm_mcp man))
          then (let (toStop, ms') = stale_changed certChanged servers (ms(server_ID s := None))
                in (man # toStop, ms'))
          else stale_changed certChanged servers ms)"

definition stale_removed ::
  "broker_env \<Rightarrow> MCPServer list \<Rightarrow> mcpBrokerImpl \<Rightarrow> MCPManager list \<times> MCPManager gomap" where
  "stale_removed E servers br =
     (let known = map server_ID servers
      in (map snd (filter (\<lambda>(i, man). i \<notin> set known) (servers_in_order E br)),
          (\<lambda>i. if i \<in> set known then mb_mcpServers br i else None)))"

definition deregisterStaleManagers ::
  "broker_env \<Rightarrow> MCPServer list \<Rightarrow> string \<Rightarrow> mcpBrokerImpl \<Rightarrow> MCPManager list \<times> mcpBrokerImpl" where
  "deregisterStaleManagers E servers newGatewayCACert br =
     (let certChanged = (mb_gatewayCACertPEM br \<noteq> newGatewayCACert);
          (removed, ms) = stale_removed E servers br;
          (changed, ms') = stale_changed certChanged servers ms
      in (removed @ changed, br\<lparr>mb_gatewayCACertPEM := newGatewayCACert, mb_mcpServers := ms'\<rparr>))"

text \<open>\<open>Stop\<close> waits for the end of the manager's loop, which takes its items off the gateway.\<close>

definition stop_manager :: "broker_env \<Rightarrow> MCPManager \<Rightarrow> mcpBrokerImpl \<Rightarrow> mcpBrokerImpl option" where
  "stop_manager E man br = on_gateway E (\<lambda>g. snd (loop_stop (be_Now E) (man, g))) br"

definition start_server :: "MCPServer \<Rightarrow> mcpBrokerImpl \<Rightarrow> mcpBrokerImpl" where
  "start_server cfg br =
     (case mb_mcpServers br (server_ID cfg) of
        Some _ \<Rightarrow> br
      | None \<Rightarrow>
          br\<lparr>mb_mcpServers := (mb_mcpServers br)(server_ID cfg \<mapsto>
            NewUpstreamMCPManager (NewUpstreamMCP cfg (mb_gatewayCACertPEM br))
              (mb_managerTickerInterval br) (mb_invalidToolPolicy br))\<rparr>)"

definition user_specific_servers :: "MCPServer list \<Rightarrow> userSpecificServer list" where
  "user_specific_servers servers =
     map (\<lambda>s. \<lparr>us_id = server_ID s, us_name = srv_Name s, us_url = srv_URL s, us_prefix = srv_Prefix s\<rparr>)
       (filter srv_UserSpecificList servers)"

definition startManagers ::
  "broker_env \<Rightarrow> MCPServer list \<Rightarrow> VirtualServer list \<Rightarrow> mcpBrokerImpl \<Rightarrow> mcpBrokerImpl option" where
  "startManagers E servers virtualServers br =
     (case syncTagsTools E servers (fold start_server servers (br\<lparr>mb_mcpLock := True\<rparr>)) of
        None \<Rightarrow> None
      | Some b \<Rightarrow>
          Some ((broker_refresh E (b\<lparr>mb_userSpecificServers := user_specific_servers servers,
                                    mb_virtualServers := insert_named vs_Name virtualServers emptymap\<rparr>))
                \<lparr>mb_mcpLock := False\<rparr>))"

fun stop_managers :: "broker_env \<Rightarrow> MCPManager list \<Rightarrow> mcpBrokerImpl \<Rightarrow> mcpBrokerImpl option" where
  "stop_managers E [] br = Some br"
| "stop_managers E (man # toStop) br =
     (case stop_manager E man br of None \<Rightarrow> None | Some b \<Rightarrow> stop_managers E toStop b)"

definition broker_OnConfigChange ::
  "broker_env \<Rightarrow> MCPServer list \<Rightarrow> VirtualServer list \<Rightarrow> string \<Rightarrow> mcpBrokerImpl \<Rightarrow> mcpBrokerImpl option" where
  "broker_OnConfigChange E servers virtualServers newGatewayCACert br =
     (let (toStop, b) = deregisterStaleManagers E servers newGatewayCACert br
      in case stop_managers E toStop b of
           None \<Rightarrow> None
         | Some b' \<Rightarrow> startManagers E servers virtualServers b')"

text \<open>A pass of the event loop of one of the managers, as the broker sees it.\<close>

definition manager_pass ::
  "broker_env \<Rightarrow> probe \<Rightarrow> eventType \<Rightarrow> string \<Rightarrow> mcpBrokerImpl \<Rightarrow> mcpBrokerImpl option" where
  "manager_pass E pr ev i br =
     (case mb_mcpServers br i of
        None \<Rightarrow> Some br
      | Some man \<Rightarrow>
          (let (man', g') = loop_round pr ev (man, mb_gatewayServer br)
           in on_gateway E (\<lambda>_. g') (br\<lparr>mb_mcpServers := (mb_mcpServers br)(i \<mapsto> man')\<rparr>)))"

section \<open>Lookups\<close>

definition RegisteredMCPServers :: "mcpBrokerImpl \<Rightarrow> MCPManager gomap" where
  "RegisteredMCPServers br = mb_mcpServers br"

definition GetVirtualServerByHeader :: "mcpBrokerImpl \<Rightarrow> string \<Rightarrow> string + VirtualServer" where
  "GetVirtualServerByHeader br name =
     (case mb_virtualServers br name of
        Some vs \<Rightarrow> Inr vs
      | None \<Rightarrow> Inl (''virtual server '' @ name @ '' not found''))"

definition broker_ToolAnnotations :: "mcpBrokerImpl \<Rightarrow> string \<Rightarrow> string \<Rightarrow> ToolAnnotation option" where
  "broker_ToolAnnotations br serverID tool =
     (case mb_mcpServers br serverID of
        None \<Rightarrow> None
      | Some man \<Rightarrow>
          if GetServedManagedTool man tool = None then None
          else Some (case GetToolHints (mm_mcp man) tool of
                       Some h \<Rightarrow> h
                     | None \<Rightarrow> \<lparr>an_ReadOnlyHint = None, an_DestructiveHint = None,
                                an_IdempotentHint = None, an_OpenWorldHint = None\<rparr>))"

definition upstreamsSnapshot :: "broker_env \<Rightarrow> mcpBrokerImpl \<Rightarrow> MCPManager list" where
  "upstreamsSnapshot E br = map snd (servers_in_order E br)"

fun longest_prefix :: "string \<Rightarrow> MCPServer list \<Rightarrow> MCPServer option \<Rightarrow> MCPServer option" where
  "longest_prefix tool [] best = best"
| "longest_prefix tool (cfg # cfgs) best =
     longest_prefix tool cfgs
       (if srv_UserSpecificList cfg \<and> srv_Prefix cfg \<noteq> [] \<and> HasPrefix tool (srv_Prefix cfg) \<and>
           (case best of None \<Rightarrow> True | Some b \<Rightarrow> length (srv_Prefix cfg) > length (srv_Prefix b))
        then Some cfg else best)"

definition GetServerInfo :: "broker_env \<Rightarrow> mcpBrokerImpl \<Rightarrow> string \<Rightarrow> MCPServer option" where
  "GetServerInfo E br tool =
     (let ups = upstreamsSnapshot E br
      in case find (\<lambda>man. GetServedManagedTool man tool \<noteq> None) ups of
           Some man \<Rightarrow> Some (GetConfig (mm_mcp man))
         | None \<Rightarrow> longest_prefix tool (map (\<lambda>man. GetConfig (mm_mcp man)) ups) None)"

definition GetServerInfoByPrompt :: "broker_env \<Rightarrow> mcpBrokerImpl \<Rightarrow> string \<Rightarrow> MCPServer option" where
  "GetServerInfoByPrompt E br prompt =
     map_option (\<lambda>man. GetConfig (mm_mcp man))
       (find (\<lambda>man. GetServedManagedPrompt man prompt \<noteq> None) (upstreamsSnapshot E br))"

definition IsBrokerToolName :: "mcpBrokerImpl \<Rightarrow> string \<Rightarrow> bool" where
  "IsBrokerToolName br name =
     (if mb_tagsToolsRegistered br \<and> (name = listTagsName \<or> name = filterToolsByTagsName) then True
      else if \<not> dc_enabled (mb_discovery br) then False
      else name = discoverToolsName \<or> name = selectToolsName)"

definition IsReady :: "broker_env \<Rightarrow> mcpBrokerImpl \<Rightarrow> bool" where
  "IsReady E br =
     (let ups = upstreamsSnapshot E br
      in if ups = [] then True else list_ex (\<lambda>man. st_Ready (GetStatus man)) ups)"

record StatusResponse =
  rs_Servers :: "ServerValidationStatus list"
  rs_OverallValid :: bool
  rs_TotalServers :: nat
  rs_HealthyServers :: nat
  rs_UnHealthyServers :: nat
  rs_ToolConflicts :: nat
  rs_Timestamp :: time
  rs_ScopedSessions :: nat

fun count_status :: "ServerValidationStatus list \<Rightarrow> StatusResponse \<Rightarrow> StatusResponse" where
  "count_status [] resp = resp"
| "count_status (st # sts) resp =
     (let r = resp\<lparr>rs_Servers := rs_Servers resp @ [st]\<rparr>
      in count_status sts
           (if \<not> st_Ready st
            then r\<lparr>rs_UnHealthyServers := Suc (rs_UnHealthyServers r), rs_OverallValid := False\<rparr>
            else r\<lparr>rs_HealthyServers := Suc (rs_HealthyServers r)\<rparr>))"

text \<open>\<open>scopes\<close> is a traversal of the map of scopes, read for its length.\<close>

definition ValidateAllServers :: "broker_env \<Rightarrow> string list \<Rightarrow> mcpBrokerImpl \<Rightarrow> StatusResponse" where
  "ValidateAllServers E scopes br =
     (let ups = upstreamsSnapshot E br
      in count_status (map GetStatus ups)
           \<lparr>rs_Servers = [], rs_OverallValid = True, rs_TotalServers = length ups,
            rs_HealthyServers = 0, rs_UnHealthyServers = 0, rs_ToolConflicts = 0,
            rs_Timestamp = be_Now E,
            rs_ScopedSessions = (case mb_scopeStore br of None \<Rightarrow> 0 | Some _ \<Rightarrow> scope_size scopes)\<rparr>)"

section \<open>The end of a session and of the broker\<close>

definition userSessionKey :: "string \<Rightarrow> string \<Rightarrow> string" where
  "userSessionKey gatewaySessionID serverName = gatewaySessionID @ ''/'' @ serverName"

definition closePoolEntry :: "string \<Rightarrow> mcpBrokerImpl \<Rightarrow> mcpBrokerImpl" where
  "closePoolEntry key br = br\<lparr>mb_userSessionPool := (mb_userSessionPool br)(key := None)\<rparr>"

definition evictUserSession :: "string \<Rightarrow> string \<Rightarrow> mcpBrokerImpl \<Rightarrow> mcpBrokerImpl" where
  "evictUserSession gatewaySessionID serverName br =
     closePoolEntry (userSessionKey gatewaySessionID serverName) br"

text \<open>The keys are those that ranging over the pool visits.\<close>

definition evictUserSessions :: "string list \<Rightarrow> string \<Rightarrow> mcpBrokerImpl \<Rightarrow> mcpBrokerImpl" where
  "evictUserSessions keys gatewaySessionID br =
     fold closePoolEntry (filter (\<lambda>k. HasPrefix k (gatewaySessionID @ ''/'')) keys) br"

definition drainUserSessionPool :: "string list \<Rightarrow> mcpBrokerImpl \<Rightarrow> mcpBrokerImpl" where
  "drainUserSessionPool keys br = fold closePoolEntry keys br"

definition onGatewaySessionEnd ::
  "string list \<Rightarrow> (string \<Rightarrow> 'w \<Rightarrow> 'w) \<Rightarrow> string \<Rightarrow> mcpBrokerImpl \<times> 'w \<Rightarrow> mcpBrokerImpl \<times> 'w" where
  "onGatewaySessionEnd keys terminator sessionID bw =
     (case bw of (br, w) \<Rightarrow>
        (evictUserSessions keys sessionID
           (br\<lparr>mb_scopeStore := map_option (deleteScope sessionID) (mb_scopeStore br)\<rparr>),
         terminator sessionID w))"

text \<open>The servers stay registered; each manager ends with empty listings.\<close>

fun stop_registered :: "broker_env \<Rightarrow> string list \<Rightarrow> mcpBrokerImpl \<Rightarrow> mcpBrokerImpl option" where
  "stop_registered E [] br = Some br"
| "stop_registered E (i # is) br =
     (case mb_mcpServers br i of
        None \<Rightarrow> stop_registered E is br
      | Some man \<Rightarrow>
          (let (man', g') = loop_stop (be_Now E) (man, mb_gatewayServer br)
           in case on_gateway E (\<lambda>_. g') (br\<lparr>mb_mcpServers := (mb_mcpServers br)(i \<mapsto> man')\<rparr>) of
                None \<Rightarrow> None
              | Some b \<Rightarrow> stop_registered E is b))"

definition Shutdown :: "broker_env \<Rightarrow> string list \<Rightarrow> mcpBrokerImpl \<Rightarrow> mcpBrokerImpl option" where
  "Shutdown E keys br =
     map_option (\<lambda>b. drainUserSessionPool keys
                       (b\<lparr>mb_scopeStore := map_option scope_stop (mb_scopeStore b)\<rparr>))
       (stop_registered E (be_Order E (mb_mcpServers br)) br)"

section \<open>The status endpoint\<close>

text \<open>What is handed to the JSON encoder after the status code.\<close>

datatype status_body = AllServers StatusResponse | OneServer ServerValidationStatus | StatusError string

definition setResponseHeaders :: "(string \<times> string) list" where
  "setResponseHeaders =
     [(''Content-Type'', ''application/json''), (''Access-Control-Allow-Origin'', ''*''),
      (''Access-Control-Allow-Methods'', ''GET, OPTIONS''), (''Access-Control-Allow-Headers'', ''Content-Type'')]"

definition handleSingleServerByName :: "StatusResponse \<Rightarrow> string \<Rightarrow> nat \<times> status_body" where
  "handleSingleServerByName resp serverName =
     (case find (\<lambda>st. st_Name st = serverName) (rs_Servers resp) of
        None \<Rightarrow>
          (404, StatusError (''Server '' @ [CHR 0x27] @ serverName @ [CHR 0x27] @ '' not found. Use format '' @
            [CHR 0x27] @ ''namespace/route-name'' @ [CHR 0x27] @ '' or check available servers at /status''))
      | Some st \<Rightarrow> (200, OneServer st))"

definition handleGetStatus :: "StatusResponse \<Rightarrow> string \<Rightarrow> nat \<times> status_body" where
  "handleGetStatus resp url_path =
     (let path = TrimPrefix url_path ''/status''; serverName = TrimPrefix path ''/''
      in if path \<noteq> [] \<and> path \<noteq> ''/'' \<and> serverName \<noteq> [] then handleSingleServerByName resp serverName
         else (200, AllServers resp))"

definition HandleStatusRequest ::
  "broker_env \<Rightarrow> string list \<Rightarrow> mcpBrokerImpl \<Rightarrow> string \<Rightarrow> string \<Rightarrow> (string \<times> string) list \<times> nat \<times> status_body" where
  "HandleStatusRequest E scopes br meth url_path =
     (setResponseHeaders,
      if meth = ''GET'' then handleGetStatus (ValidateAllServers E scopes br) url_path
      else (405, StatusError ''Method not allowed. Supported methods: GET''))"
end
