(* ===== verification/Broker_Correct.thy ===== *)
theory Broker_Correct
  imports MCP_Broker
begin

text \<open>
  What the broker keeps up while its managers work and its configuration is reloaded: the tools on
  the gateway, the managers and the routing table agree, and a reload leaves a manager for each
  configured server. The facts on the managers come from the fleet of \<open>Upstream_Correct\<close>: the
  registered managers together with those that a reload has taken out and not yet stopped.
\<close>

section \<open>Changes of the gateway are announced\<close>

definition announced :: "gatewayServer \<Rightarrow> gatewayServer \<Rightarrow> bool" where
  "announced g g' \<longleftrightarrow> gs_changes g \<le> gs_changes g' \<and>
     (gs_changes g' = gs_changes g \<longrightarrow> gs_tools g' = gs_tools g \<and> gs_prompts g' = gs_prompts g)"

lemma announced_refl: "announced g g"
  by (simp add: announced_def)

lemma announced_trans: "announced a b \<Longrightarrow> announced b c \<Longrightarrow> announced a c"
  unfolding announced_def by (metis le_antisym le_trans)

lemma put_changes [simp]:
  "gs_changes (put_tools ts g) = gs_changes g" "gs_changes (put_prompts ps g) = gs_changes g"
  by (induction ts arbitrary: g, simp_all) (induction ps arbitrary: g, simp_all)

lemma announced_ops:
  "announced g (AddTools now ts g)" "announced g (DeleteTools now ns g)"
  "announced g (AddPrompts ps g)" "announced g (DeletePrompts ns g)"
  by (simp_all add: announced_def AddTools_def DeleteTools_def AddPrompts_def DeletePrompts_def Let_def
      tableChange_def markBroadcast_def)

lemma announced_removeAll:
  "announced g (snd (removeAllTools now (man, g)))" "announced g (snd (removeAllPrompts (man, g)))"
  by (simp_all add: removeAllTools_def removeAllPrompts_def announced_ops)

lemma announced_removeBoth: "announced g (snd (removeAllPrompts (removeAllTools now (man, g))))"
proof -
  obtain man1 g1 where "removeAllTools now (man, g) = (man1, g1)" by fastforce
  then show ?thesis
    using announced_trans[OF announced_removeAll(1)[of g now man] announced_removeAll(2)[of _ man1]] by simp
qed

lemma announced_stop: "announced g (snd (loop_stop now (man, g)))"
proof -
  obtain man1 g1 where "removeAllPrompts (man\<lparr>mm_mcp := Disconnect (mm_mcp man)\<rparr>, g) = (man1, g1)" by fastforce
  then show ?thesis
    using announced_trans[OF announced_removeAll(2)[of g "man\<lparr>mm_mcp := Disconnect (mm_mcp man)\<rparr>"]
        announced_removeAll(1)[of _ now man1]]
    by (simp add: loop_stop_def)
qed

lemma announced_register:
  "announced g (snd (fst (register_tools pr ts (man, g))))"
  "announced g (snd (fst (register_prompts pr ps (man, g))))"
  by (auto simp: register_tools_def register_prompts_def Let_def case_prod_unfold announced_refl
      intro: announced_trans announced_ops split: option.split)

lemma announced_fetch_tools: "announced g (snd (fst (fetch_tools pr (man, g))))"
  by (auto simp: fetch_tools_def case_prod_unfold announced_refl announced_removeAll announced_register
      split: sum.split)

lemma announced_fetch_prompts: "announced g (snd (fst (fetch_prompts pr (man, g))))"
  by (auto simp: fetch_prompts_def case_prod_unfold announced_refl announced_register split: sum.split)

lemma announced_failure: "announced g (snd (handleConnectionFailure pr e nt np (man, g)))"
  by (auto simp: handleConnectionFailure_def Let_def case_prod_unfold announced_refl announced_removeBoth)

lemma announced_listings: "announced g (snd (manage_listings pr ev nt np (man, g)))"
proof -
  let ?a = "if shouldFetchTools ev then fetch_tools pr (man, g) else ((man, g), None, [])"
  have a: "announced g (snd (fst ?a))" by (simp add: announced_fetch_tools announced_refl)
  obtain man1 g1 where mg: "fst ?a = (man1, g1)" by fastforce
  have "announced g1 (snd (fst (if p then fetch_prompts pr (man1, g1) else ((man1, g1), None, []))))" for p
    by (simp add: announced_fetch_prompts announced_refl)
  then show ?thesis
    using announced_trans[OF a[unfolded mg snd_conv]]
    unfolding manage_listings_def Let_def case_prod_unfold snd_conv mg by blast
qed

lemma announced_pass: "announced g (snd (loop_round pr ev (man, g)))"
  by (auto simp: loop_round_def manage_def manage_disabled_def case_prod_unfold Let_def announced_refl
      announced_removeBoth announced_failure announced_listings split: option.split)

section \<open>States of the broker\<close>

text \<open>
  The state of the broker and of a reload in progress: the managers still to be stopped and the
  configuration to start. A pass of a manager can come at any moment, before its manager is stopped
  or between the phases of a reload. Requests of clients change neither the servers nor the items
  of the gateway nor the table. A reload that never gets past \<open>startManagers\<close> has no last step.
\<close>

type_synonym reload = "MCPManager list \<times> MCPServer list \<times> VirtualServer list"

definition ordered :: "broker_env \<Rightarrow> mcpBrokerImpl \<Rightarrow> bool" where
  "ordered E br \<longleftrightarrow> iter_order (mb_mcpServers br) (be_Order E (mb_mcpServers br))"

definition late_pass ::
  "broker_env \<Rightarrow> probe \<Rightarrow> eventType \<Rightarrow> MCPManager \<Rightarrow> mcpBrokerImpl \<Rightarrow> (MCPManager \<times> mcpBrokerImpl) option" where
  "late_pass E pr ev man br =
     (let (man', g') = loop_round pr ev (man, mb_gatewayServer br)
      in map_option (\<lambda>b. (man', b)) (on_gateway E (\<lambda>_. g') br))"

inductive reload_step :: "mcpBrokerImpl \<times> reload option \<Rightarrow> mcpBrokerImpl \<times> reload option \<Rightarrow> bool" where
  pass: "mb_mcpServers br i = Some man \<Longrightarrow> traversal (pr_Order pr) \<Longrightarrow> manager_pass E pr ev i br = Some br' \<Longrightarrow>
    ordered E br' \<Longrightarrow> reload_step (br, r) (br', r)"
| notice: "mb_mcpServers br i = Some man \<Longrightarrow>
    reload_step (br, r) (br\<lparr>mb_mcpServers := (mb_mcpServers br)(i \<mapsto> on_notification meth man)\<rparr>, r)"
| late: "traversal (pr_Order pr) \<Longrightarrow> late_pass E pr ev man br = Some (man', br') \<Longrightarrow> ordered E br' \<Longrightarrow>
    reload_step (br, Some (xs @ man # ys, c)) (br', Some (xs @ man' # ys, c))"
| request: "mb_mcpServers br' = mb_mcpServers br \<Longrightarrow> mb_cachedTable br' = mb_cachedTable br \<Longrightarrow>
    mb_mcpLock br' = mb_mcpLock br \<Longrightarrow> mb_tagsToolsRegistered br' = mb_tagsToolsRegistered br \<Longrightarrow>
    gs_tools (mb_gatewayServer br') = gs_tools (mb_gatewayServer br) \<Longrightarrow>
    gs_prompts (mb_gatewayServer br') = gs_prompts (mb_gatewayServer br) \<Longrightarrow> reload_step (br, r) (br', r)"
| dereg: "ordered E br \<Longrightarrow> deregisterStaleManagers E servers ca br = (toStop, br') \<Longrightarrow>
    reload_step (br, None) (br', Some (toStop, servers, vss))"
| stop: "stop_manager E man br = Some br' \<Longrightarrow> ordered E br' \<Longrightarrow>
    reload_step (br, Some (man # toStop, c)) (br', Some (toStop, c))"
| start: "startManagers E servers vss br = Some br' \<Longrightarrow> ordered E br' \<Longrightarrow>
    reload_step (br, Some ([], servers, vss)) (br', None)"

inductive broker_option :: "(mcpBrokerImpl \<Rightarrow> mcpBrokerImpl) \<Rightarrow> bool" where
  "broker_option (WithEnforceCapabilityFilter enforce)"
| "broker_option (WithTrustedHeadersPublicKey key)"
| "broker_option (WithManagerTickerInterval interval)"
| "broker_option (WithInvalidToolPolicy policy)"
| "broker_option (WithElicitationEnabled enabled)"
| "broker_option (WithDiscoveryToolsEnabled enabled)"
| "broker_option (WithDiscoveryToolThreshold threshold)"
| "broker_option (WithUserSpecificFetchTimeout timeout)"

inductive reload_run :: "mcpBrokerImpl \<times> reload option \<Rightarrow> bool" where
  init: "\<forall>opt \<in> set opts. broker_option opt \<Longrightarrow> broker_NewBroker E opts = Some br \<Longrightarrow> ordered E br \<Longrightarrow> reload_run (br, None)"
| step: "reload_run s \<Longrightarrow> reload_step s s' \<Longrightarrow> reload_run s'"

section \<open>The fleet of a broker\<close>

definition by_ID :: "MCPManager list \<Rightarrow> MCPManager gomap" where
  "by_ID ms = map_of (map (\<lambda>m. (manager_ID m, m)) ms)"

definition fleet_of :: "mcpBrokerImpl \<Rightarrow> MCPManager list \<Rightarrow> fleet" where
  "fleet_of br toStop = (mb_mcpServers br ++ by_ID toStop, mb_gatewayServer br)"

definition stopping :: "reload option \<Rightarrow> MCPManager list" where
  "stopping r = (case r of None \<Rightarrow> [] | Some (toStop, c) \<Rightarrow> toStop)"

lemma by_ID_simps [simp]: "by_ID [] = emptymap" "by_ID (m # ms) = (by_ID ms)(manager_ID m \<mapsto> m)"
  by (simp_all add: by_ID_def)

lemma by_ID_dom [simp]: "dom (by_ID ms) = manager_ID ` set ms"
  by (simp add: by_ID_def dom_map_of_conv_image_fst image_image)

lemma by_ID_other: "i \<notin> manager_ID ` set ms \<Longrightarrow> by_ID ms i = None"
  using by_ID_dom by blast

text \<open>Every registered tool has its route, and every route is one of a registered tool.\<close>

definition route_for :: "mcpBrokerImpl \<Rightarrow> string \<Rightarrow> ServerRoute option" where
  "route_for br i = map_option (\<lambda>man. route_of server_Path (GetConfig (mm_mcp man))) (mb_mcpServers br i)"

definition table_agrees :: "mcpBrokerImpl \<Rightarrow> Table \<Rightarrow> bool" where
  "table_agrees br tb \<longleftrightarrow>
     (\<forall>n r. LookupTool tb n = Some r \<longleftrightarrow>
        (\<exists>t i. gs_tools (mb_gatewayServer br) n = Some t \<and> tool_owner t = Some i \<and> route_for br i = Some r)) \<and>
     (\<forall>n r. LookupPrompt tb n = Some r \<longleftrightarrow>
        (\<exists>p i. gs_prompts (mb_gatewayServer br) n = Some p \<and> prompt_owner p = Some i \<and> route_for br i = Some r))"

definition serving_inv :: "mcpBrokerImpl \<times> reload option \<Rightarrow> bool" where
  "serving_inv s =
     (case s of (br, r) \<Rightarrow>
        \<not> mb_mcpLock br \<and>
        distinct (map manager_ID (stopping r)) \<and>
        dom (mb_mcpServers br) \<inter> manager_ID ` set (stopping r) = {} \<and>
        brokerServerID \<notin> dom (mb_mcpServers br) \<and>
        fleet_inv (fleet_of br (stopping r)) \<and>
        (r = None \<longrightarrow> (case mb_cachedTable br of None \<Rightarrow> True | Some tb \<Rightarrow> table_agrees br tb)))"

section \<open>A table that was just built agrees\<close>

lemma served_name:
  "serves_tool n (i, view_of man) \<longleftrightarrow> n \<in> (\<lambda>t. manager_prefix man @ t_Name t) ` set (GetManagedTools man)"
  "serves_prompt n (i, view_of man) \<longleftrightarrow> n \<in> (\<lambda>p. manager_prefix man @ p_Name p) ` set (GetManagedPrompts man)"
  by (auto simp: serves_tool_def serves_prompt_def view_of_def manager_prefix_def GetConfig_def)

lemma managed_serves:
  assumes "managed man g" and "manager_ID man = i"
  shows "serves_tool n (i, view_of man) \<longleftrightarrow> (\<exists>t. gs_tools g n = Some t \<and> tool_owner t = Some i)"
    and "serves_prompt n (i, view_of man) \<longleftrightarrow> (\<exists>p. gs_prompts g n = Some p \<and> prompt_owner p = Some i)"
proof -
  have "li_served (mm_tools man) = by_name (\<lambda>x. manager_prefix man @ t_Name x) (li_items (mm_tools man))"
    "li_served (mm_prompts man) = by_name (\<lambda>x. manager_prefix man @ p_Name x) (li_items (mm_prompts man))"
    using assms(1) by (simp_all add: managed_def listing_inv_def)
  then have "GetServedManagedTool man n \<noteq> None \<longleftrightarrow> serves_tool n (i, view_of man)"
    "GetServedManagedPrompt man n \<noteq> None \<longleftrightarrow> serves_prompt n (i, view_of man)"
    unfolding served_name GetServedManagedTool_def GetServedManagedPrompt_def GetManagedTools_def
      GetManagedPrompts_def by (simp_all only: by_name_None not_not)
  then show "serves_tool n (i, view_of man) \<longleftrightarrow> (\<exists>t. gs_tools g n = Some t \<and> tool_owner t = Some i)"
    "serves_prompt n (i, view_of man) \<longleftrightarrow> (\<exists>p. gs_prompts g n = Some p \<and> prompt_owner p = Some i)"
    using managed_owned[OF assms] by blast+
qed

lemma servers_in_order_set:
  assumes "ordered E br"
  shows "set (servers_in_order E br) = {(i, man). mb_mcpServers br i = Some man}"
  using iter_order_lookup[OF assms[unfolded ordered_def]]
  by (auto simp: servers_in_order_def set_map_filter)

lemma find_iff_unique:
  assumes "sole_server P es"
  shows "find P es = Some e \<longleftrightarrow> e \<in> set es \<and> P e"
  using find_unique[OF assms] by (metis find_Some_iff nth_mem)

definition broker_views :: "broker_env \<Rightarrow> mcpBrokerImpl \<Rightarrow> (string \<times> upstream_view) list" where
  "broker_views E br = map (\<lambda>(i, man). (i, view_of man)) (servers_in_order E br)"

lemma broker_views_set:
  "ordered E br \<Longrightarrow> set (broker_views E br) = {(i, view_of man) | i man. mb_mcpServers br i = Some man}"
  by (auto simp: broker_views_def servers_in_order_set)

lemma built_table_agrees:
  assumes o: "ordered E br" and f: "fleet_inv (mb_mcpServers br, mb_gatewayServer br)"
  shows "table_agrees br (buildRoutingTable server_Path (broker_views E br))"
proof -
  note inv = fleet_invD[OF f]
  have serves: "serves_tool n (i, view_of man) \<longleftrightarrow> (\<exists>t. gs_tools (mb_gatewayServer br) n = Some t \<and> tool_owner t = Some i)"
    "serves_prompt n (i, view_of man) \<longleftrightarrow> (\<exists>p. gs_prompts (mb_gatewayServer br) n = Some p \<and> prompt_owner p = Some i)"
    if "mb_mcpServers br i = Some man" for i man n
    using managed_serves[OF inv(2)[OF that] inv(1)[OF that]] by blast+
  have sole: "sole_server (serves_tool n) (broker_views E br)" "sole_server (serves_prompt n) (broker_views E br)" for n
    unfolding sole_server_def broker_views_set[OF o] using serves by auto
  have cfg: "uv_Config (view_of man) = GetConfig (mm_mcp man)" for man by (simp add: view_of_def)
  have route: "route_of server_Path (uv_Config (view_of man)) = r \<and> mb_mcpServers br i = Some man \<Longrightarrow> route_for br i = Some r"
    "route_for br i = Some r \<Longrightarrow> \<exists>man. mb_mcpServers br i = Some man \<and> r = route_of server_Path (uv_Config (view_of man))"
    for i man r by (auto simp: route_for_def cfg)
  have "LookupTool (buildRoutingTable server_Path (broker_views E br)) n = Some r \<longleftrightarrow>
      (\<exists>i man. mb_mcpServers br i = Some man \<and> serves_tool n (i, view_of man) \<and>
        r = route_of server_Path (uv_Config (view_of man)))" for n r
    unfolding build_tools[OF sole(1)] map_option_eq_Some find_iff_unique[OF sole(1)] broker_views_set[OF o] by auto
  then have tools: "LookupTool (buildRoutingTable server_Path (broker_views E br)) n = Some r \<longleftrightarrow>
      (\<exists>t i. gs_tools (mb_gatewayServer br) n = Some t \<and> tool_owner t = Some i \<and> route_for br i = Some r)" for n r
    using serves(1) route by metis
  have "LookupPrompt (buildRoutingTable server_Path (broker_views E br)) n = Some r \<longleftrightarrow>
      (\<exists>i man. mb_mcpServers br i = Some man \<and> serves_prompt n (i, view_of man) \<and>
        r = route_of server_Path (uv_Config (view_of man)))" for n r
    unfolding build_prompts[OF sole(2)] map_option_eq_Some find_iff_unique[OF sole(2)] broker_views_set[OF o] by auto
  then have "LookupPrompt (buildRoutingTable server_Path (broker_views E br)) n = Some r \<longleftrightarrow>
      (\<exists>p i. gs_prompts (mb_gatewayServer br) n = Some p \<and> prompt_owner p = Some i \<and> route_for br i = Some r)" for n r
    using serves(2) route by metis
  with tools show ?thesis unfolding table_agrees_def by blast
qed

section \<open>Steps keep the invariant\<close>

lemma fleet_register: "i \<notin> manager_ID ` set ts \<Longrightarrow> (ms(i \<mapsto> m)) ++ by_ID ts = (ms ++ by_ID ts)(i \<mapsto> m)"
  by (rule ext) (simp add: map_add_def by_ID_other split: option.split)

lemma fleet_unregister:
  assumes "manager_ID m \<notin> manager_ID ` set ts" and "manager_ID m \<notin> dom ms"
  shows "ms ++ by_ID ts = (ms ++ by_ID (m # ts))(manager_ID m := None)"
  using assms by (intro ext) (auto simp: map_add_def by_ID_other domIff split: option.split)

lemma fleet_replace:
  assumes "distinct (map manager_ID (xs @ m # ys))" and "manager_ID m' = manager_ID m"
  shows "ms ++ by_ID (xs @ m' # ys) = (ms ++ by_ID (xs @ m # ys))(manager_ID m \<mapsto> m')"
proof -
  have "by_ID (xs @ m' # ys) = (by_ID (xs @ m # ys))(manager_ID m \<mapsto> m')"
    using assms by (induction xs) (auto simp: fun_upd_twist)
  then show ?thesis by (simp add: map_add_upd)
qed

lemma fleet_member:
  assumes "distinct (map manager_ID ts)" and "m \<in> set ts"
  shows "(ms ++ by_ID ts) (manager_ID m) = Some m"
proof -
  have "by_ID ts (manager_ID m) = Some m"
    unfolding by_ID_def using assms by (intro map_of_is_SomeI) (auto simp: comp_def)
  then show ?thesis by simp
qed

lemma on_gateway_result:
  assumes "on_gateway E f br = Some br'"
  shows "mb_mcpServers br' = mb_mcpServers br" "mb_mcpLock br' = mb_mcpLock br"
    "mb_gatewayServer br' = f (mb_gatewayServer br)" "mb_tagsToolsRegistered br' = mb_tagsToolsRegistered br"
    "mb_cachedTable br' =
       (if gs_changes (f (mb_gatewayServer br)) = gs_changes (mb_gatewayServer br) then mb_cachedTable br
        else Some (buildRoutingTable server_Path (broker_views E br')))"
  using assms
  by (auto simp: on_gateway_def Let_def onTableChange_def broker_refresh_def refreshRoutingTable_def
      broker_views_def servers_in_order_def split: if_splits)

text \<open>The table still agrees after an announced change of the gateway.\<close>

definition table_ok :: "mcpBrokerImpl \<Rightarrow> bool" where
  "table_ok br \<longleftrightarrow> (case mb_cachedTable br of None \<Rightarrow> True | Some tb \<Rightarrow> table_agrees br tb)"

lemma table_agrees_cong:
  assumes "route_for br' = route_for br" and "gs_tools (mb_gatewayServer br') = gs_tools (mb_gatewayServer br)"
    and "gs_prompts (mb_gatewayServer br') = gs_prompts (mb_gatewayServer br)"
  shows "table_agrees br' tb = table_agrees br tb"
  unfolding table_agrees_def assms ..

lemma table_after_change:
  assumes res: "on_gateway E f br1 = Some br'" and ok: "table_ok br"
    and same: "mb_cachedTable br1 = mb_cachedTable br" "mb_gatewayServer br1 = mb_gatewayServer br"
      "route_for br1 = route_for br"
    and ann: "announced (mb_gatewayServer br) (f (mb_gatewayServer br))"
    and ord: "ordered E br'" and f: "fleet_inv (mb_mcpServers br', mb_gatewayServer br')"
  shows "table_ok br'"
proof (cases "gs_changes (f (mb_gatewayServer br)) = gs_changes (mb_gatewayServer br)")
  case True
  then have "gs_tools (mb_gatewayServer br') = gs_tools (mb_gatewayServer br)"
    "gs_prompts (mb_gatewayServer br') = gs_prompts (mb_gatewayServer br)"
    using ann same on_gateway_result(3)[OF res] by (simp_all add: announced_def)
  moreover have "route_for br' = route_for br"
    using same(3) on_gateway_result(1)[OF res] by (simp add: route_for_def fun_eq_iff)
  moreover have "mb_cachedTable br' = mb_cachedTable br" using on_gateway_result(5)[OF res] same True by simp
  ultimately have "table_agrees br' tb = table_agrees br tb" "mb_cachedTable br' = mb_cachedTable br" for tb
    using table_agrees_cong[of br' br] by blast+
  then show ?thesis using ok unfolding table_ok_def by (simp split: option.splits)
next
  case False
  then have "mb_cachedTable br' = Some (buildRoutingTable server_Path (broker_views E br'))"
    using on_gateway_result(5)[OF res] same by simp
  then show ?thesis using built_table_agrees[OF ord f] by (simp add: table_ok_def)
qed

lemma serving_invI:
  assumes "\<not> mb_mcpLock br" and "distinct (map manager_ID (stopping r))"
    and "dom (mb_mcpServers br) \<inter> manager_ID ` set (stopping r) = {}" and "brokerServerID \<notin> dom (mb_mcpServers br)"
    and "fleet_inv (mb_mcpServers br ++ by_ID (stopping r), mb_gatewayServer br)" and "r = None \<Longrightarrow> table_ok br"
  shows "serving_inv (br, r)"
  using assms by (simp add: serving_inv_def fleet_of_def table_ok_def)

lemma serving_invD:
  assumes "serving_inv (br, r)"
  shows "\<not> mb_mcpLock br" and "distinct (map manager_ID (stopping r))"
    and "dom (mb_mcpServers br) \<inter> manager_ID ` set (stopping r) = {}" and "brokerServerID \<notin> dom (mb_mcpServers br)"
    and "fleet_inv (mb_mcpServers br ++ by_ID (stopping r), mb_gatewayServer br)" and "r = None \<Longrightarrow> table_ok br"
  using assms by (simp_all add: serving_inv_def fleet_of_def table_ok_def)

lemma route_for_update:
  assumes "mb_mcpServers br i = Some man" and "up_cfg (mm_mcp man') = up_cfg (mm_mcp man)"
  shows "route_for (br\<lparr>mb_mcpServers := (mb_mcpServers br)(i \<mapsto> man')\<rparr>) = route_for br"
  using assms by (auto simp: route_for_def GetConfig_def fun_eq_iff)

lemma inv_pass:
  assumes inv: "serving_inv (br, r)" and man: "mb_mcpServers br i = Some man" and tr: "traversal (pr_Order pr)"
    and res: "manager_pass E pr ev i br = Some br'" and ord: "ordered E br'"
  shows "serving_inv (br', r)"
proof -
  obtain man' g' where l: "loop_round pr ev (man, mb_gatewayServer br) = (man', g')" by fastforce
  let ?br1 = "br\<lparr>mb_mcpServers := (mb_mcpServers br)(i \<mapsto> man')\<rparr>"
  have og: "on_gateway E (\<lambda>_. g') ?br1 = Some br'" using res man l by (simp add: manager_pass_def)
  note d = serving_invD[OF inv]
  note r = on_gateway_result[OF og]
  have i: "i \<notin> manager_ID ` set (stopping r)" using d(3) man by auto
  then have "(mb_mcpServers br ++ by_ID (stopping r)) i = Some man" using man by (simp add: map_add_def by_ID_other)
  from fleet_inv_step[OF fleet_step.round[of "mb_mcpServers br ++ by_ID (stopping r)" i man, OF this tr l] d(5)]
  have f: "fleet_inv (mb_mcpServers br' ++ by_ID (stopping r), mb_gatewayServer br')"
    using r fleet_register[OF i] by simp
  have cfg: "up_cfg (mm_mcp man') = up_cfg (mm_mcp man)"
    using keeps_loop_round[OF tr, of "(man, mb_gatewayServer br)" ev] l by (simp add: keeps_def)
  have "table_ok br'" if "r = None"
    using table_after_change[OF og d(6)[OF that] _ _ route_for_update[OF man cfg] _ ord]
      announced_pass[of "mb_gatewayServer br" pr ev man] l f that by (simp add: stopping_def)
  then show ?thesis using d(1-4) r f man by (intro serving_invI) auto
qed

lemma inv_late:
  assumes inv: "serving_inv (br, Some (xs @ man # ys, c))" and tr: "traversal (pr_Order pr)"
    and res: "late_pass E pr ev man br = Some (man', br')"
  shows "serving_inv (br', Some (xs @ man' # ys, c))"
proof -
  obtain g' where l: "loop_round pr ev (man, mb_gatewayServer br) = (man', g')"
    and og: "on_gateway E (\<lambda>_. g') br = Some br'"
    using res by (auto simp: late_pass_def split: prod.splits)
  note d = serving_invD[OF inv, unfolded stopping_def option.case prod.case]
  note r = on_gateway_result[OF og]
  have id: "manager_ID man' = manager_ID man"
    using keeps_loop_round[OF tr, of "(man, mb_gatewayServer br)" ev] l by (simp add: keeps_def manager_ID_def)
  have "(mb_mcpServers br ++ by_ID (xs @ man # ys)) (manager_ID man) = Some man" by (rule fleet_member[OF d(2)]) simp
  from fleet_inv_step[OF fleet_step.round[of "mb_mcpServers br ++ by_ID (xs @ man # ys)" "manager_ID man" man,
      OF this tr l] d(5)]
  have "fleet_inv (mb_mcpServers br' ++ by_ID (xs @ man' # ys), mb_gatewayServer br')"
    using r fleet_replace[OF d(2) id] by simp
  then show ?thesis using d(1-4) r id by (intro serving_invI) (auto simp: stopping_def)
qed

lemma inv_stop:
  assumes inv: "serving_inv (br, Some (man # toStop, c))" and res: "stop_manager E man br = Some br'"
  shows "serving_inv (br', Some (toStop, c))"
proof -
  obtain man' g' where l: "loop_stop (be_Now E) (man, mb_gatewayServer br) = (man', g')" by fastforce
  note d = serving_invD[OF inv, unfolded stopping_def option.case prod.case]
  note r = on_gateway_result[OF res[unfolded stop_manager_def]]
  have "(mb_mcpServers br ++ by_ID (man # toStop)) (manager_ID man) = Some man" by (rule fleet_member[OF d(2)]) simp
  from fleet_inv_step[OF fleet_step.halt[of "mb_mcpServers br ++ by_ID (man # toStop)" "manager_ID man" man,
      OF this l] d(5)]
  have "fleet_inv (mb_mcpServers br' ++ by_ID toStop, mb_gatewayServer br')"
    using r l fleet_unregister[of man toStop "mb_mcpServers br"] d(2,3) by simp
  then show ?thesis using d(1-4) r by (intro serving_invI) (auto simp: stopping_def)
qed

text \<open>Taking managers out of the map leaves the fleet as it is.\<close>

definition splits_off :: "MCPManager gomap \<Rightarrow> MCPManager list \<Rightarrow> MCPManager gomap \<Rightarrow> bool" where
  "splits_off ms out ms' \<longleftrightarrow>
     distinct (map manager_ID out) \<and> dom ms' \<inter> manager_ID ` set out = {} \<and> ms' ++ by_ID out = ms"

lemma splits_off_dom: "splits_off ms out ms' \<Longrightarrow> dom ms = dom ms' \<union> manager_ID ` set out"
  unfolding splits_off_def by (metis by_ID_dom dom_map_add sup_commute)

lemma stale_changed_splits:
  assumes "\<forall>i man. ms i = Some man \<longrightarrow> manager_ID man = i"
  shows "splits_off ms (fst (stale_changed b servers ms)) (snd (stale_changed b servers ms))"
  using assms
proof (induction servers arbitrary: ms)
  case (Cons s servers)
  show ?case
  proof (cases "fst (stale_changed b (s # servers) ms) = fst (stale_changed b servers ms) \<and>
      snd (stale_changed b (s # servers) ms) = snd (stale_changed b servers ms)")
    case True
    then show ?thesis using Cons by auto
  next
    case False
    then obtain man where man: "ms (server_ID s) = Some man"
      and res: "stale_changed b (s # servers) ms =
        (man # fst (stale_changed b servers (ms(server_ID s := None))), snd (stale_changed b servers (ms(server_ID s := None))))"
      by (auto simp: Let_def case_prod_unfold split: option.splits if_splits)
    have id: "manager_ID man = server_ID s" using Cons.prems man by blast
    have IH: "splits_off (ms(server_ID s := None)) (fst (stale_changed b servers (ms(server_ID s := None))))
        (snd (stale_changed b servers (ms(server_ID s := None))))"
      by (rule Cons.IH) (use Cons.prems in auto)
    have "server_ID s \<notin> dom (ms(server_ID s := None))" by simp
    then have "server_ID s \<notin> dom (snd (stale_changed b servers (ms(server_ID s := None))))"
      "server_ID s \<notin> manager_ID ` set (fst (stale_changed b servers (ms(server_ID s := None))))"
      using splits_off_dom[OF IH] by blast+
    moreover have "ms = (ms(server_ID s := None))(server_ID s \<mapsto> man)" using man by auto
    ultimately show ?thesis
      using IH id unfolding splits_off_def res by (auto simp: map_add_upd)
  qed
qed (simp add: splits_off_def)

lemma map_filter_keys:
  "map fst (List.map_filter (\<lambda>i. map_option (\<lambda>v. (i, v)) (m i)) ks) = filter (\<lambda>i. m i \<noteq> None) ks"
  by (induction ks) (auto simp: map_filter_simps split: option.split)

lemma stale_removed_splits:
  assumes o: "ordered E br" and ids: "\<forall>i man. mb_mcpServers br i = Some man \<longrightarrow> manager_ID man = i"
  shows "splits_off (mb_mcpServers br) (fst (stale_removed E servers br)) (snd (stale_removed E servers br))"
proof -
  let ?out = "filter (\<lambda>(i, man). i \<notin> set (map server_ID servers)) (servers_in_order E br)"
  have mem: "(i, man) \<in> set ?out \<longleftrightarrow> mb_mcpServers br i = Some man \<and> i \<notin> set (map server_ID servers)" for i man
    using servers_in_order_set[OF o] by auto
  have keys: "map manager_ID (map snd ?out) = map fst ?out"
    using mem ids by (auto simp: map_eq_conv)
  have "map fst (servers_in_order E br) = filter (\<lambda>i. mb_mcpServers br i \<noteq> None) (be_Order E (mb_mcpServers br))"
    by (simp add: servers_in_order_def map_filter_keys)
  then have "distinct (map fst (servers_in_order E br))"
    using o by (simp add: ordered_def iter_order_def)
  then have dis: "distinct (map fst ?out)" by (rule distinct_map_filter)
  have "(manager_ID (snd e), snd e) = e" if "e \<in> set ?out" for e
    using that mem[of "fst e" "snd e"] ids by (metis prod.collapse)
  then have "map (\<lambda>m. (manager_ID m, m)) (map snd ?out) = ?out"
    unfolding map_map comp_def by (rule map_idI)
  then have lk: "by_ID (map snd ?out) i = Some man \<longleftrightarrow> mb_mcpServers br i = Some man \<and> i \<notin> set (map server_ID servers)"
    for i man unfolding by_ID_def using map_of_eq_Some_iff[OF dis] mem by simp
  have "manager_ID ` set (map snd ?out) = fst ` set ?out" using keys by (metis list.set_map)
  moreover have "fst ` set ?out \<inter> set (map server_ID servers) = {}" by auto
  moreover have all: "(\<lambda>i. if i \<in> set (map server_ID servers) then mb_mcpServers br i else None) ++
      by_ID (map snd ?out) = mb_mcpServers br"
  proof (rule ext)
    fix i
    show "((\<lambda>i. if i \<in> set (map server_ID servers) then mb_mcpServers br i else None) ++ by_ID (map snd ?out)) i =
        mb_mcpServers br i"
    proof (cases "by_ID (map snd ?out) i")
      case None
      then have "mb_mcpServers br i = None" if "i \<notin> set (map server_ID servers)"
        using lk[of i] that by (cases "mb_mcpServers br i") auto
      then show ?thesis using None by (auto simp: map_add_def)
    next
      case (Some man)
      then have "mb_mcpServers br i = Some man" using lk by blast
      then show ?thesis using Some by (simp add: map_add_def)
    qed
  qed
  moreover have "dom (\<lambda>i. if i \<in> set (map server_ID servers) then mb_mcpServers br i else None) \<subseteq> set (map server_ID servers)"
    by (auto split: if_splits)
  ultimately have "dom (\<lambda>i. if i \<in> set (map server_ID servers) then mb_mcpServers br i else None) \<inter>
      manager_ID ` set (map snd ?out) = {}" by blast
  then show ?thesis
    unfolding splits_off_def stale_removed_def Let_def fst_conv snd_conv keys using dis all by blast
qed

lemma splits_off_trans:
  assumes "splits_off ms a ms1" and "splits_off ms1 b ms2"
  shows "splits_off ms (a @ b) ms2"
proof -
  have "by_ID (a @ b) = by_ID b ++ by_ID a" by (simp add: by_ID_def map_of_append)
  moreover have "dom ms1 = dom ms2 \<union> manager_ID ` set b" by (rule splits_off_dom[OF assms(2)])
  then have "dom ms2 \<inter> manager_ID ` set a = {}" "manager_ID ` set a \<inter> manager_ID ` set b = {}"
    using assms(1) unfolding splits_off_def by blast+
  ultimately show ?thesis
    using assms unfolding splits_off_def map_append distinct_append set_append image_Un set_map
    by (simp add: map_add_assoc Int_Un_distrib)
qed

lemma deregister_splits:
  assumes "ordered E br" and "\<forall>i man. mb_mcpServers br i = Some man \<longrightarrow> manager_ID man = i"
    and "deregisterStaleManagers E servers ca br = (toStop, br')"
  shows "splits_off (mb_mcpServers br) toStop (mb_mcpServers br')"
    and "mb_gatewayServer br' = mb_gatewayServer br" "mb_mcpLock br' = mb_mcpLock br"
    "mb_tagsToolsRegistered br' = mb_tagsToolsRegistered br"
proof -
  let ?r = "stale_removed E servers br"
  have "\<forall>i man. snd ?r i = Some man \<longrightarrow> manager_ID man = i"
    using assms(2) by (simp add: stale_removed_def Let_def)
  from splits_off_trans[OF stale_removed_splits[OF assms(1,2)] stale_changed_splits[OF this]]
  show "splits_off (mb_mcpServers br) toStop (mb_mcpServers br')"
    using assms(3) by (auto simp: deregisterStaleManagers_def Let_def case_prod_unfold)
qed (use assms(3) in \<open>auto simp: deregisterStaleManagers_def Let_def case_prod_unfold\<close>)

lemma start_server_frame [simp]:
  "mb_gatewayServer (start_server cfg br) = mb_gatewayServer br" "mb_mcpLock (start_server cfg br) = mb_mcpLock br"
  "mb_cachedTable (start_server cfg br) = mb_cachedTable br"
  "mb_tagsToolsRegistered (start_server cfg br) = mb_tagsToolsRegistered br"
  "mb_gatewayCACertPEM (start_server cfg br) = mb_gatewayCACertPEM br"
  by (simp_all add: start_server_def split: option.split)

lemma start_servers_frame [simp]:
  "mb_gatewayServer (fold start_server servers br) = mb_gatewayServer br"
  "mb_mcpLock (fold start_server servers br) = mb_mcpLock br"
  "mb_tagsToolsRegistered (fold start_server servers br) = mb_tagsToolsRegistered br"
  by (induction servers arbitrary: br) simp_all

lemma start_servers_fleet:
  assumes "fleet_inv (mb_mcpServers br, mb_gatewayServer br)" and "brokerServerID \<notin> dom (mb_mcpServers br)"
  shows "fleet_inv (mb_mcpServers (fold start_server servers br), mb_gatewayServer br) \<and>
    brokerServerID \<notin> dom (mb_mcpServers (fold start_server servers br))"
  using assms
proof (induction servers arbitrary: br)
  case (Cons cfg servers)
  have "fleet_inv (mb_mcpServers (start_server cfg br), mb_gatewayServer br) \<and>
      brokerServerID \<notin> dom (mb_mcpServers (start_server cfg br))"
  proof (cases "mb_mcpServers br (server_ID cfg)")
    case None
    from fleet_inv_step[OF fleet_step.launch[of "mb_mcpServers br" cfg, OF None] Cons.prems(1)] show ?thesis
      using None Cons.prems(2) server_ID_not_broker[of cfg] by (auto simp: start_server_def)
  qed (use Cons.prems in \<open>simp add: start_server_def\<close>)
  then show ?case using Cons.IH[of "start_server cfg br"] by simp
qed simp

text \<open>With the lock held, the tags tools can neither be registered nor removed.\<close>

lemma locked_no_change:
  "mb_mcpLock br \<Longrightarrow> on_gateway E f br =
     (if gs_changes (f (mb_gatewayServer br)) = gs_changes (mb_gatewayServer br)
      then Some (br\<lparr>mb_gatewayServer := f (mb_gatewayServer br)\<rparr>) else None)"
  by (simp add: on_gateway_def onTableChange_def Let_def)

lemma unlocked_gateway: "\<not> mb_mcpLock br \<Longrightarrow> \<exists>b. on_gateway E f br = Some b"
  by (simp add: on_gateway_def onTableChange_def Let_def)

lemma locked_sync:
  assumes "mb_mcpLock br"
  shows "syncTagsTools E servers br =
    (if list_ex (\<lambda>s. srv_Tags s \<noteq> []) servers = mb_tagsToolsRegistered br then Some br else None)"
  using assms
  by (auto simp: syncTagsTools_def registerTagsTools_def Let_def locked_no_change AddTools_def DeleteTools_def
      tableChange_def markBroadcast_def)

lemma startManagers_result:
  assumes "startManagers E servers vss br = Some br'" and "\<not> mb_mcpLock br"
  shows "mb_mcpServers br' = mb_mcpServers (fold start_server servers (br\<lparr>mb_mcpLock := True\<rparr>))"
    "mb_gatewayServer br' = mb_gatewayServer br" "\<not> mb_mcpLock br'"
    "mb_cachedTable br' = Some (buildRoutingTable server_Path (broker_views E br'))"
    "mb_virtualServers br' = insert_named vs_Name vss emptymap"
    "mb_userSpecificServers br' = user_specific_servers servers"
  using assms
  by (auto simp: startManagers_def locked_sync broker_refresh_def refreshRoutingTable_def broker_views_def
      servers_in_order_def split: if_splits)

lemma inv_start:
  assumes inv: "serving_inv (br, Some ([], c))" and res: "startManagers E servers vss br = Some br'"
    and ord: "ordered E br'"
  shows "serving_inv (br', None)"
proof -
  note d = serving_invD[OF inv, unfolded stopping_def option.case prod.case, simplified]
  note r = startManagers_result[OF res d(1)]
  have "fleet_inv (mb_mcpServers br', mb_gatewayServer br') \<and> brokerServerID \<notin> dom (mb_mcpServers br')"
    using start_servers_fleet[of "br\<lparr>mb_mcpLock := True\<rparr>" servers] d r(1,2) by simp
  moreover from this have "table_ok br'" using built_table_agrees[OF ord] r(4) by (simp add: table_ok_def)
  ultimately show ?thesis using r(3) by (intro serving_invI) (simp_all add: stopping_def)
qed

lemma inv_dereg:
  assumes inv: "serving_inv (br, None)" and ord: "ordered E br"
    and res: "deregisterStaleManagers E servers ca br = (toStop, br')"
  shows "serving_inv (br', Some (toStop, c))"
proof -
  note d = serving_invD[OF inv, unfolded stopping_def option.case]
  have "fleet_inv (mb_mcpServers br, mb_gatewayServer br)" using d(5) by simp
  from fleet_invD(1)[OF this] have "\<forall>i man. mb_mcpServers br i = Some man \<longrightarrow> manager_ID man = i" by blast
  note r = deregister_splits[OF ord this res]
  show ?thesis
    using d r splits_off_dom[OF r(1)] by (intro serving_invI) (auto simp: stopping_def splits_off_def)
qed

lemma inv_notice:
  assumes inv: "serving_inv (br, r)" and man: "mb_mcpServers br i = Some man"
  shows "serving_inv (br\<lparr>mb_mcpServers := (mb_mcpServers br)(i \<mapsto> on_notification meth man)\<rparr>, r)" (is "serving_inv (?br, r)")
proof -
  note d = serving_invD[OF inv]
  have i: "i \<notin> manager_ID ` set (stopping r)" using d(3) man by auto
  then have "(mb_mcpServers br ++ by_ID (stopping r)) i = Some man" using man by (simp add: map_add_def by_ID_other)
  from fleet_inv_step[OF fleet_step.notice[of "mb_mcpServers br ++ by_ID (stopping r)" i man, OF this] d(5)]
  have f: "fleet_inv (mb_mcpServers ?br ++ by_ID (stopping r), mb_gatewayServer ?br)"
    using fleet_register[OF i] by simp
  have "up_cfg (mm_mcp (on_notification meth man)) = up_cfg (mm_mcp man)" by (simp add: on_notification_def)
  from table_agrees_cong[OF route_for_update[OF man this]]
  have "table_ok ?br = table_ok br" by (simp add: table_ok_def split: option.split)
  then show ?thesis using d f man by (intro serving_invI) auto
qed

lemma options_frame:
  assumes "\<forall>opt \<in> set opts. broker_option opt"
  shows "mb_mcpServers (fold (\<lambda>opt b. opt b) opts br) = mb_mcpServers br"
    "mb_mcpLock (fold (\<lambda>opt b. opt b) opts br) = mb_mcpLock br"
    "mb_cachedTable (fold (\<lambda>opt b. opt b) opts br) = mb_cachedTable br"
    "mb_tagsToolsRegistered (fold (\<lambda>opt b. opt b) opts br) = mb_tagsToolsRegistered br"
proof -
  have one: "mb_mcpServers (opt b) = mb_mcpServers b \<and> mb_mcpLock (opt b) = mb_mcpLock b \<and>
      mb_cachedTable (opt b) = mb_cachedTable b \<and> mb_tagsToolsRegistered (opt b) = mb_tagsToolsRegistered b"
    if "broker_option opt" for opt b
    using that
    by cases (simp_all add: WithEnforceCapabilityFilter_def WithTrustedHeadersPublicKey_def
        WithManagerTickerInterval_def WithInvalidToolPolicy_def WithElicitationEnabled_def
        WithDiscoveryToolsEnabled_def WithDiscoveryToolThreshold_def WithUserSpecificFetchTimeout_def)
  show "mb_mcpServers (fold (\<lambda>opt b. opt b) opts br) = mb_mcpServers br"
    "mb_mcpLock (fold (\<lambda>opt b. opt b) opts br) = mb_mcpLock br"
    "mb_cachedTable (fold (\<lambda>opt b. opt b) opts br) = mb_cachedTable br"
    "mb_tagsToolsRegistered (fold (\<lambda>opt b. opt b) opts br) = mb_tagsToolsRegistered br"
    using assms by (induction opts arbitrary: br) (simp_all add: one)
qed

lemma meta_tool_owner [simp]: "tool_owner (meta_tool name descr schema) = Some brokerServerID"
  by (simp add: tool_owner_def meta_tool_def meta_owner_def broker_meta_def gatewayServerID_def brokerToolMetaKey_def)

lemma inv_init:
  assumes opts: "\<forall>opt \<in> set opts. broker_option opt" and res: "broker_NewBroker E opts = Some br" and ord: "ordered E br"
  shows "serving_inv (br, None)"
proof -
  note fr = options_frame[OF opts, of zero_broker]
  have g: "mb_mcpServers br = emptymap \<and> \<not> mb_mcpLock br \<and> gs_prompts (mb_gatewayServer br) = emptymap \<and>
      (\<forall>n t. gs_tools (mb_gatewayServer br) n = Some t \<longrightarrow> tool_owner t = Some brokerServerID) \<and>
      (mb_cachedTable br = None \<or> mb_cachedTable br = Some (buildRoutingTable server_Path (broker_views E br)))"
  proof (cases "dc_enabled (mb_discovery (fold (\<lambda>opt b. opt b) opts zero_broker))")
    case True
    let ?b = "(fold (\<lambda>opt b. opt b) opts zero_broker)\<lparr>mb_scopeStore := Some (newScopeStore defaultScopeTTL defaultScopeMaxSize),
      mb_gatewayServer := newGatewayServer 0\<rparr>"
    have "registerDiscoveryTools E ?b = Some br" using res True by (simp add: broker_NewBroker_def Let_def)
    note r = on_gateway_result[OF this[unfolded registerDiscoveryTools_def]]
    then show ?thesis
      using fr by (auto simp: zero_broker_def newGatewayServer_def AddTools_def markBroadcast_def tableChange_def
          split: if_splits)
  next
    case False
    then show ?thesis using res fr by (auto simp: broker_NewBroker_def Let_def zero_broker_def newGatewayServer_def)
  qed
  then have f: "fleet_inv (mb_mcpServers br, mb_gatewayServer br)" by (auto simp: fleet_inv_def)
  have "table_ok br" using g built_table_agrees[OF ord f] by (auto simp: table_ok_def)
  then show ?thesis using g f by (intro serving_invI) (auto simp: stopping_def)
qed

lemma inv_request:
  assumes "serving_inv (br, r)" and "mb_mcpServers br' = mb_mcpServers br" and "mb_cachedTable br' = mb_cachedTable br"
    and "mb_mcpLock br' = mb_mcpLock br" and "gs_tools (mb_gatewayServer br') = gs_tools (mb_gatewayServer br)"
    and "gs_prompts (mb_gatewayServer br') = gs_prompts (mb_gatewayServer br)"
  shows "serving_inv (br', r)"
proof -
  note d = serving_invD[OF assms(1)]
  have "fleet_inv (ms, mb_gatewayServer br') = fleet_inv (ms, mb_gatewayServer br)" for ms
    by (simp add: fleet_inv_def managed_def assms(5,6))
  moreover have "table_agrees br' tb = table_agrees br tb" for tb
    by (rule table_agrees_cong) (simp_all add: route_for_def assms fun_eq_iff)
  ultimately show ?thesis using d assms(2-4) by (intro serving_invI) (auto simp: table_ok_def split: option.splits)
qed

lemma serving_inv_run: "reload_run s \<Longrightarrow> serving_inv s"
proof (induction rule: reload_run.induct)
  case (init opts E br)
  then show ?case by (rule inv_init)
next
  case (step s s')
  from step(2,3) show ?case
    by (induction rule: reload_step.induct)
      (blast intro: inv_pass inv_notice inv_late inv_request inv_dereg inv_stop inv_start)+
qed

section \<open>Properties\<close>


text \<open>A broker that is configured with one server and has seen one pass of its manager.\<close>

definition demo_env :: broker_env where
  "demo_env = \<lparr>be_Now = 1, be_Order = (\<lambda>m. filter (\<lambda>k. m k \<noteq> None) [server_ID echo_server])\<rparr>"

definition demo_new :: mcpBrokerImpl where
  "demo_new = the (broker_NewBroker demo_env [])"

definition demo_started :: mcpBrokerImpl where
  "demo_started = the (broker_OnConfigChange demo_env [echo_server] [] [] demo_new)"

definition demo_broker :: mcpBrokerImpl where
  "demo_broker = the (manager_pass demo_env (echo_probe None [echo_tool]) eventTypeTimer (server_ID echo_server) demo_started)"

lemma demo_ordered:
  assumes "\<forall>k. k \<noteq> server_ID echo_server \<longrightarrow> mb_mcpServers br k = None"
  shows "ordered demo_env br"
proof -
  have "dom (mb_mcpServers br) \<subseteq> {server_ID echo_server}" using assms by (metis domIff insertI1 subsetI)
  then show ?thesis unfolding ordered_def iter_order_def demo_env_def by (auto simp: domIff)
qed

lemma some_the: "\<not> Option.is_none x \<Longrightarrow> x = Some (the x)"
  by (simp add: Option.is_none_def)

lemma demo_run: "reload_run (demo_broker, None)" "ordered demo_env demo_broker"
proof -
  have n: "broker_NewBroker demo_env [] = Some demo_new" unfolding demo_new_def by (rule some_the) code_simp
  have "registerDiscoveryTools demo_env (zero_broker\<lparr>mb_scopeStore := Some (newScopeStore defaultScopeTTL defaultScopeMaxSize),
      mb_gatewayServer := newGatewayServer 0\<rparr>) = Some demo_new"
    using n by (simp add: broker_NewBroker_def Let_def zero_broker_def)
  from on_gateway_result(1,2)[OF this[unfolded registerDiscoveryTools_def]]
  have m: "mb_mcpServers demo_new = emptymap" "\<not> mb_mcpLock demo_new" by (simp_all add: zero_broker_def)
  have o: "ordered demo_env demo_new" by (rule demo_ordered) (simp add: m)
  have r0: "reload_run (demo_new, None)" by (rule reload_run.init[OF _ n o]) simp
  let ?d = "deregisterStaleManagers demo_env [echo_server] [] demo_new"
  have "fst ?d = []" "mb_mcpServers (snd ?d) = emptymap" "\<not> mb_mcpLock (snd ?d)"
    by (simp_all add: deregisterStaleManagers_def stale_removed_def servers_in_order_def map_filter_simps
        demo_env_def m fun_eq_iff)
  then obtain b where d: "?d = ([], b)" and b: "mb_mcpServers b = emptymap" "\<not> mb_mcpLock b"
    by (metis prod.collapse)
  have "broker_OnConfigChange demo_env [echo_server] [] [] demo_new = Some demo_started" unfolding demo_started_def
    by (rule some_the) code_simp
  then have st: "startManagers demo_env [echo_server] [] b = Some demo_started" by (simp add: broker_OnConfigChange_def d)
  have ms: "mb_mcpServers demo_started k = None" if "k \<noteq> server_ID echo_server" for k
    using startManagers_result(1)[OF st b(2)] b(1) that by (simp add: start_server_def)
  have s1: "reload_step (demo_new, None) (b, Some ([], [echo_server], []))" by (rule reload_step.dereg[OF o d])
  have s2: "reload_step (b, Some ([], [echo_server], [])) (demo_started, None)"
    by (rule reload_step.start[OF st demo_ordered]) (simp add: ms)
  have r1: "reload_run (demo_started, None)"
    by (rule reload_run.step[OF reload_run.step[OF r0 s1] s2])
  have p: "manager_pass demo_env (echo_probe None [echo_tool]) eventTypeTimer (server_ID echo_server) demo_started = Some demo_broker"
    unfolding demo_broker_def by (rule some_the) code_simp
  obtain man where man: "mb_mcpServers demo_started (server_ID echo_server) = Some man"
    using startManagers_result(1)[OF st b(2)] b(1) by (simp add: start_server_def)
  have "mb_mcpServers demo_broker k = None" if "k \<noteq> server_ID echo_server" for k
    using p man ms that by (auto simp: manager_pass_def case_prod_unfold Let_def dest: on_gateway_result(1))
  then show o2: "ordered demo_env demo_broker" by (intro demo_ordered) simp
  have "traversal (pr_Order (echo_probe None [echo_tool]))" by (simp add: traversal_def echo_probe_def)
  from reload_run.step[OF r1 reload_step.pass[OF man this p o2]] show "reload_run (demo_broker, None)" .
qed

lemma demo_served:
  "map_option tool_owner (ListTools (mb_gatewayServer demo_broker) ''e_echo'') = Some (Some (server_ID echo_server))"
  by code_simp

lemma demo_manager:
  "map_option (\<lambda>man. GetConfig (mm_mcp man)) (RegisteredMCPServers demo_broker (server_ID echo_server)) = Some echo_server"
  by code_simp


text \<open>
  C18: A reload of the configuration returns exactly when the presence of tags does not change. When
  the first server with a tag appears, or the last one disappears, \<open>startManagers\<close> registers or
  removes the tags tools while it holds \<open>mcpLock\<close> for writing; the gateway announces the change to
  the broker, which asks for \<open>mcpLock\<close> again, and the reload never goes on.
\<close>

theorem reload_returns_iff_tags_stay:
  assumes "\<not> mb_mcpLock br"
  shows "broker_OnConfigChange E servers vss ca br = None \<longleftrightarrow>
    list_ex (\<lambda>s. srv_Tags s \<noteq> []) servers \<noteq> mb_tagsToolsRegistered br"
proof -
  have stop: "\<exists>b'. stop_managers E toStop b = Some b' \<and> \<not> mb_mcpLock b' \<and>
      mb_tagsToolsRegistered b' = mb_tagsToolsRegistered b" if "\<not> mb_mcpLock b" for toStop b
    using that
  proof (induction toStop arbitrary: b)
    case (Cons man toStop)
    then obtain b1 where b1: "stop_manager E man b = Some b1"
      using unlocked_gateway unfolding stop_manager_def by blast
    from on_gateway_result(2,4)[OF this[unfolded stop_manager_def]] show ?case
      using Cons.IH[of b1] Cons.prems by (simp add: b1)
  qed simp
  obtain toStop b where d: "deregisterStaleManagers E servers ca br = (toStop, b)" by fastforce
  then have "\<not> mb_mcpLock b" "mb_tagsToolsRegistered b = mb_tagsToolsRegistered br"
    using assms by (auto simp: deregisterStaleManagers_def Let_def case_prod_unfold)
  with stop[of b toStop] show ?thesis
    by (auto simp: broker_OnConfigChange_def d startManagers_def locked_sync split: option.split if_splits)
qed

theorem reload_returns_iff_tags_stay_witness:
  "broker_OnConfigChange demo_env [echo_server\<lparr>srv_Tags := [''db'']\<rparr>] [] [] demo_new = None \<and>
   broker_OnConfigChange demo_env [echo_server] [] [] demo_new \<noteq> None"
proof -
  have "\<not> mb_mcpLock demo_new" "\<not> mb_tagsToolsRegistered demo_new" by code_simp+
  then show ?thesis
    using reload_returns_iff_tags_stay[of demo_new demo_env "[echo_server\<lparr>srv_Tags := [''db'']\<rparr>]" "[]" "[]"]
      reload_returns_iff_tags_stay[of demo_new demo_env "[echo_server]" "[]" "[]"]
    by (simp add: echo_server_def)
qed

lemma stale_changed_Cons:
  "snd (stale_changed b (s # servers) ms) =
     (case ms (server_ID s) of
        None \<Rightarrow> snd (stale_changed b servers ms)
      | Some man \<Rightarrow>
          if (b \<and> HasPrefix (srv_URL s) ''https://'') \<or> server_ConfigChanged s (GetConfig (mm_mcp man))
          then snd (stale_changed b servers (ms(server_ID s := None))) else snd (stale_changed b servers ms))"
  by (simp add: Let_def case_prod_unfold split: option.split)

lemma stale_changed_sub: "snd (stale_changed b servers ms) i = Some man \<Longrightarrow> ms i = Some man"
proof (induction servers arbitrary: ms)
  case (Cons s servers)
  from Cons.prems have "snd (stale_changed b servers ms) i = Some man \<or>
      snd (stale_changed b servers (ms(server_ID s := None))) i = Some man"
    unfolding stale_changed_Cons by (simp split: option.splits if_splits)
  then show ?case using Cons.IH by (metis fun_upd_apply option.distinct(1))
qed simp

lemma stale_changed_kept:
  assumes "distinct (map server_ID servers)" and "s \<in> set servers"
    and "snd (stale_changed b servers ms) (server_ID s) = Some man"
  shows "\<not> (b \<and> HasPrefix (srv_URL s) ''https://'') \<and> \<not> server_ConfigChanged s (GetConfig (mm_mcp man))"
  using assms
proof (induction servers arbitrary: ms)
  case (Cons c servers)
  show ?case
  proof (cases "c = s")
    case True
    show ?thesis
      using Cons.prems(3) stale_changed_sub[of b servers ms "server_ID s" man]
        stale_changed_sub[of b servers "ms(server_ID s := None)" "server_ID s" man] True
      unfolding stale_changed_Cons by (simp split: option.splits if_splits)
  next
    case False
    then have "s \<in> set servers" "distinct (map server_ID servers)" using Cons.prems(1,2) by auto
    moreover have "snd (stale_changed b servers ms) (server_ID s) = Some man \<or>
        snd (stale_changed b servers (ms(server_ID c := None))) (server_ID s) = Some man"
      using Cons.prems(3) unfolding stale_changed_Cons by (simp split: option.splits if_splits)
    ultimately show ?thesis using Cons.IH by blast
  qed
qed simp

lemma deregister_map:
  assumes "deregisterStaleManagers E servers ca br = (toStop, b)"
  shows "mb_gatewayCACertPEM b = ca" "mb_mcpLock b = mb_mcpLock br"
    "mb_mcpServers b = snd (stale_changed (mb_gatewayCACertPEM br \<noteq> ca) servers (snd (stale_removed E servers br)))"
  using assms by (auto simp: deregisterStaleManagers_def Let_def case_prod_unfold)

lemma stop_managers_frame:
  "stop_managers E toStop b = Some b' \<Longrightarrow> mb_mcpServers b' = mb_mcpServers b \<and> mb_mcpLock b' = mb_mcpLock b \<and>
     mb_gatewayCACertPEM b' = mb_gatewayCACertPEM b"
proof (induction toStop arbitrary: b)
  case (Cons man toStop)
  then obtain b1 where b1: "stop_manager E man b = Some b1" "stop_managers E toStop b1 = Some b'"
    by (auto split: option.splits)
  then have "mb_gatewayCACertPEM b1 = mb_gatewayCACertPEM b"
    by (auto simp: stop_manager_def on_gateway_def onTableChange_def broker_refresh_def Let_def split: if_splits)
  then show ?case using b1(2) Cons.IH[of b1] on_gateway_result(1,2)[OF b1(1)[unfolded stop_manager_def]] by simp
qed simp

lemma start_servers_map:
  "mb_mcpServers (fold start_server servers br) i =
     (case mb_mcpServers br i of
        Some man \<Rightarrow> Some man
      | None \<Rightarrow> map_option (\<lambda>cfg. NewUpstreamMCPManager (NewUpstreamMCP cfg (mb_gatewayCACertPEM br))
                  (mb_managerTickerInterval br) (mb_invalidToolPolicy br)) (find (\<lambda>s. server_ID s = i) servers))"
proof (induction servers arbitrary: br)
  case (Cons cfg servers)
  have "mb_managerTickerInterval (start_server cfg br) = mb_managerTickerInterval br"
    "mb_invalidToolPolicy (start_server cfg br) = mb_invalidToolPolicy br"
    by (simp_all add: start_server_def split: option.split)
  then show ?case using Cons[of "start_server cfg br"] by (auto simp: start_server_def split: option.splits)
qed (simp split: option.split)

lemma new_manager_config:
  "\<not> server_ConfigChanged s (GetConfig (mm_mcp (NewUpstreamMCPManager (NewUpstreamMCP s ca) ti policy)))"
  "up_gatewayCACertPEM (mm_mcp (NewUpstreamMCPManager (NewUpstreamMCP s ca) ti policy)) = ca"
  by (simp_all add: NewUpstreamMCPManager_def NewUpstreamMCP_def GetConfig_def server_ConfigChanged_def Let_def
      tagsEqual_mset tokenURLElicitationChanged_iff)

lemma find_distinct: "distinct (map f xs) \<Longrightarrow> x \<in> set xs \<Longrightarrow> find (\<lambda>y. f y = f x) xs = Some x"
  by (induction xs) (auto simp: image_iff)


end
