(* ===== verification/Broker_Locks.thy ===== *)
theory Broker_Locks
  imports MCP_Broker
begin

text \<open>
  The goroutines of the broker and \<open>mcpLock\<close>, a \<open>sync.RWMutex\<close>. A writer that waits keeps new
  readers out, and a goroutine that holds the lock does not get it again by asking again. A call
  of the broker is the sequence of what it does to the lock and of the goroutines whose end it
  waits for; the model interleaves any number of calls.
\<close>

section \<open>The lock\<close>

datatype lock_op = Lock | Unlock | RLock | RUnlock | Wait nat

text \<open>
  The number of readers, the goroutine that waits for writing or writes, and whether it writes.
\<close>

record rwmutex =
  rw_readers :: nat
  rw_writer :: "nat option"
  rw_writing :: bool

type_synonym goroutines = "rwmutex \<times> lock_op list list"

definition idle :: rwmutex where
  "idle = \<lparr>rw_readers = 0, rw_writer = None, rw_writing = False\<rparr>"

inductive lock_step :: "goroutines \<Rightarrow> goroutines \<Rightarrow> bool" where
  rlock: "i < length gs \<Longrightarrow> gs ! i = RLock # p \<Longrightarrow> rw_writer m = None \<Longrightarrow>
    lock_step (m, gs) (m\<lparr>rw_readers := Suc (rw_readers m)\<rparr>, gs[i := p])"
| runlock: "i < length gs \<Longrightarrow> gs ! i = RUnlock # p \<Longrightarrow> rw_readers m = Suc n \<Longrightarrow>
    lock_step (m, gs) (m\<lparr>rw_readers := n\<rparr>, gs[i := p])"
| announce: "i < length gs \<Longrightarrow> gs ! i = Lock # p \<Longrightarrow> rw_writer m = None \<Longrightarrow>
    lock_step (m, gs) (m\<lparr>rw_writer := Some i\<rparr>, gs)"
| acquire: "i < length gs \<Longrightarrow> gs ! i = Lock # p \<Longrightarrow> rw_writer m = Some i \<Longrightarrow> rw_readers m = 0 \<Longrightarrow> \<not> rw_writing m \<Longrightarrow>
    lock_step (m, gs) (m\<lparr>rw_writing := True\<rparr>, gs[i := p])"
| unlock: "i < length gs \<Longrightarrow> gs ! i = Unlock # p \<Longrightarrow> rw_writing m \<Longrightarrow>
    lock_step (m, gs) (m\<lparr>rw_writer := None, rw_writing := False\<rparr>, gs[i := p])"
| wait: "i < length gs \<Longrightarrow> gs ! i = Wait j # p \<Longrightarrow> j < length gs \<Longrightarrow> gs ! j = [] \<Longrightarrow>
    lock_step (m, gs) (m, gs[i := p])"

text \<open>The states after a number of steps.\<close>

inductive lock_run :: "lock_op list list \<Rightarrow> nat \<Rightarrow> goroutines \<Rightarrow> bool" for gs0 where
  init: "lock_run gs0 0 (idle, gs0)"
| step: "lock_run gs0 n s \<Longrightarrow> lock_step s s' \<Longrightarrow> lock_run gs0 (Suc n) s'"

definition finished :: "goroutines \<Rightarrow> bool" where
  "finished s \<longleftrightarrow> (\<forall>p \<in> set (snd s). p = [])"

section \<open>The calls of the broker\<close>

definition read_section :: "lock_op list" where
  "read_section = [RLock, RUnlock]"

text \<open>The lock in \<open>onTableChange\<close>, once for each change that a pass of a manager announces.\<close>

definition pass_locks :: "gatewayServer \<Rightarrow> gatewayServer \<Rightarrow> lock_op list" where
  "pass_locks g g' = concat (replicate (gs_changes g' - gs_changes g) read_section)"

definition deregister_locks :: "lock_op list" where
  "deregister_locks = [Lock, Unlock]"

definition startManagers_locks :: "MCPServer list \<Rightarrow> mcpBrokerImpl \<Rightarrow> lock_op list" where
  "startManagers_locks servers br =
     Lock # (if list_ex (\<lambda>s. srv_Tags s \<noteq> []) servers \<noteq> mb_tagsToolsRegistered br then read_section else []) @ [Unlock]"

text \<open>A reload waits for the goroutines of the managers that it stops.\<close>

definition reload_locks :: "nat list \<Rightarrow> MCPServer list \<Rightarrow> mcpBrokerImpl \<Rightarrow> lock_op list" where
  "reload_locks stopped servers br = deregister_locks @ map Wait stopped @ startManagers_locks servers br"

definition shutdown_locks :: "nat list \<Rightarrow> lock_op list" where
  "shutdown_locks stopped = RLock # map Wait stopped @ [RUnlock]"

text \<open>
  Applying the capabilities of the \<open>x-mcp-authorized\<close> header looks up each server that they name.
  Listing tools does so after it has read the user-specific servers; the discovery and tags tools
  do so while they hold the lock.
\<close>

definition lookup_locks :: "string list \<Rightarrow> lock_op list" where
  "lookup_locks named = concat (map (\<lambda>_. read_section) named)"

definition list_tools_locks :: "string list \<Rightarrow> lock_op list" where
  "list_tools_locks named = read_section @ lookup_locks named"

definition discovery_locks :: "string list \<Rightarrow> lock_op list" where
  "discovery_locks named = RLock # lookup_locks named @ [RUnlock]"

text \<open>
  Calls that give the lock back before they ask for it again: passes, lookups, listings, reloads
  that leave the presence of tags as it is, and discovery without named servers. A reload waits
  for managers only.
\<close>

inductive plain_call :: "lock_op list list \<Rightarrow> lock_op list \<Rightarrow> bool" for gs where
  pass: "plain_call gs (pass_locks g g')"
| lookup: "plain_call gs read_section"
| listing: "plain_call gs (list_tools_locks named)"
| discovery: "plain_call gs (discovery_locks [])"
| reload: "list_ex (\<lambda>s. srv_Tags s \<noteq> []) servers = mb_tagsToolsRegistered br \<Longrightarrow>
    \<forall>j \<in> set stopped. j < length gs \<and> (\<exists>g g'. gs ! j = pass_locks g g') \<Longrightarrow> plain_call gs (reload_locks stopped servers br)"

section \<open>Every run ends\<close>

fun op_weight :: "lock_op \<Rightarrow> nat" where
  "op_weight Lock = 2"
| "op_weight _ = 1"

definition weight :: "goroutines \<Rightarrow> nat" where
  "weight s =
     sum_list (map (\<lambda>p. sum_list (map op_weight p)) (snd s)) +
     (if rw_writer (fst s) = None \<or> rw_writing (fst s) then 1 else 0)"

lemma sum_list_pop:
  "i < length gs \<Longrightarrow> gs ! i = x # p \<Longrightarrow>
   sum_list (map (\<lambda>p. sum_list (map op_weight p)) gs) =
     op_weight x + sum_list (map (\<lambda>p. sum_list (map op_weight p)) (gs[i := p]))"
proof (induction gs arbitrary: i)
  case (Cons q gs)
  then show ?case by (cases i) auto
qed simp

lemma step_weight:
  "lock_step s s' \<Longrightarrow> rw_writing (fst s) \<longrightarrow> rw_writer (fst s) \<noteq> None \<Longrightarrow>
   weight s' < weight s \<and> (rw_writing (fst s') \<longrightarrow> rw_writer (fst s') \<noteq> None)"
  by (induction rule: lock_step.induct) (auto simp: weight_def sum_list_pop)

lemma run_weight:
  "lock_run gs n s \<Longrightarrow> n + weight s \<le> weight (idle, gs) \<and> (rw_writing (fst s) \<longrightarrow> rw_writer (fst s) \<noteq> None)"
proof (induction rule: lock_run.induct)
  case (step n s s')
  then show ?case using step_weight[of s s'] by simp
qed (simp add: idle_def)

section \<open>Plain calls do not block each other\<close>

text \<open>What is left of a plain call: sections, possibly after the end of one that it is in.\<close>

fun sections :: "lock_op list \<Rightarrow> bool" where
  "sections [] = True"
| "sections (RLock # RUnlock # p) = sections p"
| "sections (Lock # Unlock # p) = sections p"
| "sections (Wait j # p) = sections p"
| "sections _ = False"

definition reading :: "lock_op list \<Rightarrow> bool" where
  "reading p \<longleftrightarrow> (\<exists>q. p = RUnlock # q \<and> sections q)"

definition writing :: "lock_op list \<Rightarrow> bool" where
  "writing p \<longleftrightarrow> (\<exists>q. p = Unlock # q \<and> sections q)"

lemma sections_append: "sections p \<Longrightarrow> sections q \<Longrightarrow> sections (p @ q)"
  by (induction p rule: sections.induct) auto

lemma sections_waits: "sections p \<Longrightarrow> sections (map Wait js @ p)"
  by (induction js) auto

lemma sections_concat: "sections (concat (map (\<lambda>_. read_section) xs))"
  by (induction xs) (simp_all add: read_section_def)

lemma sections_plain: "plain_call gs p \<Longrightarrow> sections p"
proof (induction rule: plain_call.induct)
  case (pass g g')
  then show ?case using sections_concat[of "replicate (gs_changes g' - gs_changes g) ()"] by (simp add: pass_locks_def)
qed (simp_all add: read_section_def list_tools_locks_def lookup_locks_def discovery_locks_def reload_locks_def
    deregister_locks_def startManagers_locks_def sections_waits sections_concat[unfolded read_section_def])

lemma held_simps [simp]:
  "reading (x # p) \<longleftrightarrow> x = RUnlock \<and> sections p" "\<not> reading []"
  "writing (x # p) \<longleftrightarrow> x = Unlock \<and> sections p" "\<not> writing []"
  by (auto simp: reading_def writing_def)

lemma sections_head:
  "sections (RLock # p) \<longleftrightarrow> reading p" "sections (Lock # p) \<longleftrightarrow> writing p"
proof -
  show "sections (RLock # p) \<longleftrightarrow> reading p"
  proof (cases p)
    case (Cons x q)
    then show ?thesis by (cases x) auto
  qed simp
  show "sections (Lock # p) \<longleftrightarrow> writing p"
  proof (cases p)
    case (Cons x q)
    then show ?thesis by (cases x) auto
  qed simp
qed

lemma held_sections:
  "reading p \<Longrightarrow> \<not> sections p \<and> \<not> writing p" "writing p \<Longrightarrow> \<not> sections p \<and> \<not> reading p"
  "sections p \<Longrightarrow> \<not> reading p \<and> \<not> writing p"
  by (auto simp: reading_def writing_def)

lemma readers_update:
  "i < length gs \<Longrightarrow>
   length (filter P (gs[i := p])) + (if P (gs ! i) then 1 else 0) = length (filter P gs) + (if P p then 1 else 0)"
proof (induction gs arbitrary: i)
  case (Cons q gs)
  then show ?case by (cases i) auto
qed simp

definition waits_ok :: "lock_op list list \<Rightarrow> bool" where
  "waits_ok gs \<longleftrightarrow>
     (\<forall>i < length gs. \<forall>j. Wait j \<in> set (gs ! i) \<longrightarrow> j < length gs \<and> (\<forall>k. Wait k \<notin> set (gs ! j)))"

definition lock_inv :: "goroutines \<Rightarrow> bool" where
  "lock_inv s =
     (case s of (m, gs) \<Rightarrow>
        waits_ok gs \<and>
        (\<forall>i < length gs. sections (gs ! i) \<or> reading (gs ! i) \<or> writing (gs ! i) \<and> rw_writing m \<and> rw_writer m = Some i) \<and>
        rw_readers m = length (filter reading gs) \<and>
        (\<forall>i. rw_writer m = Some i \<longrightarrow>
           i < length gs \<and> (if rw_writing m then writing (gs ! i) else \<exists>p. gs ! i = Lock # p)) \<and>
        (rw_writing m \<longrightarrow> rw_writer m \<noteq> None))"

lemma waits_ok_pop:
  assumes "waits_ok gs" and "i < length gs" and "gs ! i = x # p"
  shows "waits_ok (gs[i := p])"
proof -
  have sub: "set (gs[i := p] ! j) \<subseteq> set (gs ! j)" if "j < length gs" for j
    using assms(2,3) that by (cases "j = i") auto
  show ?thesis
    using assms(1) sub unfolding waits_ok_def length_list_update by (meson subsetD)
qed

lemma lock_invD:
  assumes "lock_inv (m, gs)"
  shows "waits_ok gs" "rw_readers m = length (filter reading gs)"
    "i < length gs \<Longrightarrow> sections (gs ! i) \<or> reading (gs ! i) \<or> writing (gs ! i) \<and> rw_writing m \<and> rw_writer m = Some i"
    "rw_writer m = Some i \<Longrightarrow> i < length gs \<and> (if rw_writing m then writing (gs ! i) else \<exists>p. gs ! i = Lock # p)"
    "rw_writing m \<Longrightarrow> rw_writer m \<noteq> None"
  using assms by (auto simp: lock_inv_def)

text \<open>A step of one goroutine: what the others are in stays as it is.\<close>

lemma lock_invI:
  assumes inv: "lock_inv (m, gs)" and i: "i < length gs" "gs ! i = x # p"
    and own: "sections p \<or> reading p \<or> writing p \<and> rw_writing m' \<and> rw_writer m' = Some i"
    and others: "\<And>j. j \<noteq> i \<Longrightarrow> rw_writing m \<and> rw_writer m = Some j \<Longrightarrow> rw_writing m' \<and> rw_writer m' = Some j"
    and readers: "rw_readers m' + (if reading (gs ! i) then 1 else 0) = rw_readers m + (if reading p then 1 else 0)"
    and writer: "\<And>j. rw_writer m' = Some j \<Longrightarrow>
      j = i \<and> rw_writing m' \<and> writing p \<or> j \<noteq> i \<and> rw_writer m = Some j \<and> rw_writing m' = rw_writing m"
    and some: "rw_writing m' \<Longrightarrow> rw_writer m' \<noteq> None"
  shows "lock_inv (m', gs[i := p])"
proof -
  note d = lock_invD[OF inv]
  have "rw_readers m' = length (filter reading (gs[i := p]))"
    using readers d(2) readers_update[OF i(1), of reading p] by linarith
  moreover have "sections (gs[i := p] ! j) \<or> reading (gs[i := p] ! j) \<or>
      writing (gs[i := p] ! j) \<and> rw_writing m' \<and> rw_writer m' = Some j" if "j < length gs" for j
    using own others d(3)[OF that] i(1) that by (cases "j = i") auto
  moreover have "j < length gs \<and> (if rw_writing m' then writing (gs[i := p] ! j) else \<exists>q. gs[i := p] ! j = Lock # q)"
    if "rw_writer m' = Some j" for j
    using writer[OF that] d(4)[of j] i(1) by (cases "j = i") auto
  ultimately show ?thesis
    using waits_ok_pop[OF d(1) i] some by (simp add: lock_inv_def)
qed

lemma lock_inv_step: "lock_step s s' \<Longrightarrow> lock_inv s \<Longrightarrow> lock_inv s'"
proof (induction rule: lock_step.induct)
  case (rlock i gs p m)
  have "reading p" using lock_invD(3)[OF rlock(4,1)] rlock(2) by (simp add: sections_head)
  then show ?case using rlock(2,3) by (intro lock_invI[OF rlock(4,1,2)]) (use lock_invD(5)[OF rlock(4)] in auto)
next
  case (runlock i gs p m n)
  have p: "sections p" using lock_invD(3)[OF runlock(4,1)] runlock(2) by simp
  show ?case
    using runlock(2,3) p held_sections(3)[OF p] lock_invD(4,5)[OF runlock(4)]
    by (intro lock_invI[OF runlock(4,1,2)]) (auto split: if_splits)
next
  case (announce i gs p m)
  then show ?case by (auto simp: lock_inv_def)
next
  case (acquire i gs p m)
  have p: "writing p" using lock_invD(3)[OF acquire(6,1)] acquire(2,5) by (simp add: sections_head)
  show ?case
    using acquire(2-5) p held_sections(2)[OF p] by (intro lock_invI[OF acquire(6,1,2)]) auto
next
  case (unlock i gs p m)
  have p: "sections p" "rw_writer m = Some i" using lock_invD(3)[OF unlock(4,1)] unlock(2) by auto
  show ?case
    using unlock(2,3) p held_sections(3)[OF p(1)] by (intro lock_invI[OF unlock(4,1,2)]) auto
next
  case (wait i gs j p m)
  have p: "sections p" using lock_invD(3)[OF wait(5,1)] wait(2) by simp
  show ?case
    using wait(2) p held_sections(3)[OF p] lock_invD(4,5)[OF wait(5)]
    by (intro lock_invI[OF wait(5,1,2)]) (auto split: if_splits)
qed

text \<open>A goroutine that is not in a section can go on when nobody writes or waits to write.\<close>

lemma free_step:
  assumes "i < length gs" and "gs ! i = x # p" and "sections (x # p)" and "rw_writer m = None" and "\<forall>j. x \<noteq> Wait j"
  shows "\<exists>s'. lock_step (m, gs) s'"
proof (cases x)
  case RLock
  then show ?thesis using lock_step.rlock[OF assms(1)] assms by blast
next
  case Lock
  then show ?thesis using lock_step.announce[OF assms(1)] assms by blast
qed (use assms in auto)

lemma progress:
  assumes inv: "lock_inv (m, gs)" and nf: "\<not> finished (m, gs)"
  shows "\<exists>s'. lock_step (m, gs) s'"
proof (cases "\<exists>i < length gs. reading (gs ! i)")
  case True
  then obtain i p where i: "i < length gs" "gs ! i = RUnlock # p" and r: "reading (gs ! i)" by (auto simp: reading_def)
  have "gs ! i \<in> set (filter reading gs)" using nth_mem[OF i(1)] r by (simp only: set_filter mem_Collect_eq simp_thms)
  then have "rw_readers m \<noteq> 0" using lock_invD(2)[OF inv] by (metis length_greater_0_conv length_pos_if_in_set less_irrefl)
  then obtain n where "rw_readers m = Suc n" by (cases "rw_readers m") auto
  then show ?thesis using lock_step.runlock[OF i] by blast
next
  case False
  then have "\<forall>p \<in> set gs. \<not> reading p" by (metis in_set_conv_nth)
  then have r0: "rw_readers m = 0" using lock_invD(2)[OF inv] by (simp add: filter_empty_conv)
  show ?thesis
  proof (cases "rw_writer m")
    case (Some i)
    note w = lock_invD(4)[OF inv Some]
    show ?thesis
    proof (cases "rw_writing m")
      case True
      then show ?thesis using w lock_step.unlock[of i gs _ m] by (auto simp: writing_def)
    next
      case False
      then show ?thesis using w lock_step.acquire[of i gs _ m] Some r0 by auto
    qed
  next
    case None
    have sec: "sections (gs ! i)" if "i < length gs" for i
      using lock_invD(3)[OF inv that] False that None by auto
    obtain i where i: "i < length gs" "gs ! i \<noteq> []" using nf by (auto simp: finished_def in_set_conv_nth)
    then obtain x p where xp: "gs ! i = x # p" by (cases "gs ! i") auto
    show ?thesis
    proof (cases "\<exists>j. x = Wait j")
      case True
      then obtain j where j: "x = Wait j" ..
      then have jl: "j < length gs" "\<forall>k. Wait k \<notin> set (gs ! j)"
        using lock_invD(1)[OF inv] i(1) xp unfolding waits_ok_def by (metis list.set_intros(1))+
      show ?thesis
      proof (cases "gs ! j")
        case Nil
        then show ?thesis using lock_step.wait[OF i(1) xp[unfolded j] jl(1)] by blast
      next
        case (Cons y q)
        then show ?thesis using free_step[OF jl(1) Cons _ None] sec[OF jl(1)] jl(2) by auto
      qed
    next
      case False
      then show ?thesis using free_step[OF i(1) xp _ None] sec[OF i(1)] xp by auto
    qed
  qed
qed

lemma plain_waits:
  assumes "plain_call gs p" and "Wait j \<in> set p"
  shows "j < length gs \<and> (\<exists>g g'. gs ! j = pass_locks g g')"
  using assms
  by (cases rule: plain_call.cases)
    (auto simp: pass_locks_def read_section_def list_tools_locks_def lookup_locks_def discovery_locks_def
      reload_locks_def deregister_locks_def startManagers_locks_def split: if_splits)

lemma plain_start:
  assumes "\<forall>p \<in> set gs. plain_call gs p"
  shows "lock_inv (idle, gs)"
proof -
  have "Wait k \<notin> set (pass_locks g g')" for k g g' by (auto simp: pass_locks_def read_section_def)
  then have "waits_ok gs"
    unfolding waits_ok_def using plain_waits assms by (metis nth_mem)
  moreover have "filter reading gs = []"
    using assms sections_plain held_sections(3) by (auto simp: filter_empty_conv)
  moreover have "sections (gs ! i)" if "i < length gs" for i using assms sections_plain nth_mem[OF that] by blast
  ultimately show ?thesis by (simp add: lock_inv_def idle_def)
qed

section \<open>Properties\<close>

text \<open>
  C16: Lookups, listings of tools, passes of managers, discovery without an authorization header and
  reloads that leave the presence of tags as it is always come to an end, in any number and however
  the scheduler interleaves them. A run of them has at most as many steps as the calls have lock
  operations, a request for writing counted twice, and it stops only when every call has returned.
\<close>

theorem plain_calls_finish:
  assumes "\<forall>p \<in> set gs. plain_call gs p" and "lock_run gs n s"
  shows "n \<le> Suc (sum_list (map (\<lambda>p. sum_list (map op_weight p)) gs)) \<and>
    ((\<nexists>s'. lock_step s s') \<longrightarrow> finished s)"
proof -
  have "n + weight s \<le> weight (idle, gs)" using run_weight[OF assms(2)] ..
  then have "n \<le> Suc (sum_list (map (\<lambda>p. sum_list (map op_weight p)) gs))" by (simp add: weight_def idle_def)
  moreover have "lock_inv s"
    using assms(2) by (induction rule: lock_run.induct) (use plain_start[OF assms(1)] lock_inv_step in auto)
  ultimately show ?thesis using progress[of "fst s" "snd s"] by auto
qed

definition one_change :: "gatewayServer" where
  "one_change = tableChange (newGatewayServer 0)"

theorem plain_calls_finish_witness:
  "\<nexists>s. lock_run [pass_locks (newGatewayServer 0) one_change, reload_locks [0] [] zero_broker] 11 s"
proof
  let ?gs = "[pass_locks (newGatewayServer 0) one_change, reload_locks [0] [] zero_broker]"
  assume "\<exists>s. lock_run ?gs 11 s"
  then obtain s where run: "lock_run ?gs 11 s" ..
  have "plain_call ?gs (reload_locks [0] [] zero_broker)"
    by (rule plain_call.reload) (auto simp: zero_broker_def)
  then have "\<forall>p \<in> set ?gs. plain_call ?gs p" by (simp add: plain_call.pass)
  from plain_calls_finish[OF this run] show False
    by (simp add: pass_locks_def one_change_def tableChange_def newGatewayServer_def read_section_def
        reload_locks_def deregister_locks_def startManagers_locks_def zero_broker_def)
qed

lemma nested_read_stuck:
  "\<nexists>s'. lock_step (\<lparr>rw_readers = 1, rw_writer = Some 1, rw_writing = False\<rparr>, [RLock # p, Lock # q]) s'"
  "\<nexists>s'. lock_step (\<lparr>rw_readers = 1, rw_writer = Some 1, rw_writing = False\<rparr>, [Wait 2 # p, Lock # q, RLock # r]) s'"
  by (auto elim!: lock_step.cases simp: less_Suc_eq nth_Cons' split: if_splits)

lemma two_steps: "lock_step (idle, gs) s \<Longrightarrow> lock_step s s' \<Longrightarrow> lock_run gs 2 s'"
  unfolding numeral_2_eq_2 by (rule lock_run.step[OF lock_run.step[OF lock_run.init]])

lemma discovery_blocks:
  assumes "named \<noteq> []"
  shows "\<exists>n s. lock_run [discovery_locks named, reload_locks [] servers br] n s \<and> \<not> finished s \<and> (\<nexists>s'. lock_step s s')"
proof -
  obtain p where d: "discovery_locks named = RLock # RLock # p"
    using assms by (cases named) (auto simp: discovery_locks_def lookup_locks_def read_section_def)
  obtain q where r: "reload_locks [] servers br = Lock # q" by (simp add: reload_locks_def deregister_locks_def)
  let ?m = "\<lparr>rw_readers = 1, rw_writer = Some 1, rw_writing = False\<rparr>"
  have "lock_step (idle, [RLock # RLock # p, Lock # q]) (idle\<lparr>rw_readers := 1\<rparr>, [RLock # p, Lock # q])"
    using lock_step.rlock[of 0 "[RLock # RLock # p, Lock # q]" "RLock # p" idle] by (simp add: idle_def)
  moreover have "lock_step (idle\<lparr>rw_readers := 1\<rparr>, [RLock # p, Lock # q]) (?m, [RLock # p, Lock # q])"
    using lock_step.announce[of 1 "[RLock # p, Lock # q]" q "idle\<lparr>rw_readers := 1\<rparr>"] by (simp add: idle_def)
  ultimately have "lock_run [RLock # RLock # p, Lock # q] 2 (?m, [RLock # p, Lock # q])"
    by (rule two_steps)
  moreover have "\<not> finished (?m, [RLock # p, Lock # q])" by (simp add: finished_def)
  ultimately show ?thesis using nested_read_stuck(1) unfolding d r by blast
qed

lemma shutdown_blocks:
  assumes "gs_changes g < gs_changes g'"
  shows "\<exists>n s. lock_run [shutdown_locks [2], reload_locks [] servers br, pass_locks g g'] n s \<and> \<not> finished s \<and>
    (\<nexists>s'. lock_step s s')"
proof -
  obtain p where p: "pass_locks g g' = RLock # p"
    using assms by (cases "gs_changes g' - gs_changes g") (auto simp: pass_locks_def read_section_def)
  obtain q where r: "reload_locks [] servers br = Lock # q" by (simp add: reload_locks_def deregister_locks_def)
  have d: "shutdown_locks [2] = [RLock, Wait 2, RUnlock]" by (simp add: shutdown_locks_def)
  let ?m = "\<lparr>rw_readers = 1, rw_writer = Some 1, rw_writing = False\<rparr>" and ?gs = "[[Wait 2, RUnlock], Lock # q, RLock # p]"
  have "lock_step (idle, [[RLock, Wait 2, RUnlock], Lock # q, RLock # p]) (idle\<lparr>rw_readers := 1\<rparr>, ?gs)"
    using lock_step.rlock[of 0 "[[RLock, Wait 2, RUnlock], Lock # q, RLock # p]" "[Wait 2, RUnlock]" idle] by (simp add: idle_def)
  moreover have "lock_step (idle\<lparr>rw_readers := 1\<rparr>, ?gs) (?m, ?gs)"
    using lock_step.announce[of 1 ?gs q "idle\<lparr>rw_readers := 1\<rparr>"] by (simp add: idle_def)
  ultimately have "lock_run [[RLock, Wait 2, RUnlock], Lock # q, RLock # p] 2 (?m, ?gs)"
    by (rule two_steps)
  moreover have "\<not> finished (?m, ?gs)" by (simp add: finished_def)
  ultimately show ?thesis using nested_read_stuck(2) unfolding d r p by blast
qed

lemma tags_reload_blocks:
  assumes "list_ex (\<lambda>s. srv_Tags s \<noteq> []) servers \<noteq> mb_tagsToolsRegistered br"
    and "lock_run [reload_locks [] servers br] n s"
  shows "\<not> finished s"
proof -
  let ?start = "[Lock, RLock, RUnlock, Unlock]"
  have r: "reload_locks [] servers br = Lock # Unlock # ?start"
    using assms(1) by (simp add: reload_locks_def deregister_locks_def startManagers_locks_def read_section_def)
  have "snd s = [Lock # Unlock # ?start] \<or> snd s = [Unlock # ?start] \<or> snd s = [?start] \<or>
      snd s = [[RLock, RUnlock, Unlock]] \<and> rw_writer (fst s) \<noteq> None"
    using assms(2) unfolding r
  proof (induction rule: lock_run.induct)
    case (step n s s')
    from step(2,3) show ?case by (cases rule: lock_step.cases) auto
  qed simp
  then show ?thesis by (auto simp: finished_def)
qed

text \<open>
  C17: Calls that ask for the lock again while they hold it can block the broker for good. A
  discovery or tags tool that is called with an authorization header that names a server, together
  with one reload, can reach a state in which neither goes on: the reload waits for the reader, and
  the reader waits behind the reload. Shutting down does the same with a reload and a manager that
  still has to announce a change. A reload that changes the presence of tags never returns at all.
\<close>

theorem nested_locks_block:
  "(named \<noteq> [] \<longrightarrow>
      (\<exists>n s. lock_run [discovery_locks named, reload_locks [] servers br] n s \<and> \<not> finished s \<and> (\<nexists>s'. lock_step s s'))) \<and>
   (gs_changes g < gs_changes g' \<longrightarrow>
      (\<exists>n s. lock_run [shutdown_locks [2], reload_locks [] servers br, pass_locks g g'] n s \<and> \<not> finished s \<and>
        (\<nexists>s'. lock_step s s'))) \<and>
   (list_ex (\<lambda>s. srv_Tags s \<noteq> []) servers \<noteq> mb_tagsToolsRegistered br \<longrightarrow>
      lock_run [reload_locks [] servers br] n s \<longrightarrow> \<not> finished s)"
  using discovery_blocks[of named servers br] shutdown_blocks[of g g' servers br] tags_reload_blocks[of servers br n s]
  by blast

theorem nested_locks_block_witness:
  "(\<exists>n s. lock_run [discovery_locks [''ns/echo''], reload_locks [] [] zero_broker] n s \<and> \<not> finished s \<and>
     (\<nexists>s'. lock_step s s'))"
  using nested_locks_block[of "[''ns/echo'']" "[]" zero_broker] by simp
end
