(* ===== verification/Go_Base64.thy ===== *)
theory Go_Base64
  imports Go_Prelude
begin

text \<open>
  The two encodings of \<open>encoding/base64\<close> that the gateway uses: \<open>RawURLEncoding\<close> (the parts of a
  JWT) and \<open>StdEncoding\<close> (encrypted tokens), the decoders with the package's rules: line breaks
  are skipped, trailing bits are not checked.
\<close>

definition std_alphabet :: string where
  "std_alphabet = ''ABCDEFGHIJKLMNOPQRSTUVWXYZabcdefghijklmnopqrstuvwxyz0123456789+/''"

definition url_alphabet :: string where
  "url_alphabet = ''ABCDEFGHIJKLMNOPQRSTUVWXYZabcdefghijklmnopqrstuvwxyz0123456789-_''"

fun index_of :: "char \<Rightarrow> string \<Rightarrow> nat option" where
  "index_of c [] = None"
| "index_of c (x # xs) = (if x = c then Some 0 else map_option Suc (index_of c xs))"

fun sextets :: "string \<Rightarrow> string \<Rightarrow> nat list option" where
  "sextets alphabet [] = Some []"
| "sextets alphabet (c # s) =
     (case index_of c alphabet of
        None \<Rightarrow> None
      | Some v \<Rightarrow> map_option ((#) v) (sextets alphabet s))"

text \<open>Four sextets are three bytes; a last group of two or three is one or two.\<close>

fun to_bytes :: "nat list \<Rightarrow> string option" where
  "to_bytes [] = Some []"
| "to_bytes [a] = None"
| "to_bytes [a, b] = Some [char_of (a * 4 + b div 16)]"
| "to_bytes [a, b, c] = Some [char_of (a * 4 + b div 16), char_of ((b mod 16) * 16 + c div 4)]"
| "to_bytes (a # b # c # d # r) =
     map_option (\<lambda>s. char_of (a * 4 + b div 16) # char_of ((b mod 16) * 16 + c div 4)
                       # char_of ((c mod 4) * 64 + d) # s) (to_bytes r)"

fun from_bytes :: "string \<Rightarrow> nat list" where
  "from_bytes [] = []"
| "from_bytes [x] = [of_char x div 4, (of_char x mod 4) * 16]"
| "from_bytes [x, y] =
     [of_char x div 4, (of_char x mod 4) * 16 + of_char y div 16, (of_char y mod 16) * 4]"
| "from_bytes (x # y # z # s) =
     [of_char x div 4, (of_char x mod 4) * 16 + of_char y div 16,
      (of_char y mod 16) * 4 + of_char z div 64, of_char z mod 64] @ from_bytes s"

definition no_newlines :: "string \<Rightarrow> string" where
  "no_newlines s = filter (\<lambda>c. c \<noteq> CHR 0x0D \<and> c \<noteq> CHR 0x0A) s"

definition RawURL_DecodeString :: "string \<Rightarrow> string option" where
  "RawURL_DecodeString s =
     (case sextets url_alphabet (no_newlines s) of
        None \<Rightarrow> None
      | Some vs \<Rightarrow> to_bytes vs)"

definition RawURL_EncodeToString :: "string \<Rightarrow> string" where
  "RawURL_EncodeToString s = map ((!) url_alphabet) (from_bytes s)"

text \<open>The padded encoding: the text without its padding, and the padding its length asks for.\<close>

definition padding :: "nat \<Rightarrow> string" where
  "padding n = replicate ((4 - n mod 4) mod 4) (CHR ''='')"

definition Std_EncodeToString :: "string \<Rightarrow> string" where
  "Std_EncodeToString s =
     (let t = map ((!) std_alphabet) (from_bytes s) in t @ padding (length t))"

definition Std_DecodeString :: "string \<Rightarrow> string option" where
  "Std_DecodeString s =
     (let u = no_newlines s; t = takeWhile (\<lambda>c. c \<noteq> CHR ''='') u
      in if u \<noteq> t @ padding (length t) then None
         else
           (case sextets std_alphabet t of
              None \<Rightarrow> None
            | Some vs \<Rightarrow> to_bytes vs))"

section \<open>Round trips\<close>

lemma sextet_bounds:
  fixes a b c :: nat
  assumes "a < 256" "b < 256" "c < 256"
  shows "a div 4 < 64" "(a mod 4) * 16 < 64" "(a mod 4) * 16 + b div 16 < 64"
    "(b mod 16) * 4 < 64" "(b mod 16) * 4 + c div 64 < 64"
proof -
  have m: "a mod 4 < 4" "b mod 16 < 16" "a div 4 < 64" "b div 16 < 16" "c div 64 < 4"
    using assms by simp_all
  show "a div 4 < 64" by (rule m(3))
  show "(a mod 4) * 16 < 64" using m(1) by linarith
  show "(a mod 4) * 16 + b div 16 < 64" using m(1,4) by linarith
  show "(b mod 16) * 4 < 64" using m(2) by linarith
  show "(b mod 16) * 4 + c div 64 < 64" using m(2,5) by linarith
qed

lemma sextet_bytes:
  fixes a b c :: nat
  assumes "a < 256" "b < 256" "c < 256"
  shows "a div 4 * 4 + (a mod 4) * 16 div 16 = a"
    "a div 4 * 4 + ((a mod 4) * 16 + b div 16) div 16 = a"
    "((a mod 4) * 16 + b div 16) mod 16 * 16 + (b mod 16) * 4 div 4 = b"
    "((a mod 4) * 16 + b div 16) mod 16 * 16 + ((b mod 16) * 4 + c div 64) div 4 = b"
    "((b mod 16) * 4 + c div 64) mod 4 * 64 + c mod 64 = c"
proof -
  have small: "b div 16 < 16" "c div 64 < 4" using assms by simp_all
  have 16: "(x * 16 + y) div 16 = x" "(x * 16 + y) mod 16 = y" if "y < 16" for x y :: nat
    using that by simp_all
  have 4: "(x * 4 + y) div 4 = x" "(x * 4 + y) mod 4 = y" if "y < 4" for x y :: nat
    using that by simp_all
  show "a div 4 * 4 + (a mod 4) * 16 div 16 = a" by simp
  show "a div 4 * 4 + ((a mod 4) * 16 + b div 16) div 16 = a" unfolding 16[OF small(1)] by simp
  show "((a mod 4) * 16 + b div 16) mod 16 * 16 + (b mod 16) * 4 div 4 = b"
    unfolding 16[OF small(1)] by simp
  show "((a mod 4) * 16 + b div 16) mod 16 * 16 + ((b mod 16) * 4 + c div 64) div 4 = b"
    unfolding 16[OF small(1)] 4[OF small(2)] by simp
  show "((b mod 16) * 4 + c div 64) mod 4 * 64 + c mod 64 = c"
    unfolding 4[OF small(2)] by simp
qed

lemmas char_sextets =
  sextet_bounds[OF nat_of_char_less_256 nat_of_char_less_256 nat_of_char_less_256]
  sextet_bytes[OF nat_of_char_less_256 nat_of_char_less_256 nat_of_char_less_256]

lemma from_bytes_bound: "\<forall>v \<in> set (from_bytes s). v < 64"
  by (induction s rule: from_bytes.induct) (simp_all add: char_sextets)

lemma to_from_bytes: "to_bytes (from_bytes s) = Some s"
  by (induction s rule: from_bytes.induct) (simp_all only: from_bytes.simps to_bytes.simps
      append.simps char_sextets char_of_char option.map)

lemma index_of_nth: "distinct a \<Longrightarrow> n < length a \<Longrightarrow> index_of (a ! n) a = Some n"
proof (induction a arbitrary: n)
  case (Cons x a)
  then show ?case by (cases n) auto
qed simp

lemma sextets_nth:
  "distinct a \<Longrightarrow> \<forall>v \<in> set vs. v < length a \<Longrightarrow> sextets a (map ((!) a) vs) = Some vs"
  by (induction vs) (auto simp: index_of_nth)

lemma std_alphabet_facts:
  "distinct std_alphabet" "length std_alphabet = 64"
  "set std_alphabet \<inter> {CHR ''='', CHR 0x0D, CHR 0x0A} = {}"
  by (simp_all add: std_alphabet_def)

lemma Std_decode_encode: "Std_DecodeString (Std_EncodeToString s) = Some s"
proof -
  let ?t = "map ((!) std_alphabet) (from_bytes s)"
  have "set ?t \<subseteq> set std_alphabet"
    using from_bytes_bound std_alphabet_facts(2) by (auto intro!: nth_mem)
  then have sep: "set ?t \<inter> {CHR ''='', CHR 0x0D, CHR 0x0A} = {}"
    using std_alphabet_facts(3) by blast
  have "filter (\<lambda>c. c \<noteq> CHR 0x0D \<and> c \<noteq> CHR 0x0A) ?t = ?t"
    using sep by (intro filter_True) blast
  moreover have "filter (\<lambda>c. c \<noteq> CHR 0x0D \<and> c \<noteq> CHR 0x0A) (padding n) = padding n" for n
    by (simp add: padding_def)
  ultimately have "no_newlines (Std_EncodeToString s) = ?t @ padding (length ?t)"
    by (simp add: Std_EncodeToString_def no_newlines_def Let_def)
  moreover have "takeWhile (\<lambda>c. c \<noteq> CHR ''='') (?t @ padding (length ?t)) = ?t"
  proof -
    have "takeWhile (\<lambda>c. c \<noteq> CHR ''='') (padding n) = []" for n
      by (cases "(4 - n mod 4) mod 4") (simp_all add: padding_def)
    moreover have "\<And>c. c \<in> set ?t \<Longrightarrow> c \<noteq> CHR ''=''" using sep by blast
    ultimately show ?thesis by (subst takeWhile_append2) auto
  qed
  moreover have "sextets std_alphabet ?t = Some (from_bytes s)"
    using sextets_nth[OF std_alphabet_facts(1)] from_bytes_bound std_alphabet_facts(2) by metis
  ultimately show ?thesis
    by (simp add: Std_DecodeString_def Let_def to_from_bytes del: length_map)
qed

end
