(* ===== verification/Session_JWT.thy ===== *)
theory Session_JWT
  imports Go_Json Go_Base64
begin

text \<open>
  Tokens: the unverified decoding of a JWT payload (\<open>internal/jwt/decode.go\<close>), the encryption of
  stored user tokens (\<open>internal/session/crypto.go\<close>) and the session and backend-init tokens of
  \<open>internal/session/jwt.go\<close>.

  The JWT library is the record \<open>jwt_lib\<close> of the three functions the code calls. AES-GCM is the
  record \<open>aead\<close>; a number literal is turned into the integer part of a \<open>float64\<close> by an argument.
  The time is an argument wherever the code reads the clock.
\<close>

section \<open>Decoding without verification\<close>

text \<open>A struct is filled from an object; null leaves it zero; any other value is an error.\<close>

definition object_members :: "json \<Rightarrow> (string \<times> json) list option" where
  "object_members j =
     (case j of JObj kvs \<Rightarrow> Some kvs | JNull \<Rightarrow> Some [] | _ \<Rightarrow> None)"

text \<open>
  \<open>DecodePayload\<close> with the decoding of the claims struct as its second argument.
\<close>

definition DecodePayload ::
  "string \<Rightarrow> ((string \<times> json) list \<Rightarrow> 'c option) \<Rightarrow> 'c option" where
  "DecodePayload token claims =
     (let parts = Split token (CHR ''.'')
      in if length parts \<noteq> 3 then None
         else
           (case RawURL_DecodeString (parts ! 1) of
              None \<Rightarrow> None
            | Some payload \<Rightarrow>
                (case json_Unmarshal payload of
                   None \<Rightarrow> None
                 | Some j \<Rightarrow>
                     (case object_members j of
                        None \<Rightarrow> None
                      | Some kvs \<Rightarrow> claims kvs))))"

definition hex_EncodeToString :: "string \<Rightarrow> string" where
  "hex_EncodeToString s =
     concat (map (\<lambda>c. [hex_digit (of_char c div 16), hex_digit (of_char c mod 16)]) s)"

definition LogSafeSessionID :: "(string \<Rightarrow> string) \<Rightarrow> string \<Rightarrow> string" where
  "LogSafeSessionID sha256 sessionID =
     (if sessionID = [] then []
      else
        (case DecodePayload sessionID (string_field ''jti'') of
           Some jti \<Rightarrow>
             if jti \<noteq> [] then ''jti:'' @ jti
             else ''sha256:'' @ hex_EncodeToString (take 6 (sha256 sessionID))
         | None \<Rightarrow> ''sha256:'' @ hex_EncodeToString (take 6 (sha256 sessionID))))"

datatype sub_error = NoSubClaim

definition ExtractSubClaim :: "string \<Rightarrow> sub_error + string" where
  "ExtractSubClaim authHeader =
     (if authHeader = [] then Inr []
      else if \<not> HasPrefix authHeader ''Bearer '' then Inr []
      else
        (case DecodePayload (TrimPrefix authHeader ''Bearer '') (string_field ''sub'') of
           None \<Rightarrow> Inr []
         | Some sub \<Rightarrow> if sub = [] then Inl NoSubClaim else Inr sub))"

section \<open>Encryption of stored tokens\<close>

text \<open>\<open>cipher.AEAD\<close> of AES-GCM, with no additional data.\<close>

record aead =
  gcm_Seal :: "string \<Rightarrow> string \<Rightarrow> string \<Rightarrow> string"
  gcm_Open :: "string \<Rightarrow> string \<Rightarrow> string \<Rightarrow> string option"

datatype crypto_error =
    KeyTooShort | DerivationFailed | NewCipher | NonceFailed | Base64Error | CiphertextTooShort | GCMOpen

definition aes_key :: "string \<Rightarrow> bool" where
  "aes_key key \<longleftrightarrow> length key \<in> {16, 24, 32}"

definition NonceSize :: nat where
  "NonceSize = 12"

definition DeriveEncryptionKey ::
  "(string \<Rightarrow> string \<Rightarrow> nat \<Rightarrow> string option) \<Rightarrow> string \<Rightarrow> crypto_error + string" where
  "DeriveEncryptionKey hkdf signingKey =
     (if length signingKey < 32 then Inl KeyTooShort
      else
        (case hkdf signingKey ''mcp-gateway-user-token-encryption'' 32 of
           None \<Rightarrow> Inl DerivationFailed
         | Some key \<Rightarrow> Inr key))"

text \<open>The nonce is what the random source delivered, None if reading it failed.\<close>

definition encrypt :: "aead \<Rightarrow> string option \<Rightarrow> string \<Rightarrow> string \<Rightarrow> crypto_error + string" where
  "encrypt g random key plaintext =
     (if \<not> aes_key key then Inl NewCipher
      else
        (case random of
           None \<Rightarrow> Inl NonceFailed
         | Some nonce \<Rightarrow> Inr (Std_EncodeToString (nonce @ gcm_Seal g key nonce plaintext))))"

definition decrypt :: "aead \<Rightarrow> string \<Rightarrow> string \<Rightarrow> crypto_error + string" where
  "decrypt g key encoded =
     (case Std_DecodeString encoded of
        None \<Rightarrow> Inl Base64Error
      | Some data \<Rightarrow>
          if \<not> aes_key key then Inl NewCipher
          else if length data < NonceSize then Inl CiphertextTooShort
          else
            (case gcm_Open g key (take NonceSize data) (drop NonceSize data) of
               None \<Rightarrow> Inl GCMOpen
             | Some plaintext \<Rightarrow> Inr plaintext))"

text \<open>The pointer to \<open>exp\<close>: a number sets it, null clears it, another kind of value is an error.\<close>

fun fill_number :: "(string \<Rightarrow> int option) \<Rightarrow> int option \<Rightarrow> json list \<Rightarrow> int option option" where
  "fill_number trunc acc [] = Some acc"
| "fill_number trunc acc (JNum n # vs) =
     (case trunc n of None \<Rightarrow> None | Some i \<Rightarrow> fill_number trunc (Some i) vs)"
| "fill_number trunc acc (JNull # vs) = fill_number trunc None vs"
| "fill_number trunc acc (_ # vs) = None"

definition Second :: duration where "Second = 1000000000"
definition Minute :: duration where "Minute = 60 * Second"
definition Hour :: duration where "Hour = 60 * Minute"

definition checkUpstreamJWTExpiry :: "(string \<Rightarrow> int option) \<Rightarrow> time \<Rightarrow> string \<Rightarrow> bool" where
  "checkUpstreamJWTExpiry trunc now token =
     (case DecodePayload token (\<lambda>kvs. fill_number trunc None (field_values ''exp'' kvs)) of
        None \<Rightarrow> False
      | Some None \<Rightarrow> False
      | Some (Some e) \<Rightarrow> e * Second < now)"

section \<open>Session and backend-init tokens\<close>

text \<open>
  The claims of both kinds of token; a client session token has no purpose and no host.
\<close>

record token_claims =
  tc_IssuedAt :: "time option"
  tc_ExpiresAt :: "time option"
  tc_NotBefore :: "time option"
  tc_Issuer :: string
  tc_Audience :: "string list"
  tc_ID :: string
  tc_Purpose :: string
  tc_Host :: string

record parse_opts =
  po_Issuer :: string
  po_Audience :: string
  po_ValidMethods :: "string list"
  po_ExpirationRequired :: bool

datatype jwt_error = JWTError string

record jwt_lib =
  jwt_Sign :: "string \<Rightarrow> token_claims \<Rightarrow> string \<Rightarrow> jwt_error + string"
  jwt_Parse ::
    "string \<Rightarrow> (string \<Rightarrow> jwt_error + string) \<Rightarrow> parse_opts \<Rightarrow> time \<Rightarrow> jwt_error + token_claims \<times> bool"
  jwt_NumericDate :: "time \<Rightarrow> time"

datatype token_error =
    KeyLength | HostRequired | SignError jwt_error | ParseError jwt_error
  | InvalidBackendInitToken string

record JWTManager =
  jm_signingKey :: string
  jm_duration :: duration

definition DefaultSessionDuration :: duration where "DefaultSessionDuration = 24 * Hour"
definition issuer :: string where "issuer = ''mcp-gateway''"
definition sessionAudience :: string where "sessionAudience = ''mcp-gateway''"
definition backendInitAudience :: string where "backendInitAudience = ''mcp-router''"
definition backendInitPurpose :: string where "backendInitPurpose = ''backend-init''"
definition backendInitDuration :: duration where "backendInitDuration = 30 * Second"
definition signingMethodHS256 :: string where "signingMethodHS256 = ''HS256''"

definition NewJWTManager :: "string \<Rightarrow> int \<Rightarrow> token_error + JWTManager" where
  "NewJWTManager signingKey sessionLength =
     (if length signingKey < 32 then Inl KeyLength
      else Inr \<lparr>jm_signingKey = signingKey,
                jm_duration = (if sessionLength \<noteq> 0 then sessionLength * Minute
                               else DefaultSessionDuration)\<rparr>)"

definition session_claims :: "jwt_lib \<Rightarrow> JWTManager \<Rightarrow> time \<Rightarrow> string \<Rightarrow> token_claims" where
  "session_claims L m now uuid =
     \<lparr>tc_IssuedAt = Some (jwt_NumericDate L now),
      tc_ExpiresAt = Some (jwt_NumericDate L (now + jm_duration m)),
      tc_NotBefore = Some (jwt_NumericDate L now),
      tc_Issuer = issuer, tc_Audience = [sessionAudience], tc_ID = uuid,
      tc_Purpose = [], tc_Host = []\<rparr>"

definition generateSessionJWT :: "jwt_lib \<Rightarrow> JWTManager \<Rightarrow> time \<Rightarrow> string \<Rightarrow> jwt_error + string" where
  "generateSessionJWT L m now uuid =
     jwt_Sign L signingMethodHS256 (session_claims L m now uuid) (jm_signingKey m)"

definition backend_init_claims :: "jwt_lib \<Rightarrow> time \<Rightarrow> string \<Rightarrow> string \<Rightarrow> token_claims" where
  "backend_init_claims L now uuid host =
     \<lparr>tc_IssuedAt = Some (jwt_NumericDate L now),
      tc_ExpiresAt = Some (jwt_NumericDate L (now + backendInitDuration)),
      tc_NotBefore = Some (jwt_NumericDate L now),
      tc_Issuer = issuer, tc_Audience = [backendInitAudience], tc_ID = uuid,
      tc_Purpose = backendInitPurpose, tc_Host = host\<rparr>"

definition GenerateBackendInitToken ::
  "jwt_lib \<Rightarrow> JWTManager \<Rightarrow> time \<Rightarrow> string \<Rightarrow> string \<Rightarrow> token_error + string" where
  "GenerateBackendInitToken L m now uuid host =
     (if host = [] then Inl HostRequired
      else
        (case jwt_Sign L signingMethodHS256 (backend_init_claims L now uuid host)
                (jm_signingKey m) of
           Inl e \<Rightarrow> Inl (SignError e)
         | Inr token \<Rightarrow> Inr token))"

text \<open>The key function refuses a token that is not signed with an HMAC method.\<close>

definition hmac_method :: "string \<Rightarrow> bool" where
  "hmac_method alg \<longleftrightarrow> alg \<in> {''HS256'', ''HS384'', ''HS512''}"

definition keyfunc :: "JWTManager \<Rightarrow> string \<Rightarrow> jwt_error + string" where
  "keyfunc m alg =
     (if \<not> hmac_method alg then Inl (JWTError ''unexpected signing method'')
      else Inr (jm_signingKey m))"

definition gateway_opts :: "string \<Rightarrow> parse_opts" where
  "gateway_opts aud =
     \<lparr>po_Issuer = issuer, po_Audience = aud, po_ValidMethods = [signingMethodHS256],
      po_ExpirationRequired = True\<rparr>"

text \<open>None is the nil error.\<close>

definition ValidateBackendInitToken ::
  "jwt_lib \<Rightarrow> JWTManager \<Rightarrow> time \<Rightarrow> string \<Rightarrow> string \<Rightarrow> token_error option" where
  "ValidateBackendInitToken L m now tokenValue expectedHost =
     (case jwt_Parse L tokenValue (keyfunc m) (gateway_opts backendInitAudience) now of
        Inl e \<Rightarrow> Some (InvalidBackendInitToken ''parse'')
      | Inr (claims, valid) \<Rightarrow>
          if \<not> valid then Some (InvalidBackendInitToken [])
          else if tc_Purpose claims \<noteq> backendInitPurpose
          then Some (InvalidBackendInitToken ''wrong purpose claim'')
          else if expectedHost = [] \<or> tc_Host claims \<noteq> expectedHost
          then Some (InvalidBackendInitToken ''host claim mismatch'')
          else None)"

definition Generate :: "jwt_lib \<Rightarrow> JWTManager \<Rightarrow> time \<Rightarrow> string \<Rightarrow> string" where
  "Generate L m now uuid =
     (case generateSessionJWT L m now uuid of Inl e \<Rightarrow> [] | Inr sessID \<Rightarrow> sessID)"

text \<open>The boolean says that the token is invalid.\<close>

definition Validate ::
  "jwt_lib \<Rightarrow> JWTManager \<Rightarrow> time \<Rightarrow> string \<Rightarrow> bool \<times> token_error option" where
  "Validate L m now tokenValue =
     (case jwt_Parse L tokenValue (keyfunc m) (gateway_opts sessionAudience) now of
        Inl e \<Rightarrow> (True, Some (ParseError e))
      | Inr (claims, valid) \<Rightarrow> if \<not> valid then (True, None) else (False, None))"

definition GetExpiresIn ::
  "jwt_lib \<Rightarrow> JWTManager \<Rightarrow> time \<Rightarrow> string \<Rightarrow> time \<times> token_error option" where
  "GetExpiresIn L m now tokenValue =
     (case jwt_Parse L tokenValue (keyfunc m) (gateway_opts sessionAudience) now of
        Inl e \<Rightarrow> (now, Some (ParseError e))
      | Inr (claims, valid) \<Rightarrow>
          (case tc_ExpiresAt claims of
             None \<Rightarrow> (now, Some (ParseError (JWTError ''exp'')))
           | Some e \<Rightarrow> (e, None)))"

text \<open>
  What the code relies on of the JWT library: a parse checks the signing method, the key, the
  issuer, the audience and the two time bounds, and hands back the claims that were signed; a
  date loses less than a second.
\<close>

definition claims_accepted :: "parse_opts \<Rightarrow> time \<Rightarrow> token_claims \<Rightarrow> bool" where
  "claims_accepted opts now c \<longleftrightarrow>
     tc_Issuer c = po_Issuer opts \<and> po_Audience opts \<in> set (tc_Audience c) \<and>
     (case tc_ExpiresAt c of None \<Rightarrow> \<not> po_ExpirationRequired opts | Some e \<Rightarrow> now < e) \<and>
     (case tc_NotBefore c of None \<Rightarrow> True | Some b \<Rightarrow> b \<le> now)"

definition jwt_laws :: "jwt_lib \<Rightarrow> bool" where
  "jwt_laws L \<longleftrightarrow>
     (\<forall>alg c key token kf opts now.
        jwt_Sign L alg c key = Inr token \<longrightarrow>
        (if alg \<in> set (po_ValidMethods opts) \<and> kf alg = Inr key \<and> claims_accepted opts now c
         then jwt_Parse L token kf opts now = Inr (c, True)
         else (\<exists>e. jwt_Parse L token kf opts now = Inl e))) \<and>
     (\<forall>t. t - Second < jwt_NumericDate L t \<and> jwt_NumericDate L t \<le> t)"

section \<open>Facts\<close>

lemma keyfunc_HS256 [simp]: "keyfunc m signingMethodHS256 = Inr (jm_signingKey m)"
  by (simp add: keyfunc_def hmac_method_def signingMethodHS256_def)

lemma gateway_opts_simps [simp]:
  "po_Issuer (gateway_opts a) = issuer" "po_Audience (gateway_opts a) = a"
  "po_ValidMethods (gateway_opts a) = [signingMethodHS256]"
  "po_ExpirationRequired (gateway_opts a)"
  by (simp_all add: gateway_opts_def)

lemma audiences_differ [simp]: "sessionAudience \<noteq> backendInitAudience"
  by (simp add: sessionAudience_def backendInitAudience_def)

lemma parse_signed:
  assumes "jwt_laws L" and "jwt_Sign L signingMethodHS256 c key = Inr token"
  obtains (accepted) "key = jm_signingKey m" "claims_accepted (gateway_opts a) now c"
      "jwt_Parse L token (keyfunc m) (gateway_opts a) now = Inr (c, True)"
  | (rejected) e where "\<not> (key = jm_signingKey m \<and> claims_accepted (gateway_opts a) now c)"
      "jwt_Parse L token (keyfunc m) (gateway_opts a) now = Inl e"
proof -
  have "if signingMethodHS256 \<in> set (po_ValidMethods (gateway_opts a)) \<and>
           keyfunc m signingMethodHS256 = Inr key \<and> claims_accepted (gateway_opts a) now c
        then jwt_Parse L token (keyfunc m) (gateway_opts a) now = Inr (c, True)
        else (\<exists>e. jwt_Parse L token (keyfunc m) (gateway_opts a) now = Inl e)"
    using assms unfolding jwt_laws_def by blast
  with that show thesis by (auto split: if_splits)
qed

lemma session_claims_accepted:
  "claims_accepted (gateway_opts a) t (session_claims L m now uuid) \<longleftrightarrow>
     a = sessionAudience \<and> t < jwt_NumericDate L (now + jm_duration m) \<and> jwt_NumericDate L now \<le> t"
  by (auto simp: claims_accepted_def session_claims_def)

lemma backend_init_claims_accepted:
  "claims_accepted (gateway_opts a) t (backend_init_claims L now uuid host) \<longleftrightarrow>
     a = backendInitAudience \<and> t < jwt_NumericDate L (now + backendInitDuration) \<and>
     jwt_NumericDate L now \<le> t"
  by (auto simp: claims_accepted_def backend_init_claims_def)

lemma backend_init_fields:
  "tc_Purpose (backend_init_claims L now uuid host) = backendInitPurpose"
  "tc_Host (backend_init_claims L now uuid host) = host"
  by (simp_all add: backend_init_claims_def)

lemma decrypt_encrypt:
  assumes "\<And>p. gcm_Open g key nonce (gcm_Seal g key nonce p) = Some p"
    and "length nonce = NonceSize" and "encrypt g (Some nonce) key p = Inr c"
  shows "decrypt g key c = Inr p"
  using assms by (auto simp: encrypt_def decrypt_def Std_decode_encode split: if_splits)

lemma numeric_date:
  "jwt_laws L \<Longrightarrow> t - Second < jwt_NumericDate L t \<and> jwt_NumericDate L t \<le> t"
  by (simp add: jwt_laws_def)

lemma Validate_backend_init:
  assumes "jwt_laws L" and "GenerateBackendInitToken L m now uuid host = Inr token"
  shows "ValidateBackendInitToken L m' t token host' = None \<longleftrightarrow>
           jm_signingKey m' = jm_signingKey m \<and> host' = host \<and>
           t < jwt_NumericDate L (now + backendInitDuration) \<and> jwt_NumericDate L now \<le> t"
    and "fst (Validate L m' t token)"
proof -
  have host: "host \<noteq> []"
    and signed: "jwt_Sign L signingMethodHS256 (backend_init_claims L now uuid host)
                   (jm_signingKey m) = Inr token"
    using assms(2) by (auto simp: GenerateBackendInitToken_def split: if_splits sum.splits)
  note acc = backend_init_claims_accepted[of _ t L now uuid host]
  show "ValidateBackendInitToken L m' t token host' = None \<longleftrightarrow>
           jm_signingKey m' = jm_signingKey m \<and> host' = host \<and>
           t < jwt_NumericDate L (now + backendInitDuration) \<and> jwt_NumericDate L now \<le> t"
    by (rule parse_signed[OF assms(1) signed, of m' backendInitAudience t])
       (use host in \<open>auto simp: acc ValidateBackendInitToken_def backend_init_fields\<close>)
  show "fst (Validate L m' t token)"
    by (rule parse_signed[OF assms(1) signed, of m' sessionAudience t]) (auto simp: acc Validate_def)
qed

lemma Validate_session:
  assumes "jwt_laws L" and "generateSessionJWT L m now uuid = Inr token"
  shows "Validate L m' t token = (False, None) \<longleftrightarrow>
           jm_signingKey m' = jm_signingKey m \<and>
           t < jwt_NumericDate L (now + jm_duration m) \<and> jwt_NumericDate L now \<le> t"
    and "ValidateBackendInitToken L m' t token host \<noteq> None"
proof -
  have signed: "jwt_Sign L signingMethodHS256 (session_claims L m now uuid) (jm_signingKey m)
                = Inr token"
    using assms(2) by (simp add: generateSessionJWT_def)
  note acc = session_claims_accepted[of _ t L m now uuid]
  show "Validate L m' t token = (False, None) \<longleftrightarrow>
           jm_signingKey m' = jm_signingKey m \<and>
           t < jwt_NumericDate L (now + jm_duration m) \<and> jwt_NumericDate L now \<le> t"
    by (rule parse_signed[OF assms(1) signed, of m' sessionAudience t])
       (auto simp: acc Validate_def)
  show "ValidateBackendInitToken L m' t token host \<noteq> None"
    by (rule parse_signed[OF assms(1) signed, of m' backendInitAudience t])
       (use audiences_differ in \<open>auto simp: acc ValidateBackendInitToken_def\<close>)
qed

section \<open>Properties\<close>

text \<open>
  C8: a backend-init token is accepted for the host it was made for and for no other, from the
  moment it is made for at least 29 seconds, never 30 seconds later, and only by a holder of the
  same signing key; it is never accepted as a client session.
\<close>

theorem backend_init_token_bound_to_host:
  assumes "jwt_laws L" and "GenerateBackendInitToken L m now uuid host = Inr token"
  shows "(now \<le> t \<and> t \<le> now + 29 * Second \<longrightarrow> ValidateBackendInitToken L m t token host = None) \<and>
         (ValidateBackendInitToken L m' t token host' = None \<longrightarrow>
            host' = host \<and> jm_signingKey m' = jm_signingKey m \<and> t < now + 30 * Second) \<and>
         fst (Validate L m' t token)"
proof -
  have "jwt_NumericDate L now \<le> now" "now + 29 * Second < jwt_NumericDate L (now + backendInitDuration)"
    "jwt_NumericDate L (now + backendInitDuration) \<le> now + 30 * Second"
    using numeric_date[OF assms(1), of now] numeric_date[OF assms(1), of "now + backendInitDuration"]
    by (simp_all add: backendInitDuration_def)
  then show ?thesis by (auto simp: Validate_backend_init[OF assms])
qed

text \<open>
  A client session token is accepted by the manager that made it until its duration is over
  (up to the second that a date loses), only under the same signing key, and never as a
  backend-init token, for any host and at any time.
\<close>

theorem session_token_lifetime:
  assumes "jwt_laws L" and "generateSessionJWT L m now uuid = Inr token"
  shows "(now \<le> t \<and> t \<le> now + jm_duration m - Second \<longrightarrow> Validate L m t token = (False, None)) \<and>
         (Validate L m' t token = (False, None) \<longrightarrow>
            jm_signingKey m' = jm_signingKey m \<and> t < now + jm_duration m) \<and>
         ValidateBackendInitToken L m' t token host \<noteq> None"
proof -
  have "jwt_NumericDate L now \<le> now" "now + jm_duration m - Second < jwt_NumericDate L (now + jm_duration m)"
    "jwt_NumericDate L (now + jm_duration m) \<le> now + jm_duration m"
    using numeric_date[OF assms(1), of now] numeric_date[OF assms(1), of "now + jm_duration m"]
    by simp_all
  then show ?thesis by (auto simp: Validate_session[OF assms])
qed

text \<open>
  A library that signs the two sample tokens: a token is one letter, and a parse looks the claims
  up and checks them.
\<close>

definition sample_manager :: JWTManager where
  "sample_manager = \<lparr>jm_signingKey = replicate 32 (CHR ''k''), jm_duration = Hour\<rparr>"

definition sample_lib_of :: "token_claims \<Rightarrow> jwt_lib" where
  "sample_lib_of c0 =
     \<lparr>jwt_Sign = (\<lambda>alg c key. if alg = signingMethodHS256 \<and> c = c0 \<and> key = jm_signingKey sample_manager
                              then Inr ''t'' else Inl (JWTError [])),
      jwt_Parse = (\<lambda>token kf opts now.
         if signingMethodHS256 \<in> set (po_ValidMethods opts) \<and>
            kf signingMethodHS256 = Inr (jm_signingKey sample_manager) \<and>
            claims_accepted opts now c0
         then Inr (c0, True) else Inl (JWTError [])),
      jwt_NumericDate = (\<lambda>t. t)\<rparr>"

lemma sample_lib_laws: "jwt_laws (sample_lib_of c)"
  unfolding jwt_laws_def by (auto simp: sample_lib_of_def Second_def split: if_splits)

definition sample_lib :: jwt_lib where
  "sample_lib = sample_lib_of (backend_init_claims (sample_lib_of undefined) 0 ''u'' ''host'')"

definition sample_lib_session :: jwt_lib where
  "sample_lib_session = sample_lib_of (session_claims (sample_lib_of undefined) sample_manager 0 ''u'')"

theorem backend_init_token_bound_to_host_witness:
  "GenerateBackendInitToken sample_lib sample_manager 0 ''u'' ''host'' = Inr ''t'' \<and>
   ValidateBackendInitToken sample_lib sample_manager (5 * Second) ''t'' ''host'' = None \<and>
   ValidateBackendInitToken sample_lib sample_manager (5 * Second) ''t'' ''other'' \<noteq> None"
proof -
  have g: "GenerateBackendInitToken sample_lib sample_manager 0 ''u'' ''host'' = Inr ''t''"
    by (simp add: GenerateBackendInitToken_def sample_lib_def sample_lib_of_def backend_init_claims_def)
  note b = backend_init_token_bound_to_host[OF sample_lib_laws g[unfolded sample_lib_def],
      folded sample_lib_def]
  show ?thesis using g b[of "5 * Second" sample_manager "''other''"]
    by (simp add: Second_def)
qed

theorem session_token_lifetime_witness:
  "generateSessionJWT sample_lib_session sample_manager 0 ''u'' = Inr ''t'' \<and>
   Validate sample_lib_session sample_manager Minute ''t'' = (False, None) \<and>
   Validate sample_lib_session sample_manager (2 * Hour) ''t'' \<noteq> (False, None)"
proof -
  have g: "generateSessionJWT sample_lib_session sample_manager 0 ''u'' = Inr ''t''"
    by (simp add: generateSessionJWT_def sample_lib_session_def sample_lib_of_def session_claims_def)
  note b = session_token_lifetime[OF sample_lib_laws g[unfolded sample_lib_session_def],
      folded sample_lib_session_def]
  show ?thesis using g b[of Minute sample_manager] b[of "2 * Hour" sample_manager]
    by (simp add: Second_def Minute_def Hour_def sample_manager_def)
qed

end
