(* ===== verification/Session_Cache.thy ===== *)
theory Session_Cache
  imports Session_JWT
begin

text \<open>
  The session cache of \<open>internal/session/cache.go\<close>: sessions, client capabilities, user tokens and
  A2A ownership records in one keyed store, in memory or in Redis, and \<open>JWTManager.Terminate\<close>,
  which clears a session from it.

  In memory the store is a \<open>sync.Map\<close> of values of three types; reading one at the wrong type
  panics, which is the error \<open>Panic\<close>. Redis is the record \<open>redis\<close> of the commands that are sent,
  on a state of its own. The contract of the ownership records is the locale
  \<open>ownership_records\<close>.
\<close>

section \<open>Redis\<close>

datatype redis_error = RedisNil | RedisError string

datatype redis_cmd = HSet string string string | Expire string duration

record 'r redis =
  r_Exists :: "'r \<Rightarrow> string \<Rightarrow> redis_error + int"
  r_HGetAll :: "'r \<Rightarrow> string \<Rightarrow> redis_error + string gomap"
  r_Del :: "'r \<Rightarrow> string list \<Rightarrow> 'r \<times> redis_error option"
  r_Exec :: "'r \<Rightarrow> redis_cmd list \<Rightarrow> 'r \<times> redis_error option"
  r_HDel :: "'r \<Rightarrow> string \<Rightarrow> string \<Rightarrow> 'r \<times> redis_error option"
  r_HGet :: "'r \<Rightarrow> string \<Rightarrow> string \<Rightarrow> redis_error + string"
  r_Set :: "'r \<Rightarrow> string \<Rightarrow> string \<Rightarrow> duration \<Rightarrow> 'r \<times> redis_error option"
  r_SetNX :: "'r \<Rightarrow> string \<Rightarrow> string \<Rightarrow> duration \<Rightarrow> 'r \<times> redis_error option"
  r_Get :: "'r \<Rightarrow> string \<Rightarrow> redis_error + string"
  r_GetDel :: "'r \<Rightarrow> string \<Rightarrow> 'r \<times> (redis_error + string)"

section \<open>The cache\<close>

datatype cache_value = SessionVal "string gomap" | BoolVal bool | StringVal string

datatype cache_error = Panic | Redis redis_error | Crypto crypto_error

text \<open>
  The cache is in memory when the first field is set; otherwise it is the state of the Redis
  client.
\<close>

record 'r Cache =
  ca_inmemory :: "cache_value gomap option"
  ca_extClient :: 'r
  ca_encryptionKey :: "string option"

definition clientElicitationPrefix :: string where
  "clientElicitationPrefix = ''clientelicitation:''"

definition userTokenFieldPrefix :: string where
  "userTokenFieldPrefix = ''token:''"

definition taskRecordPrefix :: string where
  "taskRecordPrefix = ''taskowner:''"

definition redis_result :: "redis_error option \<Rightarrow> cache_error option" where
  "redis_result e = map_option Redis e"

definition set_memory :: "cache_value gomap \<Rightarrow> 'r Cache \<Rightarrow> 'r Cache" where
  "set_memory m c = c\<lparr>ca_inmemory := Some m\<rparr>"

definition set_ext :: "'r \<Rightarrow> 'r Cache \<Rightarrow> 'r Cache" where
  "set_ext r c = c\<lparr>ca_extClient := r\<rparr>"

definition NewCache :: "'r option \<Rightarrow> 'r \<Rightarrow> string option \<Rightarrow> 'r Cache" where
  "NewCache client nil key =
     (case client of
        Some r \<Rightarrow> \<lparr>ca_inmemory = None, ca_extClient = r, ca_encryptionKey = key\<rparr>
      | None \<Rightarrow> \<lparr>ca_inmemory = Some Map.empty, ca_extClient = nil, ca_encryptionKey = key\<rparr>)"

definition KeyExists :: "'r redis \<Rightarrow> 'r Cache \<Rightarrow> string \<Rightarrow> cache_error + bool" where
  "KeyExists R c key =
     (case ca_inmemory c of
        Some m \<Rightarrow> Inr (m key \<noteq> None)
      | None \<Rightarrow>
          (case r_Exists R (ca_extClient c) key of
             Inl e \<Rightarrow> Inl (Redis e)
           | Inr n \<Rightarrow> if n > 0 then Inr True else Inr False))"

text \<open>The type assertion \<open>val.(map[string]string)\<close>.\<close>

definition as_session :: "cache_value \<Rightarrow> cache_error + string gomap" where
  "as_session v = (case v of SessionVal s \<Rightarrow> Inr s | _ \<Rightarrow> Inl Panic)"

definition GetSession :: "'r redis \<Rightarrow> 'r Cache \<Rightarrow> string \<Rightarrow> cache_error + string gomap" where
  "GetSession R c key =
     (case ca_inmemory c of
        Some m \<Rightarrow>
          (case m key of
             Some val \<Rightarrow> as_session val
           | None \<Rightarrow> Inr Map.empty)
      | None \<Rightarrow>
          (case r_HGetAll R (ca_extClient c) key of
             Inl e \<Rightarrow> Inl (Redis e)
           | Inr h \<Rightarrow> Inr h))"

fun delete_sessions :: "string list \<Rightarrow> cache_value gomap \<Rightarrow> cache_value gomap" where
  "delete_sessions [] m = m"
| "delete_sessions (k # ks) m =
     delete_sessions ks ((m(k := None))(clientElicitationPrefix @ k := None))"

definition DeleteSessions ::
  "'r redis \<Rightarrow> 'r Cache \<Rightarrow> string list \<Rightarrow> 'r Cache \<times> cache_error option" where
  "DeleteSessions R c key =
     (case ca_inmemory c of
        Some m \<Rightarrow> (set_memory (delete_sessions key m) c, None)
      | None \<Rightarrow>
          (let allKeys = concat (map (\<lambda>k. [k, clientElicitationPrefix @ k]) key)
           in case r_Del R (ca_extClient c) allKeys of
                (r, e) \<Rightarrow> (set_ext r c, redis_result e)))"

text \<open>
  The copy-on-write update of one field of a session, shared by \<open>AddSession\<close> and \<open>SetUserToken\<close>:
  a missing session starts empty.
\<close>

definition put_field ::
  "cache_value gomap \<Rightarrow> string \<Rightarrow> string \<Rightarrow> string \<Rightarrow> cache_error + cache_value gomap" where
  "put_field m key field v =
     (case m key of
        None \<Rightarrow> Inr (m(key \<mapsto> SessionVal [field \<mapsto> v]))
      | Some val \<Rightarrow>
          (case as_session val of
             Inl e \<Rightarrow> Inl e
           | Inr existing \<Rightarrow> Inr (m(key \<mapsto> SessionVal (existing(field \<mapsto> v))))))"

definition del_field ::
  "cache_value gomap \<Rightarrow> string \<Rightarrow> string \<Rightarrow> cache_error + cache_value gomap" where
  "del_field m key field =
     (case m key of
        None \<Rightarrow> Inr m
      | Some val \<Rightarrow>
          (case as_session val of
             Inl e \<Rightarrow> Inl e
           | Inr existing \<Rightarrow> Inr (m(key \<mapsto> SessionVal (existing(field := None))))))"

definition AddSession ::
  "'r redis \<Rightarrow> 'r Cache \<Rightarrow> string \<Rightarrow> string \<Rightarrow> string \<Rightarrow> duration \<Rightarrow> 'r Cache \<times> (cache_error + bool)"
where
  "AddSession R c key mcpServerID mcpSession ttl =
     (case ca_inmemory c of
        Some m \<Rightarrow>
          (case put_field m key mcpServerID mcpSession of
             Inl e \<Rightarrow> (c, Inl e)
           | Inr m' \<Rightarrow> (set_memory m' c, Inr True))
      | None \<Rightarrow>
          (case r_Exec R (ca_extClient c)
                  (HSet key mcpServerID mcpSession # (if ttl > 0 then [Expire key ttl] else [])) of
             (r, Some e) \<Rightarrow> (set_ext r c, Inl (Redis e))
           | (r, None) \<Rightarrow> (set_ext r c, Inr True)))"

definition RemoveServerSession ::
  "'r redis \<Rightarrow> 'r Cache \<Rightarrow> string \<Rightarrow> string \<Rightarrow> 'r Cache \<times> cache_error option" where
  "RemoveServerSession R c key mcpServerID =
     (case ca_inmemory c of
        Some m \<Rightarrow>
          (case del_field m key mcpServerID of
             Inl e \<Rightarrow> (c, Some e)
           | Inr m' \<Rightarrow> (set_memory m' c, None))
      | None \<Rightarrow>
          (case r_HDel R (ca_extClient c) key mcpServerID of
             (r, e) \<Rightarrow> (set_ext r c, redis_result e)))"

definition SetClientElicitation ::
  "'r redis \<Rightarrow> 'r Cache \<Rightarrow> string \<Rightarrow> duration \<Rightarrow> 'r Cache \<times> cache_error option" where
  "SetClientElicitation R c gatewaySessionID ttl =
     (let key = clientElicitationPrefix @ gatewaySessionID
      in case ca_inmemory c of
           Some m \<Rightarrow> (set_memory (m(key \<mapsto> BoolVal True)) c, None)
         | None \<Rightarrow>
             (case r_Set R (ca_extClient c) key ''1'' ttl of
                (r, e) \<Rightarrow> (set_ext r c, redis_result e)))"

definition GetClientElicitation :: "'r redis \<Rightarrow> 'r Cache \<Rightarrow> string \<Rightarrow> cache_error + bool" where
  "GetClientElicitation R c gatewaySessionID =
     (let key = clientElicitationPrefix @ gatewaySessionID
      in case ca_inmemory c of
           Some m \<Rightarrow> Inr (m key \<noteq> None)
         | None \<Rightarrow>
             (case r_Get R (ca_extClient c) key of
                Inl e \<Rightarrow> if e = RedisNil then Inr False else Inl (Redis e)
              | Inr val \<Rightarrow> Inr (val = ''1'')))"

definition SetUserToken ::
  "'r redis \<Rightarrow> aead \<Rightarrow> string option \<Rightarrow> 'r Cache \<Rightarrow> string \<Rightarrow> string \<Rightarrow> string \<Rightarrow> duration \<Rightarrow>
   'r Cache \<times> cache_error option" where
  "SetUserToken R g random c sessionID serverName token ttl =
     (let field = userTokenFieldPrefix @ serverName
      in case ca_inmemory c of
           Some m \<Rightarrow>
             (case put_field m sessionID field token of
                Inl e \<Rightarrow> (c, Some e)
              | Inr m' \<Rightarrow> (set_memory m' c, None))
         | None \<Rightarrow>
             (case (case ca_encryptionKey c of
                      None \<Rightarrow> Inr token
                    | Some key \<Rightarrow> encrypt g random key token) of
                Inl e \<Rightarrow> (c, Some (Crypto e))
              | Inr v \<Rightarrow>
                  (case r_Exec R (ca_extClient c)
                          (HSet sessionID field v # (if ttl > 0 then [Expire sessionID ttl] else [])) of
                     (r, e) \<Rightarrow> (set_ext r c, redis_result e))))"

definition DeleteUserToken ::
  "'r redis \<Rightarrow> 'r Cache \<Rightarrow> string \<Rightarrow> string \<Rightarrow> 'r Cache \<times> cache_error option" where
  "DeleteUserToken R c sessionID serverName =
     (let field = userTokenFieldPrefix @ serverName
      in case ca_inmemory c of
           Some m \<Rightarrow>
             (case del_field m sessionID field of
                Inl e \<Rightarrow> (c, Some e)
              | Inr m' \<Rightarrow> (set_memory m' c, None))
         | None \<Rightarrow>
             (case r_HDel R (ca_extClient c) sessionID field of
                (r, e) \<Rightarrow> (set_ext r c, redis_result e)))"

text \<open>The token, None on a miss.\<close>

definition GetUserToken ::
  "'r redis \<Rightarrow> aead \<Rightarrow> (string \<Rightarrow> int option) \<Rightarrow> time \<Rightarrow> 'r Cache \<Rightarrow> string \<Rightarrow> string \<Rightarrow>
   'r Cache \<times> (cache_error + string option)" where
  "GetUserToken R g trunc now c sessionID serverName =
     (let field = userTokenFieldPrefix @ serverName
      in case ca_inmemory c of
           Some m \<Rightarrow>
             (case m sessionID of
                None \<Rightarrow> (c, Inr None)
              | Some val \<Rightarrow>
                  (case as_session val of
                     Inl e \<Rightarrow> (c, Inl e)
                   | Inr s \<Rightarrow>
                       (case s field of
                          None \<Rightarrow> (c, Inr None)
                        | Some token \<Rightarrow>
                            if checkUpstreamJWTExpiry trunc now token
                            then (set_memory (m(sessionID \<mapsto> SessionVal (s(field := None)))) c,
                                  Inr None)
                            else (c, Inr (Some token)))))
         | None \<Rightarrow>
             (case r_HGet R (ca_extClient c) sessionID field of
                Inl e \<Rightarrow> (c, if e = RedisNil then Inr None else Inl (Redis e))
              | Inr raw \<Rightarrow>
                  (case (case ca_encryptionKey c of
                           None \<Rightarrow> Inr raw
                         | Some key \<Rightarrow> decrypt g key raw) of
                     Inl e \<Rightarrow> (c, Inl (Crypto e))
                   | Inr token \<Rightarrow>
                       if checkUpstreamJWTExpiry trunc now token
                       then (fst (DeleteUserToken R c sessionID serverName), Inr None)
                       else (c, Inr (Some token)))))"

subsection \<open>Ownership records\<close>

definition taskRecordKey :: "string \<Rightarrow> string \<Rightarrow> string" where
  "taskRecordKey agent i = taskRecordPrefix @ agent @ '':'' @ i"

text \<open>The owner after the call and whether this call created the record.\<close>

definition StoreTaskRecord ::
  "'r redis \<Rightarrow> 'r Cache \<Rightarrow> string \<Rightarrow> string \<Rightarrow> string \<Rightarrow> duration \<Rightarrow>
   'r Cache \<times> (cache_error + string \<times> bool)" where
  "StoreTaskRecord R c agent i princ ttl =
     (let key = taskRecordKey agent i
      in case ca_inmemory c of
           Some m \<Rightarrow>
             (case m key of
                None \<Rightarrow> (set_memory (m(key \<mapsto> StringVal princ)) c, Inr (princ, True))
              | Some (StringVal actual) \<Rightarrow> (c, Inr (actual, False))
              | Some _ \<Rightarrow> (c, Inl Panic))
         | None \<Rightarrow>
             (case r_SetNX R (ca_extClient c) key princ ttl of
                (r, None) \<Rightarrow> (set_ext r c, Inr (princ, True))
              | (r, Some e) \<Rightarrow>
                  (set_ext r c,
                   if e \<noteq> RedisNil then Inl (Redis e)
                   else
                     (case r_Get R r key of
                        Inr owner \<Rightarrow> Inr (owner, False)
                      | Inl e' \<Rightarrow> if e' = RedisNil then Inr ([], False) else Inl (Redis e')))))"

definition LookupTaskRecord ::
  "'r redis \<Rightarrow> 'r Cache \<Rightarrow> string \<Rightarrow> string \<Rightarrow> cache_error + string option" where
  "LookupTaskRecord R c agent i =
     (let key = taskRecordKey agent i
      in case ca_inmemory c of
           Some m \<Rightarrow>
             (case m key of
                None \<Rightarrow> Inr None
              | Some (StringVal owner) \<Rightarrow> Inr (Some owner)
              | Some _ \<Rightarrow> Inl Panic)
         | None \<Rightarrow>
             (case r_Get R (ca_extClient c) key of
                Inl e \<Rightarrow> if e = RedisNil then Inr None else Inl (Redis e)
              | Inr owner \<Rightarrow> Inr (Some owner)))"

definition DeleteTaskRecord ::
  "'r redis \<Rightarrow> 'r Cache \<Rightarrow> string \<Rightarrow> string \<Rightarrow> 'r Cache \<times> cache_error option" where
  "DeleteTaskRecord R c agent i =
     (let key = taskRecordKey agent i
      in case ca_inmemory c of
           Some m \<Rightarrow> (set_memory (m(key := None)) c, None)
         | None \<Rightarrow>
             (case r_Del R (ca_extClient c) [key] of
                (r, e) \<Rightarrow> (set_ext r c, redis_result e)))"

section \<open>Ending a session\<close>

text \<open>The manager's deleter is the cache; without one there is nothing to clear.\<close>

definition Terminate ::
  "'r redis \<Rightarrow> 'r Cache option \<Rightarrow> string \<Rightarrow> 'r Cache option \<times> bool \<times> cache_error option" where
  "Terminate R sessionDeleter sessionID =
     (case sessionDeleter of
        None \<Rightarrow> (None, False, None)
      | Some c \<Rightarrow>
          (case DeleteSessions R c [sessionID] of
             (c', e) \<Rightarrow> (Some c', False, e)))"

section \<open>Operations as steps\<close>

datatype cache_op =
    OpAddSession string string string duration
  | OpRemoveServerSession string string
  | OpDeleteSessions "string list"
  | OpSetClientElicitation string duration
  | OpSetUserToken string string string duration
  | OpGetUserToken time string string
  | OpDeleteUserToken string string
  | OpStoreTaskRecord string string string duration
  | OpDeleteTaskRecord string string

definition error_of :: "cache_error + 'a \<Rightarrow> cache_error option" where
  "error_of x = (case x of Inl e \<Rightarrow> Some e | Inr _ \<Rightarrow> None)"

text \<open>One operation on the cache: the new cache and the error it reported.\<close>

fun run_op ::
  "'r redis \<Rightarrow> aead \<Rightarrow> string option \<Rightarrow> (string \<Rightarrow> int option) \<Rightarrow> cache_op \<Rightarrow> 'r Cache \<Rightarrow>
   'r Cache \<times> cache_error option" where
  "run_op R g random trunc (OpAddSession k srv s ttl) c =
     map_prod id error_of (AddSession R c k srv s ttl)"
| "run_op R g random trunc (OpRemoveServerSession k srv) c = RemoveServerSession R c k srv"
| "run_op R g random trunc (OpDeleteSessions ks) c = DeleteSessions R c ks"
| "run_op R g random trunc (OpSetClientElicitation k ttl) c = SetClientElicitation R c k ttl"
| "run_op R g random trunc (OpSetUserToken k srv tok ttl) c =
     SetUserToken R g random c k srv tok ttl"
| "run_op R g random trunc (OpGetUserToken now k srv) c =
     map_prod id error_of (GetUserToken R g trunc now c k srv)"
| "run_op R g random trunc (OpDeleteUserToken k srv) c = DeleteUserToken R c k srv"
| "run_op R g random trunc (OpStoreTaskRecord agent i p ttl) c =
     map_prod id error_of (StoreTaskRecord R c agent i p ttl)"
| "run_op R g random trunc (OpDeleteTaskRecord agent i) c = DeleteTaskRecord R c agent i"

text \<open>
  Session identifiers are JWTs and agent names are \<open>namespace/name\<close>: neither has a colon.
\<close>

definition colon_free :: "string \<Rightarrow> bool" where
  "colon_free s \<longleftrightarrow> CHR '':'' \<notin> set s"

fun op_ok :: "cache_op \<Rightarrow> bool" where
  "op_ok (OpAddSession k srv s ttl) = colon_free k"
| "op_ok (OpRemoveServerSession k srv) = colon_free k"
| "op_ok (OpDeleteSessions ks) = list_all colon_free ks"
| "op_ok (OpSetClientElicitation k ttl) = colon_free k"
| "op_ok (OpSetUserToken k srv tok ttl) = colon_free k"
| "op_ok (OpGetUserToken now k srv) = colon_free k"
| "op_ok (OpDeleteUserToken k srv) = colon_free k"
| "op_ok (OpStoreTaskRecord agent i p ttl) = colon_free agent"
| "op_ok (OpDeleteTaskRecord agent i) = colon_free agent"

text \<open>\<open>cache_run ops c c'\<close>: the operations, one after the other, lead from \<open>c\<close> to \<open>c'\<close>.\<close>

inductive cache_run ::
  "'r redis \<Rightarrow> aead \<Rightarrow> (string \<Rightarrow> int option) \<Rightarrow> cache_op list \<Rightarrow> 'r Cache \<Rightarrow> 'r Cache \<Rightarrow> bool"
  for R g trunc where
  cache_nil: "cache_run R g trunc [] c c"
| cache_step: "op_ok op \<Longrightarrow> run_op R g random trunc op c = (c', e) \<Longrightarrow> cache_run R g trunc ops c' c'' \<Longrightarrow>
         cache_run R g trunc (op # ops) c c''"

inductive_cases cache_run_NilE: "cache_run R g trunc [] c c'"
inductive_cases cache_run_ConsE: "cache_run R g trunc (op # ops) c c'"

text \<open>A cache in memory whose values have the type that their key asks for.\<close>

definition typed_memory :: "cache_value gomap \<Rightarrow> bool" where
  "typed_memory m \<longleftrightarrow>
     (\<forall>k v. m k = Some v \<longrightarrow>
        (HasPrefix k taskRecordPrefix \<longrightarrow> (\<exists>p. v = StringVal p)) \<and>
        (colon_free k \<longrightarrow> (\<exists>s. v = SessionVal s)))"

definition typed_cache :: "'r Cache \<Rightarrow> bool" where
  "typed_cache c \<longleftrightarrow> (\<exists>m. ca_inmemory c = Some m \<and> typed_memory m)"

section \<open>Keys\<close>

lemma taskRecordKey_prefix [simp]: "HasPrefix (taskRecordKey agent i) taskRecordPrefix"
  by (simp add: taskRecordKey_def HasPrefix_append)

lemma taskRecordKey_colon [simp]: "\<not> colon_free (taskRecordKey agent i)"
  by (simp add: colon_free_def taskRecordKey_def)

lemma elicitation_key_colon [simp]: "\<not> colon_free (clientElicitationPrefix @ k)"
  by (simp add: colon_free_def clientElicitationPrefix_def)

lemma elicitation_key_prefix [simp]: "\<not> HasPrefix (clientElicitationPrefix @ k) taskRecordPrefix"
  by (simp add: HasPrefix_def clientElicitationPrefix_def taskRecordPrefix_def)

lemma colon_free_prefix: "colon_free k \<Longrightarrow> \<not> HasPrefix k taskRecordPrefix"
proof
  assume k: "colon_free k" and "HasPrefix k taskRecordPrefix"
  then obtain r where "k = taskRecordPrefix @ r" by (auto simp: HasPrefix_iff)
  with k show False by (simp add: colon_free_def taskRecordPrefix_def)
qed

lemma taskRecordKey_distinct [simp]:
  "taskRecordKey agent i \<noteq> clientElicitationPrefix @ k"
  by (metis elicitation_key_prefix taskRecordKey_prefix)

lemma taskRecordKey_session: "colon_free k \<Longrightarrow> taskRecordKey agent i \<noteq> k"
  by auto

lemma taskRecordKey_eq:
  assumes "colon_free agent" and "colon_free agent'"
  shows "taskRecordKey agent i = taskRecordKey agent' i' \<longleftrightarrow> agent = agent' \<and> i = i'"
  using assms append_sep_inject[of "CHR '':''" agent agent' i i']
  by (auto simp: taskRecordKey_def colon_free_def)

section \<open>Typing is kept and nothing panics\<close>

lemma typed_upd_session: "typed_memory m \<Longrightarrow> colon_free k \<Longrightarrow> typed_memory (m(k \<mapsto> SessionVal s))"
  by (auto simp: typed_memory_def colon_free_prefix)

lemma typed_upd_flag: "typed_memory m \<Longrightarrow> typed_memory (m(clientElicitationPrefix @ k \<mapsto> BoolVal b))"
  by (auto simp: typed_memory_def)

lemma typed_upd_record: "typed_memory m \<Longrightarrow> typed_memory (m(taskRecordKey agent i \<mapsto> StringVal p))"
  by (auto simp: typed_memory_def)

lemma typed_delete: "typed_memory m \<Longrightarrow> typed_memory (m(k := None))"
  by (auto simp: typed_memory_def)

lemma typed_delete_sessions: "typed_memory m \<Longrightarrow> typed_memory (delete_sessions ks m)"
  by (induction ks arbitrary: m) (auto simp: typed_delete)

lemma typed_session: "typed_memory m \<Longrightarrow> colon_free k \<Longrightarrow> m k = Some v \<Longrightarrow> \<exists>s. v = SessionVal s"
  by (auto simp: typed_memory_def)

lemma typed_record: "typed_memory m \<Longrightarrow> m (taskRecordKey agent i) = Some v \<Longrightarrow> \<exists>p. v = StringVal p"
  by (auto simp: typed_memory_def)

lemma put_field_typed:
  assumes "typed_memory m" and "colon_free k"
  shows "\<exists>s. put_field m k field v = Inr (m(k \<mapsto> SessionVal s)) \<and> s field = Some v"
proof (cases "m k")
  case (Some a)
  with typed_session[OF assms] obtain s where "a = SessionVal s" by blast
  with Some show ?thesis
    by (auto simp: put_field_def as_session_def intro!: exI[of _ "s(field \<mapsto> v)"])
qed (auto simp: put_field_def intro!: exI[of _ "[field \<mapsto> v]"])

lemma del_field_typed:
  assumes "typed_memory m" and "colon_free k"
  shows "del_field m k field = Inr m \<or> (\<exists>s. del_field m k field = Inr (m(k \<mapsto> SessionVal s)))"
proof (cases "m k")
  case (Some a)
  with typed_session[OF assms] obtain s where "a = SessionVal s" by blast
  with Some show ?thesis by (simp add: del_field_def as_session_def) blast
qed (simp add: del_field_def)

lemmas cache_op_defs =
  AddSession_def RemoveServerSession_def DeleteSessions_def SetClientElicitation_def
  SetUserToken_def GetUserToken_def DeleteUserToken_def StoreTaskRecord_def DeleteTaskRecord_def
  LookupTaskRecord_def set_memory_def error_of_def

text \<open>The effect of an operation in memory: no error, and a change of the keys it is about.\<close>

lemma run_op_typed:
  assumes "typed_cache c" and "op_ok op"
  obtains c' where "run_op R g random trunc op c = (c', None)" "typed_cache c'"
proof -
  obtain m where m: "ca_inmemory c = Some m" "typed_memory m"
    using assms(1) by (auto simp: typed_cache_def)
  have "\<exists>c'. run_op R g random trunc op c = (c', None) \<and> typed_cache c'"
  proof (cases op)
    case (OpAddSession k srv s ttl)
    with assms(2) m put_field_typed[OF m(2), of k srv s] show ?thesis
      by (auto simp: cache_op_defs typed_cache_def typed_upd_session)
  next
    case (OpRemoveServerSession k srv)
    with assms(2) m del_field_typed[OF m(2), of k srv] show ?thesis
      by (auto simp: cache_op_defs typed_cache_def typed_upd_session)
  next
    case (OpDeleteSessions ks)
    with m show ?thesis by (auto simp: cache_op_defs typed_cache_def typed_delete_sessions)
  next
    case (OpSetClientElicitation k ttl)
    with m show ?thesis by (auto simp: cache_op_defs typed_cache_def typed_upd_flag)
  next
    case (OpSetUserToken k srv tok ttl)
    with assms(2) m put_field_typed[OF m(2), of k "userTokenFieldPrefix @ srv" tok] show ?thesis
      by (auto simp: cache_op_defs typed_cache_def typed_upd_session Let_def)
  next
    case (OpGetUserToken now k srv)
    with assms(2) m show ?thesis
      by (auto simp: cache_op_defs typed_cache_def typed_upd_session Let_def as_session_def
          dest: typed_session[OF m(2)] split: option.splits cache_value.splits)
  next
    case (OpDeleteUserToken k srv)
    with assms(2) m del_field_typed[OF m(2), of k "userTokenFieldPrefix @ srv"] show ?thesis
      by (auto simp: cache_op_defs typed_cache_def typed_upd_session Let_def)
  next
    case (OpStoreTaskRecord agent i p ttl)
    with m show ?thesis
      by (auto simp: cache_op_defs typed_cache_def typed_upd_record Let_def
          dest: typed_record[OF m(2)] split: option.splits cache_value.splits)
  next
    case (OpDeleteTaskRecord agent i)
    with m show ?thesis by (auto simp: cache_op_defs typed_cache_def typed_delete Let_def)
  qed
  with that show thesis by blast
qed

section \<open>Ownership records are insert-only\<close>

text \<open>
  The contract of the records, as the A2A router uses it: a store reports the owner after the
  call, which is the one that was there if there was one, and changes no other record.
\<close>

locale ownership_records =
  fixes inv :: "'c \<Rightarrow> bool"
    and agent_ok :: "string \<Rightarrow> bool"
    and store :: "'c \<Rightarrow> string \<Rightarrow> string \<Rightarrow> string \<Rightarrow> 'c \<times> ('e + string \<times> bool)"
    and lookup :: "'c \<Rightarrow> string \<Rightarrow> string \<Rightarrow> 'e + string option"
  assumes lookup_total: "inv c \<Longrightarrow> \<exists>owner. lookup c agent i = Inr owner"
    and store_spec: "inv c \<Longrightarrow> lookup c agent i = Inr owner \<Longrightarrow>
      \<exists>c'. store c agent i p =
             (c', Inr (case owner of None \<Rightarrow> (p, True) | Some q \<Rightarrow> (q, False))) \<and> inv c' \<and>
           lookup c' agent i = Inr (Some (case owner of None \<Rightarrow> p | Some q \<Rightarrow> q))"
    and store_other: "inv c \<Longrightarrow> agent_ok agent \<Longrightarrow> agent_ok agent' \<Longrightarrow> (agent, i) \<noteq> (agent', i') \<Longrightarrow>
      lookup (fst (store c agent i p)) agent' i' = lookup c agent' i'"
begin

lemma first_writer_wins:
  assumes "inv c" and "lookup c agent i = Inr None"
  shows "\<exists>c1 c2. store c agent i p = (c1, Inr (p, True)) \<and> store c1 agent i q = (c2, Inr (p, False))"
proof -
  obtain c1 where 1: "store c agent i p = (c1, Inr (p, True))" "inv c1" "lookup c1 agent i = Inr (Some p)"
    using store_spec[OF assms, of p] by auto
  then show ?thesis using store_spec[OF 1(2,3), of q] by auto
qed

lemma owner_kept:
  assumes "inv c" and "lookup c agent i = Inr (Some q)" and "agent_ok agent" and "agent_ok agent'"
  shows "lookup (fst (store c agent' i' p)) agent i = Inr (Some q)"
proof (cases "(agent', i') = (agent, i)")
  case True
  with store_spec[OF assms(1,2), of p] show ?thesis by auto
next
  case False
  with store_other[OF assms(1,4,3)] assms(2) show ?thesis by auto
qed

end

interpretation mem_records: ownership_records typed_cache colon_free
    "\<lambda>c agent i p. StoreTaskRecord R c agent i p ttl" "LookupTaskRecord R" for R ttl
proof
  fix c :: "'a Cache" and agent i p owner
  assume c: "typed_cache c"
  then obtain m where m: "ca_inmemory c = Some m" "typed_memory m"
    by (auto simp: typed_cache_def)
  show "\<exists>owner. LookupTaskRecord R c agent i = Inr owner"
    using m typed_record[OF m(2), of agent i]
    by (auto simp: LookupTaskRecord_def Let_def split: option.splits cache_value.splits)
  assume "LookupTaskRecord R c agent i = Inr owner"
  then show "\<exists>c'. StoreTaskRecord R c agent i p ttl =
       (c', Inr (case owner of None \<Rightarrow> (p, True) | Some q \<Rightarrow> (q, False))) \<and> typed_cache c' \<and>
       LookupTaskRecord R c' agent i = Inr (Some (case owner of None \<Rightarrow> p | Some q \<Rightarrow> q))"
    using m c by (auto simp: cache_op_defs typed_cache_def typed_upd_record Let_def
        split: option.splits cache_value.splits)
next
  fix c :: "'a Cache" and agent agent' i i' p :: string
  assume c: "typed_cache c" and ok: "colon_free agent" "colon_free agent'"
    and ne: "(agent, i) \<noteq> (agent', i')"
  then have "taskRecordKey agent' i' \<noteq> taskRecordKey agent i"
    using taskRecordKey_eq[OF ok, of i i'] by metis
  then show "LookupTaskRecord R (fst (StoreTaskRecord R c agent i p ttl)) agent' i' =
             LookupTaskRecord R c agent' i'"
    using c by (auto simp: cache_op_defs typed_cache_def Let_def
        split: option.splits cache_value.splits)
qed

text \<open>An operation other than the deletion of the record leaves its owner in place.\<close>

lemma lookup_cong:
  "ca_inmemory c = Some m \<Longrightarrow> ca_inmemory c' = Some m' \<Longrightarrow>
   m' (taskRecordKey agent i) = m (taskRecordKey agent i) \<Longrightarrow>
   LookupTaskRecord R c' agent i = LookupTaskRecord R c agent i"
  by (simp add: LookupTaskRecord_def)

lemma delete_sessions_other:
  "list_all colon_free ks \<Longrightarrow>
   delete_sessions ks m (taskRecordKey agent i) = m (taskRecordKey agent i)"
  by (induction ks arbitrary: m) (auto simp: taskRecordKey_session)

lemma run_op_owner:
  assumes c: "typed_cache c" and ok: "op_ok op" "colon_free agent"
    and owner: "LookupTaskRecord R c agent i = Inr (Some q)"
    and op: "op \<noteq> OpDeleteTaskRecord agent i"
  shows "LookupTaskRecord R (fst (run_op R g random trunc op c)) agent i = Inr (Some q)"
proof -
  obtain m where m: "ca_inmemory c = Some m" "typed_memory m"
    using c by (auto simp: typed_cache_def)
  have upd: "LookupTaskRecord R (set_memory (m(k := v)) c) agent i = Inr (Some q)"
    if "k \<noteq> taskRecordKey agent i" for k v
    using that owner m by (simp add: LookupTaskRecord_def set_memory_def)
  have sess: "LookupTaskRecord R (set_memory (m(k := v)) c) agent i = Inr (Some q)"
    if "colon_free k" for k v
    using that upd taskRecordKey_session by metis
  show ?thesis
  proof (cases op)
    case (OpAddSession k srv s ttl)
    with ok m sess[of k] put_field_typed[OF m(2), of k srv s] show ?thesis
      by (auto simp: AddSession_def)
  next
    case (OpRemoveServerSession k srv)
    with ok m sess[of k] owner del_field_typed[OF m(2), of k srv] show ?thesis
      by (auto simp: RemoveServerSession_def LookupTaskRecord_def set_memory_def)
  next
    case (OpDeleteSessions ks)
    with ok m owner show ?thesis
      by (simp add: DeleteSessions_def LookupTaskRecord_def set_memory_def delete_sessions_other)
  next
    case (OpSetClientElicitation k ttl)
    with m upd[of "clientElicitationPrefix @ k"] show ?thesis
      by (simp add: SetClientElicitation_def taskRecordKey_distinct[symmetric])
  next
    case (OpSetUserToken k srv tok ttl)
    with ok m sess[of k] put_field_typed[OF m(2), of k "userTokenFieldPrefix @ srv" tok] show ?thesis
      by (auto simp: SetUserToken_def Let_def)
  next
    case (OpGetUserToken now k srv)
    with ok m sess[of k] owner show ?thesis
      by (auto simp: GetUserToken_def Let_def as_session_def split: option.splits cache_value.splits)
  next
    case (OpDeleteUserToken k srv)
    with ok m sess[of k] owner del_field_typed[OF m(2), of k "userTokenFieldPrefix @ srv"] show ?thesis
      by (auto simp: DeleteUserToken_def Let_def LookupTaskRecord_def set_memory_def)
  next
    case (OpStoreTaskRecord agent' i' p ttl)
    with ok owner mem_records.owner_kept[OF c owner ok(2)] show ?thesis by simp
  next
    case (OpDeleteTaskRecord agent' i')
    with ok op taskRecordKey_eq[of agent' agent i' i] have "taskRecordKey agent' i' \<noteq> taskRecordKey agent i"
      by auto
    with OpDeleteTaskRecord m upd show ?thesis by (simp add: DeleteTaskRecord_def Let_def)
  qed
qed

lemma cache_run_owner:
  assumes "cache_run R g trunc ops c c'" and "typed_cache c" and "colon_free agent"
    and "LookupTaskRecord R c agent i = Inr (Some q)" and "OpDeleteTaskRecord agent i \<notin> set ops"
  shows "typed_cache c' \<and> LookupTaskRecord R c' agent i = Inr (Some q)"
  using assms
proof (induction rule: cache_run.induct)
  case (cache_step op random c c' e ops c'')
  have "typed_cache c'"
    by (rule run_op_typed[OF cache_step.prems(1) cache_step.hyps(1), of R g random trunc])
       (use cache_step.hyps(2) in simp)
  moreover have "LookupTaskRecord R c' agent i = Inr (Some q)"
    using run_op_owner[OF cache_step.prems(1) cache_step.hyps(1) cache_step.prems(2,3),
        of g random trunc] cache_step.hyps(2) cache_step.prems(4) by auto
  ultimately show ?case using cache_step.IH cache_step.prems(2,4) by simp
qed simp

section \<open>Properties\<close>

text \<open>
  C4: ownership is permanent. Once a task or context id of an agent has an owner, any sequence
  of cache operations (sessions, tokens, capability flags, other records, further claims on the
  same id) other than the explicit deletion of this record leaves that owner in place.
\<close>

theorem ownership_is_permanent:
  assumes "typed_cache c" and "colon_free agent"
    and "StoreTaskRecord R c agent i p ttl = (c1, Inr (owner, created))"
    and "cache_run R g trunc ops c1 c2" and "OpDeleteTaskRecord agent i \<notin> set ops"
  shows "LookupTaskRecord R c2 agent i = Inr (Some owner)"
proof -
  obtain o1 where l: "LookupTaskRecord R c agent i = Inr o1"
    using mem_records.lookup_total[OF assms(1)] by blast
  have "typed_cache c1 \<and> LookupTaskRecord R c1 agent i = Inr (Some owner)"
    using mem_records.store_spec[OF assms(1) l, of p ttl] assms(3) by (auto split: option.splits)
  with cache_run_owner[OF assms(4) _ assms(2) _ assms(5)] show ?thesis by blast
qed


text \<open>A Redis that fails every command stands for the client that an in-memory cache never calls.\<close>

definition no_redis :: "unit redis" where
  "no_redis =
     \<lparr>r_Exists = (\<lambda>_ _. Inl RedisNil), r_HGetAll = (\<lambda>_ _. Inl RedisNil),
      r_Del = (\<lambda>r _. (r, Some RedisNil)), r_Exec = (\<lambda>r _. (r, Some RedisNil)),
      r_HDel = (\<lambda>r _ _. (r, Some RedisNil)), r_HGet = (\<lambda>_ _ _. Inl RedisNil),
      r_Set = (\<lambda>r _ _ _. (r, Some RedisNil)), r_SetNX = (\<lambda>r _ _ _. (r, Some RedisNil)),
      r_Get = (\<lambda>_ _. Inl RedisNil), r_GetDel = (\<lambda>r _. (r, Inl RedisNil))\<rparr>"

definition no_aead :: aead where
  "no_aead = \<lparr>gcm_Seal = (\<lambda>_ _ p. p), gcm_Open = (\<lambda>_ _ c. Some c)\<rparr>"

definition empty_cache :: "unit Cache" where
  "empty_cache = NewCache None () None"

lemma empty_cache_typed: "typed_cache empty_cache"
  by (simp add: empty_cache_def NewCache_def typed_cache_def typed_memory_def)

definition sample_ops :: "cache_op list" where
  "sample_ops = [OpAddSession ''sess'' ''srv'' ''up'' 0, OpStoreTaskRecord ''ns/a'' ''t1'' ''eve'' 0,
                 OpDeleteTaskRecord ''ns/a'' ''t2'', OpDeleteSessions [''sess'']]"

lemma sample_ops_run:
  "\<exists>c'. cache_run R g trunc sample_ops c c'"
proof -
  have run: "\<exists>c'. cache_run R g trunc (op # ops) c c'"
    if "op_ok op" "\<And>c. \<exists>c'. cache_run R g trunc ops c c'" for op ops and c :: "'a Cache"
  proof -
    obtain c1 e where "run_op R g None trunc op c = (c1, e)" by (cases "run_op R g None trunc op c")
    with that show ?thesis by (meson cache_run.cache_step)
  qed
  show ?thesis
    unfolding sample_ops_def
    by (intro run) (auto simp: colon_free_def intro: cache_run.cache_nil)
qed

theorem ownership_is_permanent_witness:
  "\<exists>c1 c2. StoreTaskRecord no_redis empty_cache ''ns/a'' ''t1'' ''alice'' 0 =
             (c1, Inr (''alice'', True)) \<and>
           cache_run no_redis no_aead (\<lambda>_. None) sample_ops c1 c2 \<and>
           LookupTaskRecord no_redis c2 ''ns/a'' ''t1'' = Inr (Some ''alice'')"
proof -
  obtain c1 where s: "StoreTaskRecord no_redis empty_cache ''ns/a'' ''t1'' ''alice'' 0 =
      (c1, Inr (''alice'', True))"
    by (simp add: StoreTaskRecord_def empty_cache_def NewCache_def)
  obtain c2 where r: "cache_run no_redis no_aead (\<lambda>_. None) sample_ops c1 c2"
    using sample_ops_run by blast
  have "OpDeleteTaskRecord ''ns/a'' ''t1'' \<notin> set sample_ops" by (simp add: sample_ops_def)
  with ownership_is_permanent[OF empty_cache_typed _ s r] s r show ?thesis
    by (auto simp: colon_free_def)
qed


end
