(* ===== verification/Elicitation_Maps.thy ===== *)
theory Elicitation_Maps
  imports Session_Cache
begin

text \<open>
  The two maps behind elicitation: \<open>internal/idmap\<close> gives a backend's request id a gateway id, and
  \<open>internal/elicitation\<close> holds the short-lived, single-use entries of a token elicitation. Each has
  an in-memory and a Redis implementation.

  \<open>uuid.NewString()\<close> and \<open>time.Now()\<close> are arguments. What both in-memory maps promise at any one
  moment is the locale \<open>keyed_store\<close>.
\<close>

section \<open>Request identifiers\<close>

text \<open>The backend id is whatever the backend sent: a JSON value.\<close>

record IDEntry =
  ie_BackendID :: json
  ie_ServerName :: string
  ie_SessionID :: string
  ie_GatewaySessionID :: string

definition idmap_keyPrefix :: string where "idmap_keyPrefix = ''elicitation:''"
definition defaultEntryTTL :: duration where "defaultEntryTTL = Hour"

type_synonym id_memory = "IDEntry gomap"

definition idmap_Store ::
  "id_memory \<Rightarrow> string \<Rightarrow> json \<Rightarrow> string \<Rightarrow> string \<Rightarrow> string \<Rightarrow> id_memory \<times> string" where
  "idmap_Store m uuid backendID serverName sessionID gatewaySessionID =
     (m(uuid \<mapsto> \<lparr>ie_BackendID = backendID, ie_ServerName = serverName, ie_SessionID = sessionID,
                  ie_GatewaySessionID = gatewaySessionID\<rparr>), uuid)"

definition idmap_Lookup :: "id_memory \<Rightarrow> string \<Rightarrow> IDEntry option" where
  "idmap_Lookup m gatewayID = m gatewayID"

definition idmap_Remove :: "id_memory \<Rightarrow> string \<Rightarrow> id_memory" where
  "idmap_Remove m gatewayID = m(gatewayID := None)"

subsection \<open>In Redis\<close>

datatype map_error = StoreFailed redis_error | LookupFailed redis_error | BadEntry

record 'r redisMap =
  rm_client :: 'r
  rm_entryTTL :: duration

definition newRedisMapFromClient :: "'r \<Rightarrow> duration \<Rightarrow> 'r redisMap" where
  "newRedisMapFromClient client entryTTL =
     \<lparr>rm_client = client, rm_entryTTL = (if entryTTL \<le> 0 then defaultEntryTTL else entryTTL)\<rparr>"

text \<open>The struct tags of \<open>Entry\<close>.\<close>

definition encode_entry :: "IDEntry \<Rightarrow> string" where
  "encode_entry e =
     json_encode (JObj [(''backendID'', ie_BackendID e), (''serverName'', JStr (ie_ServerName e)),
                        (''sessionID'', JStr (ie_SessionID e)),
                        (''gatewaySessionID'', JStr (ie_GatewaySessionID e))])"

text \<open>
  A number is read as its literal and turned into an \<open>int64\<close> or a \<open>float64\<close>; the argument gives
  the literal that the converted number stands for.
\<close>

definition normalizeNumber :: "(string \<Rightarrow> string) \<Rightarrow> json \<Rightarrow> json" where
  "normalizeNumber num v = (case v of JNum n \<Rightarrow> JNum (num n) | _ \<Rightarrow> v)"

text \<open>Decoding into an \<open>any\<close> with \<open>UseNumber\<close> keeps literals.\<close>

definition decodeEntry :: "(string \<Rightarrow> string) \<Rightarrow> string \<Rightarrow> IDEntry option" where
  "decodeEntry num data =
     (case json_Decode data of
        None \<Rightarrow> None
      | Some j \<Rightarrow>
          (case object_members j of
             None \<Rightarrow> None
           | Some kvs \<Rightarrow>
               (case (string_field ''serverName'' kvs, string_field ''sessionID'' kvs,
                      string_field ''gatewaySessionID'' kvs,
                      to_any Some (last (JNull # field_values ''backendID'' kvs))) of
                  (Some srv, Some sess, Some gw, Some b) \<Rightarrow>
                    Some \<lparr>ie_BackendID = normalizeNumber num b, ie_ServerName = srv,
                          ie_SessionID = sess, ie_GatewaySessionID = gw\<rparr>
                | _ \<Rightarrow> None)))"

definition idmap_redis_Store ::
  "'r redis \<Rightarrow> 'r redisMap \<Rightarrow> string \<Rightarrow> json \<Rightarrow> string \<Rightarrow> string \<Rightarrow> string \<Rightarrow>
   'r redisMap \<times> (map_error + string)" where
  "idmap_redis_Store R m uuid backendID serverName sessionID gatewaySessionID =
     (let entry = \<lparr>ie_BackendID = backendID, ie_ServerName = serverName, ie_SessionID = sessionID,
                   ie_GatewaySessionID = gatewaySessionID\<rparr>
      in case r_Set R (rm_client m) (idmap_keyPrefix @ uuid) (encode_entry entry) (rm_entryTTL m) of
           (r, Some e) \<Rightarrow> (m\<lparr>rm_client := r\<rparr>, Inl (StoreFailed e))
         | (r, None) \<Rightarrow> (m\<lparr>rm_client := r\<rparr>, Inr uuid))"

definition idmap_redis_Lookup ::
  "'r redis \<Rightarrow> (string \<Rightarrow> string) \<Rightarrow> 'r redisMap \<Rightarrow> string \<Rightarrow> map_error + IDEntry option" where
  "idmap_redis_Lookup R num m gatewayID =
     (case r_Get R (rm_client m) (idmap_keyPrefix @ gatewayID) of
        Inl e \<Rightarrow> if e = RedisNil then Inr None else Inl (LookupFailed e)
      | Inr data \<Rightarrow>
          (case decodeEntry num data of
             None \<Rightarrow> Inl BadEntry
           | Some entry \<Rightarrow> Inr (Some entry)))"

definition idmap_redis_Remove :: "'r redis \<Rightarrow> 'r redisMap \<Rightarrow> string \<Rightarrow> 'r redisMap" where
  "idmap_redis_Remove R m gatewayID =
     m\<lparr>rm_client := fst (r_Del R (rm_client m) [idmap_keyPrefix @ gatewayID])\<rparr>"

section \<open>Token elicitations\<close>

record ElicitEntry =
  ee_SessionID :: string
  ee_ServerName :: string
  ee_Sub :: string

record elicit_memory =
  em_entries :: "(ElicitEntry \<times> time) gomap"
  em_entryTTL :: duration
  em_stopped :: bool

definition defaultElicitationTTL :: duration where "defaultElicitationTTL = 2 * Minute"

definition newElicitMap :: "duration \<Rightarrow> elicit_memory" where
  "newElicitMap entryTTL =
     \<lparr>em_entries = Map.empty,
      em_entryTTL = (if entryTTL \<le> 0 then defaultElicitationTTL else entryTTL), em_stopped = False\<rparr>"

text \<open>One tick of \<open>reapLoop\<close>: every expired entry is deleted.\<close>

definition reap :: "time \<Rightarrow> elicit_memory \<Rightarrow> elicit_memory" where
  "reap now m =
     (if em_stopped m then m
      else m\<lparr>em_entries := (\<lambda>i. case em_entries m i of
                                  None \<Rightarrow> None
                                | Some (e, expiresAt) \<Rightarrow> if now > expiresAt then None
                                                         else Some (e, expiresAt))\<rparr>)"

definition elicit_Close :: "elicit_memory \<Rightarrow> elicit_memory" where
  "elicit_Close m = m\<lparr>em_stopped := True\<rparr>"

definition elicit_Store ::
  "time \<Rightarrow> elicit_memory \<Rightarrow> string \<Rightarrow> string \<Rightarrow> string \<Rightarrow> string \<Rightarrow> elicit_memory \<times> string" where
  "elicit_Store now m uuid sessionID serverName sub =
     (m\<lparr>em_entries := (em_entries m)(uuid \<mapsto>
          (\<lparr>ee_SessionID = sessionID, ee_ServerName = serverName, ee_Sub = sub\<rparr>,
           now + em_entryTTL m))\<rparr>, uuid)"

definition elicit_Remove :: "elicit_memory \<Rightarrow> string \<Rightarrow> elicit_memory" where
  "elicit_Remove m i = m\<lparr>em_entries := (em_entries m)(i := None)\<rparr>"

definition elicit_Lookup ::
  "time \<Rightarrow> elicit_memory \<Rightarrow> string \<Rightarrow> elicit_memory \<times> ElicitEntry option" where
  "elicit_Lookup now m i =
     (case em_entries m i of
        None \<Rightarrow> (m, None)
      | Some (e, expiresAt) \<Rightarrow>
          if now > expiresAt then (elicit_Remove m i, None) else (m, Some e))"

definition elicit_Claim ::
  "time \<Rightarrow> elicit_memory \<Rightarrow> string \<Rightarrow> elicit_memory \<times> ElicitEntry option" where
  "elicit_Claim now m i =
     (case em_entries m i of
        None \<Rightarrow> (m, None)
      | Some (e, expiresAt) \<Rightarrow>
          (let m' = elicit_Remove m i
           in if now > expiresAt then (m', None) else (m', Some e)))"

subsection \<open>In Redis\<close>

definition tokenElicitationPrefix :: string where "tokenElicitationPrefix = ''tokenelicitation:''"

text \<open>\<open>sub\<close> is left out when it is empty.\<close>

definition encode_elicit :: "ElicitEntry \<Rightarrow> string" where
  "encode_elicit e =
     json_encode (JObj ([(''sessionID'', JStr (ee_SessionID e)), (''serverName'', JStr (ee_ServerName e))]
                        @ (if ee_Sub e = [] then [] else [(''sub'', JStr (ee_Sub e))])))"

definition decode_elicit :: "string \<Rightarrow> ElicitEntry option" where
  "decode_elicit data =
     (case json_Unmarshal data of
        None \<Rightarrow> None
      | Some j \<Rightarrow>
          (case object_members j of
             None \<Rightarrow> None
           | Some kvs \<Rightarrow>
               (case (string_field ''sessionID'' kvs, string_field ''serverName'' kvs,
                      string_field ''sub'' kvs) of
                  (Some sess, Some srv, Some sub) \<Rightarrow>
                    Some \<lparr>ee_SessionID = sess, ee_ServerName = srv, ee_Sub = sub\<rparr>
                | _ \<Rightarrow> None)))"

definition elicit_redis_Store ::
  "'r redis \<Rightarrow> 'r redisMap \<Rightarrow> string \<Rightarrow> string \<Rightarrow> string \<Rightarrow> string \<Rightarrow> 'r redisMap \<times> (map_error + string)"
where
  "elicit_redis_Store R m uuid sessionID serverName sub =
     (case r_Set R (rm_client m) (tokenElicitationPrefix @ uuid)
             (encode_elicit \<lparr>ee_SessionID = sessionID, ee_ServerName = serverName, ee_Sub = sub\<rparr>)
             (rm_entryTTL m) of
        (r, Some e) \<Rightarrow> (m\<lparr>rm_client := r\<rparr>, Inl (StoreFailed e))
      | (r, None) \<Rightarrow> (m\<lparr>rm_client := r\<rparr>, Inr uuid))"

definition found_elicit :: "redis_error + string \<Rightarrow> map_error + ElicitEntry option" where
  "found_elicit res =
     (case res of
        Inl e \<Rightarrow> if e = RedisNil then Inr None else Inl (LookupFailed e)
      | Inr data \<Rightarrow>
          (case decode_elicit data of
             None \<Rightarrow> Inl BadEntry
           | Some entry \<Rightarrow> Inr (Some entry)))"

definition elicit_redis_Lookup ::
  "'r redis \<Rightarrow> 'r redisMap \<Rightarrow> string \<Rightarrow> map_error + ElicitEntry option" where
  "elicit_redis_Lookup R m i = found_elicit (r_Get R (rm_client m) (tokenElicitationPrefix @ i))"

definition elicit_redis_Claim ::
  "'r redis \<Rightarrow> 'r redisMap \<Rightarrow> string \<Rightarrow> 'r redisMap \<times> (map_error + ElicitEntry option)" where
  "elicit_redis_Claim R m i =
     (case r_GetDel R (rm_client m) (tokenElicitationPrefix @ i) of
        (r, res) \<Rightarrow> (m\<lparr>rm_client := r\<rparr>, found_elicit res))"

definition elicit_redis_Remove :: "'r redis \<Rightarrow> 'r redisMap \<Rightarrow> string \<Rightarrow> 'r redisMap" where
  "elicit_redis_Remove R m i =
     m\<lparr>rm_client := fst (r_Del R (rm_client m) [tokenElicitationPrefix @ i])\<rparr>"

section \<open>Operations as steps\<close>

datatype elicit_op =
    EStore time string string string string
  | ELookup time string
  | EClaim time string
  | ERemove string
  | EReap time
  | EClose

fun elicit_step :: "elicit_op \<Rightarrow> elicit_memory \<Rightarrow> elicit_memory" where
  "elicit_step (EStore now uuid sess srv sub) m = fst (elicit_Store now m uuid sess srv sub)"
| "elicit_step (ELookup now i) m = fst (elicit_Lookup now m i)"
| "elicit_step (EClaim now i) m = fst (elicit_Claim now m i)"
| "elicit_step (ERemove i) m = elicit_Remove m i"
| "elicit_step (EReap now) m = reap now m"
| "elicit_step EClose m = elicit_Close m"

text \<open>An operation that does not issue the identifier again.\<close>

fun not_issuing :: "string \<Rightarrow> elicit_op \<Rightarrow> bool" where
  "not_issuing i (EStore now uuid sess srv sub) = (uuid \<noteq> i)"
| "not_issuing i _ = True"

section \<open>What both maps promise\<close>

locale keyed_store =
  fixes inv :: "'s \<Rightarrow> bool"
    and store :: "'s \<Rightarrow> string \<Rightarrow> 'e \<Rightarrow> 's"
    and lookup :: "'s \<Rightarrow> string \<Rightarrow> 'e option"
    and remove :: "'s \<Rightarrow> string \<Rightarrow> 's"
  assumes inv_store: "inv s \<Longrightarrow> inv (store s i e)"
    and inv_remove: "inv s \<Longrightarrow> inv (remove s i)"
    and lookup_store: "inv s \<Longrightarrow> lookup (store s i e) j = (if j = i then Some e else lookup s j)"
    and lookup_remove: "inv s \<Longrightarrow> lookup (remove s i) j = (if j = i then None else lookup s j)"
begin

lemma lookup_stores:
  "inv s \<Longrightarrow> distinct (map fst ies) \<Longrightarrow> (i, e) \<in> set ies \<Longrightarrow>
   lookup (foldl (\<lambda>s (i, e). store s i e) s ies) i = Some e"
proof (induction ies rule: rev_induct)
  case (snoc ie ies)
  have inv: "inv (foldl (\<lambda>s (i, e). store s i e) s ies)" for ies
    by (induction ies rule: rev_induct) (auto simp: snoc.prems(1) inv_store)
  from snoc show ?case
    by (cases ie) (force simp: lookup_store[OF inv])
qed simp

lemma remove_store_fresh:
  "inv s \<Longrightarrow> lookup s i = None \<Longrightarrow> lookup (remove (store s i e) i) j = lookup s j"
  by (simp add: lookup_remove lookup_store inv_store)

end

definition id_put :: "id_memory \<Rightarrow> string \<Rightarrow> IDEntry \<Rightarrow> id_memory" where
  "id_put m i e =
     fst (idmap_Store m i (ie_BackendID e) (ie_ServerName e) (ie_SessionID e) (ie_GatewaySessionID e))"

definition elicit_put :: "time \<Rightarrow> elicit_memory \<Rightarrow> string \<Rightarrow> ElicitEntry \<Rightarrow> elicit_memory" where
  "elicit_put now m i e = fst (elicit_Store now m i (ee_SessionID e) (ee_ServerName e) (ee_Sub e))"

interpretation ids: keyed_store "\<lambda>_. True" id_put idmap_Lookup idmap_Remove
  by unfold_locales (auto simp: id_put_def idmap_Store_def idmap_Lookup_def idmap_Remove_def)

interpretation elicitations: keyed_store "\<lambda>m. 0 \<le> em_entryTTL m" "elicit_put now"
    "\<lambda>m i. snd (elicit_Lookup now m i)" elicit_Remove for now
  by unfold_locales
     (auto simp: elicit_put_def elicit_Store_def elicit_Lookup_def elicit_Remove_def split: option.splits)

section \<open>Facts\<close>

lemma absent_step:
  "em_entries m i = None \<Longrightarrow> not_issuing i op \<Longrightarrow> em_entries (elicit_step op m) i = None"
  by (cases op) (auto simp: elicit_Store_def elicit_Lookup_def elicit_Claim_def elicit_Remove_def
      reap_def elicit_Close_def Let_def split: option.splits)

lemma absent_steps:
  "em_entries m i = None \<Longrightarrow> list_all (not_issuing i) ops \<Longrightarrow>
   em_entries (foldl (\<lambda>m op. elicit_step op m) m ops) i = None"
  by (induction ops arbitrary: m) (auto simp: absent_step)

lemma claimed_absent: "em_entries (fst (elicit_Claim now m i)) i = None"
  by (auto simp: elicit_Claim_def elicit_Remove_def Let_def split: option.splits)

lemma absent_claim: "em_entries m i = None \<Longrightarrow> elicit_Claim now m i = (m, None)"
  by (simp add: elicit_Claim_def)

text \<open>An entry keeps its expiry: it is there until its time is over, whatever other ids do.\<close>

fun leaves :: "string \<Rightarrow> elicit_op \<Rightarrow> bool" where
  "leaves i (EStore now uuid sess srv sub) = (uuid \<noteq> i)"
| "leaves i (EClaim now j) = (j \<noteq> i)"
| "leaves i (ERemove j) = (j \<noteq> i)"
| "leaves i _ = True"

fun op_time :: "elicit_op \<Rightarrow> time option" where
  "op_time (ELookup now i) = Some now"
| "op_time (EReap now) = Some now"
| "op_time _ = None"

lemma present_step:
  "em_entries m i = Some (e, x) \<Longrightarrow> leaves i op \<Longrightarrow> (\<And>t. op_time op = Some t \<Longrightarrow> t \<le> x) \<Longrightarrow>
   em_entries (elicit_step op m) i = Some (e, x)"
  by (cases op) (auto simp: elicit_Store_def elicit_Lookup_def elicit_Claim_def elicit_Remove_def
      reap_def elicit_Close_def Let_def split: option.splits)

lemma present_steps:
  "em_entries m i = Some (e, x) \<Longrightarrow> list_all (leaves i) ops \<Longrightarrow>
   (\<forall>op \<in> set ops. \<forall>t. op_time op = Some t \<longrightarrow> t \<le> x) \<Longrightarrow>
   em_entries (foldl (\<lambda>m op. elicit_step op m) m ops) i = Some (e, x)"
  by (induction ops arbitrary: m) (auto simp: present_step)

text \<open>A backend id as the protocol allows it: a string or a number that survives the conversion.\<close>

definition plain_id :: "(string \<Rightarrow> string) \<Rightarrow> json \<Rightarrow> bool" where
  "plain_id num v =
     (case v of JStr s \<Rightarrow> ascii s | JNum n \<Rightarrow> number_literal n \<and> num n = n | _ \<Rightarrow> False)"

lemma plain_id_facts:
  assumes "plain_id num v"
  shows "json_plain v" "json_depth v = 0" "normalizeNumber num v = v" "to_any Some v = Some v"
  using assms by (auto simp: plain_id_def normalizeNumber_def split: json.splits)

lemma decodeEntry_encode:
  assumes "plain_id num (ie_BackendID e)" and "ascii (ie_ServerName e)" and "ascii (ie_SessionID e)"
    and "ascii (ie_GatewaySessionID e)"
  shows "decodeEntry num (encode_entry e) = Some e"
proof -
  note b = plain_id_facts[OF assms(1)]
  let ?j = "JObj [(''backendID'', ie_BackendID e), (''serverName'', JStr (ie_ServerName e)),
      (''sessionID'', JStr (ie_SessionID e)), (''gatewaySessionID'', JStr (ie_GatewaySessionID e))]"
  have "json_Decode (json_encode ?j) = Some ?j"
    using b(1,2) assms(2-4) by (intro json_Decode_encode) (auto simp: maxNestingDepth_def)
  moreover have "to_any Some (last (JNull # field_values ''backendID'' (case ?j of JObj kvs \<Rightarrow> kvs)))
      = Some (ie_BackendID e)"
    using b(4) by (simp add: field_values_def lower_char_def)
  ultimately show ?thesis
    using b(3) by (simp add: decodeEntry_def encode_entry_def object_members_def string_field_def
        field_values_def lower_char_def)
qed

section \<open>Properties\<close>

text \<open>
  C7: an elicitation can be claimed exactly once. As long as nobody else claims or removes it and
  its time is not over, a claim returns the entry that was stored, whatever else happens to the
  map; and after a claim, in any sequence of further operations that does not issue the id again,
  no lookup and no claim finds it.
\<close>

theorem elicitation_claimed_exactly_once:
  assumes m1: "elicit_Store t0 m i sess srv sub = (m1, i)"
    and before: "list_all (leaves i) ops"
      "\<forall>op \<in> set ops. \<forall>t. op_time op = Some t \<longrightarrow> t \<le> t0 + em_entryTTL m"
    and m2: "m2 = foldl (\<lambda>m op. elicit_step op m) m1 ops"
    and time: "now \<le> t0 + em_entryTTL m"
    and after: "list_all (not_issuing i) ops'"
  shows "\<exists>m3. elicit_Claim now m2 i =
           (m3, Some \<lparr>ee_SessionID = sess, ee_ServerName = srv, ee_Sub = sub\<rparr>) \<and>
         snd (elicit_Claim later (foldl (\<lambda>m op. elicit_step op m) m3 ops') i) = None \<and>
         snd (elicit_Lookup later (foldl (\<lambda>m op. elicit_step op m) m3 ops') i) = None"
proof -
  let ?e = "\<lparr>ee_SessionID = sess, ee_ServerName = srv, ee_Sub = sub\<rparr>"
  have "em_entries m1 i = Some (?e, t0 + em_entryTTL m)"
    using m1 by (auto simp: elicit_Store_def)
  then have "em_entries m2 i = Some (?e, t0 + em_entryTTL m)"
    unfolding m2 using before by (rule present_steps)
  then obtain m3 where c: "elicit_Claim now m2 i = (m3, Some ?e)"
    using time by (simp add: elicit_Claim_def Let_def)
  then have "em_entries m3 i = None" using claimed_absent[of now m2 i] by simp
  from absent_steps[OF this after] c show ?thesis
    by (simp add: absent_claim elicit_Lookup_def)
qed

theorem elicitation_claimed_exactly_once_witness:
  "\<exists>m3. elicit_Claim 5 (foldl (\<lambda>m op. elicit_step op m)
            (fst (elicit_Store 0 (newElicitMap 10) ''id'' ''sess'' ''srv'' ''sub''))
            [ELookup 3 ''id'', EReap 4, EStore 4 ''other'' [] [] []]) ''id'' =
          (m3, Some \<lparr>ee_SessionID = ''sess'', ee_ServerName = ''srv'', ee_Sub = ''sub''\<rparr>) \<and>
        snd (elicit_Claim 6 (foldl (\<lambda>m op. elicit_step op m) m3 [ERemove ''other'']) ''id'') = None"
  using elicitation_claimed_exactly_once[of 0 "newElicitMap 10" "''id''" "''sess''" "''srv''" "''sub''"
      "fst (elicit_Store 0 (newElicitMap 10) ''id'' ''sess'' ''srv'' ''sub'')"
      "[ELookup 3 ''id'', EReap 4, EStore 4 ''other'' [] [] []]" _ 5 "[ERemove ''other'']" 6, OF _ _ _ refl]
  by (auto simp: elicit_Store_def newElicitMap_def)


text \<open>A Redis that keeps one value per key, to run the map on.\<close>

definition string_redis :: "string gomap redis" where
  "string_redis =
     \<lparr>r_Exists = (\<lambda>r k. Inr (if r k = None then 0 else 1)), r_HGetAll = (\<lambda>_ _. Inl RedisNil),
      r_Del = (\<lambda>r ks. (\<lambda>k. if k \<in> set ks then None else r k, None)),
      r_Exec = (\<lambda>r _. (r, Some RedisNil)),
      r_HDel = (\<lambda>r _ _. (r, Some RedisNil)), r_HGet = (\<lambda>_ _ _. Inl RedisNil),
      r_Set = (\<lambda>r k v _. (r(k \<mapsto> v), None)),
      r_SetNX = (\<lambda>r k v _. case r k of None \<Rightarrow> (r(k \<mapsto> v), None) | Some _ \<Rightarrow> (r, Some RedisNil)),
      r_Get = (\<lambda>r k. case r k of None \<Rightarrow> Inl RedisNil | Some v \<Rightarrow> Inr v),
      r_GetDel = (\<lambda>r k. (r(k := None), case r k of None \<Rightarrow> Inl RedisNil | Some v \<Rightarrow> Inr v))\<rparr>"


end
