(* ===== verification/MCP_Request.thy ===== *)
theory MCP_Request
  imports Go_Json
begin

text \<open>
  The MCP request of \<open>internal/routing/mcp_request.go\<close>: the JSON-RPC message, its classification,
  the rewriting of tool and prompt names, and the messages that the router answers itself.

  An \<open>any\<close> is a \<^typ>\<open>json\<close> value, nil is \<open>JNull\<close>; a \<open>map[string]any\<close> is the list of its
  members sorted by key, as the encoder writes it, and None is the nil map.
\<close>

section \<open>Names\<close>

definition MethodToolCall :: string where "MethodToolCall = ''tools/call''"
definition MethodPromptGet :: string where "MethodPromptGet = ''prompts/get''"
definition MethodInitialize :: string where "MethodInitialize = ''initialize''"

definition MCPServerNameHeader :: string where "MCPServerNameHeader = ''x-mcp-servername''"
definition ToolAnnotationsHeader :: string where "ToolAnnotationsHeader = ''x-mcp-annotation-hints''"
definition ToolHeader :: string where "ToolHeader = ''x-mcp-toolname''"
definition PromptHeader :: string where "PromptHeader = ''x-mcp-promptname''"
definition MethodHeader :: string where "MethodHeader = ''x-mcp-method''"
definition SessionHeader :: string where "SessionHeader = ''mcp-session-id''"
definition AuthorityHeader :: string where "AuthorityHeader = '':authority''"
definition AuthorizationHeader :: string where "AuthorizationHeader = ''authorization''"
definition RoutingKey :: string where "RoutingKey = ''router-key''"
definition MCPAuthorizedHeader :: string where "MCPAuthorizedHeader = ''x-mcp-authorized''"
definition MCPVirtualServerHeader :: string where "MCPVirtualServerHeader = ''x-mcp-virtualserver''"
definition MCPVerifiedSubHeader :: string where "MCPVerifiedSubHeader = ''x-mcp-verified-sub''"
definition ElicitationRequestIDHeader :: string where
  "ElicitationRequestIDHeader = ''x-mcp-request-id''"
definition ElicitationIDHeader :: string where "ElicitationIDHeader = ''x-mcp-elicitation-id''"
definition InitHostHeader :: string where "InitHostHeader = ''mcp-init-host''"

definition InternalOnlyHeaders :: "string list" where
  "InternalOnlyHeaders = [MCPAuthorizedHeader, MCPVirtualServerHeader, MCPVerifiedSubHeader]"

lemmas header_names =
  MCPServerNameHeader_def ToolAnnotationsHeader_def ToolHeader_def PromptHeader_def MethodHeader_def
  SessionHeader_def AuthorityHeader_def AuthorizationHeader_def RoutingKey_def MCPAuthorizedHeader_def
  MCPVirtualServerHeader_def MCPVerifiedSubHeader_def ElicitationRequestIDHeader_def
  ElicitationIDHeader_def InitHostHeader_def

section \<open>The request\<close>

record MCPRequest =
  mr_ID :: json
  mr_JSONRPC :: string
  mr_Method :: string
  mr_Params :: "(string \<times> json) list option"
  mr_Result :: "(string \<times> json) list option"
  mr_Headers :: "string gomap"
  mr_SessionID :: string
  mr_ServerName :: string
  mr_BackendSessionID :: string
  mr_ClientElicitation :: bool

definition empty_MCPRequest :: MCPRequest where
  "empty_MCPRequest =
     \<lparr>mr_ID = JNull, mr_JSONRPC = [], mr_Method = [], mr_Params = None, mr_Result = None,
      mr_Headers = Map.empty, mr_SessionID = [], mr_ServerName = [], mr_BackendSessionID = [],
      mr_ClientElicitation = False\<rparr>"

text \<open>Reading a string from a Go map: a missing key is the empty string.\<close>

definition get_or_empty :: "string gomap \<Rightarrow> string \<Rightarrow> string" where
  "get_or_empty m k = (case m k of None \<Rightarrow> [] | Some v \<Rightarrow> v)"

definition GetSingleHeaderValue :: "MCPRequest \<Rightarrow> string \<Rightarrow> string" where
  "GetSingleHeaderValue mr key = get_or_empty (mr_Headers mr) key"

definition GetSessionID :: "MCPRequest \<Rightarrow> string" where
  "GetSessionID mr =
     (if mr_SessionID mr = [] then get_or_empty (mr_Headers mr) SessionHeader else mr_SessionID mr)"

definition param :: "(string \<times> json) list option \<Rightarrow> string \<Rightarrow> json option" where
  "param m k = (case m of None \<Rightarrow> None | Some kvs \<Rightarrow> map_of kvs k)"

definition IsNotificationRequest :: "MCPRequest \<Rightarrow> bool" where
  "IsNotificationRequest mr = HasPrefix (mr_Method mr) ''notifications''"

definition IsToolCall :: "MCPRequest \<Rightarrow> bool" where
  "IsToolCall mr = (mr_Method mr = MethodToolCall)"

definition IsInitializeRequest :: "MCPRequest \<Rightarrow> bool" where
  "IsInitializeRequest mr =
     (mr_Method mr = ''initialize'' \<or> mr_Method mr = ''notifications/initialized'')"

definition ClientSupportsElicitation :: "MCPRequest \<Rightarrow> bool" where
  "ClientSupportsElicitation mr =
     (if mr_Method mr \<noteq> MethodInitialize \<or> mr_Params mr = None then False
      else
        (case param (mr_Params mr) ''capabilities'' of
           Some (JObj caps) \<Rightarrow> map_of caps ''elicitation'' \<noteq> None
         | _ \<Rightarrow> False))"

definition IsElicitationResponse :: "MCPRequest \<Rightarrow> bool" where
  "IsElicitationResponse mr =
     (if mr_Method mr \<noteq> [] \<or> mr_Result mr = None then False
      else
        (case param (mr_Result mr) ''action'' of
           Some (JStr a) \<Rightarrow> a = ''accept'' \<or> a = ''decline'' \<or> a = ''cancel''
         | _ \<Rightarrow> False))"

datatype validation_error = JSONInvalid | VersionInvalid | NoMethod | NoID

text \<open>The receiver may be nil. The result None is \<open>(true, nil)\<close>.\<close>

definition MCPRequest_Validate :: "MCPRequest option \<Rightarrow> validation_error option" where
  "MCPRequest_Validate req =
     (case req of
        None \<Rightarrow> Some JSONInvalid
      | Some mr \<Rightarrow>
          if mr_JSONRPC mr \<noteq> ''2.0'' then Some VersionInvalid
          else if mr_Method mr = [] \<and> \<not> IsElicitationResponse mr then Some NoMethod
          else if mr_ID mr = JNull \<and> \<not> IsNotificationRequest mr then Some NoID
          else None)"

definition ToolName :: "MCPRequest \<Rightarrow> string" where
  "ToolName mr =
     (if \<not> IsToolCall mr then []
      else (case param (mr_Params mr) ''name'' of Some (JStr t) \<Rightarrow> t | _ \<Rightarrow> []))"

definition IsPromptGet :: "MCPRequest \<Rightarrow> bool" where
  "IsPromptGet mr = (mr_Method mr = MethodPromptGet)"

definition PromptName :: "MCPRequest \<Rightarrow> string" where
  "PromptName mr =
     (if \<not> IsPromptGet mr then []
      else (case param (mr_Params mr) ''name'' of Some (JStr t) \<Rightarrow> t | _ \<Rightarrow> []))"

definition ReWriteToolName :: "string \<Rightarrow> MCPRequest \<Rightarrow> MCPRequest" where
  "ReWriteToolName actualTool mr =
     mr\<lparr>mr_Params := Some (insert_key ''name'' (JStr actualTool)
                             (case mr_Params mr of None \<Rightarrow> [] | Some ps \<Rightarrow> ps))\<rparr>"

definition ReWritePromptName :: "string \<Rightarrow> MCPRequest \<Rightarrow> MCPRequest" where
  "ReWritePromptName actualPrompt mr =
     mr\<lparr>mr_Params := Some (insert_key ''name'' (JStr actualPrompt)
                             (case mr_Params mr of None \<Rightarrow> [] | Some ps \<Rightarrow> ps))\<rparr>"

section \<open>JSON\<close>

text \<open>\<open>json.Marshal\<close> of the request; its three optional fields are left out when empty.\<close>

definition omit_empty :: "string \<Rightarrow> (string \<times> json) list option \<Rightarrow> (string \<times> json) list" where
  "omit_empty k m = (case m of Some (kv # kvs) \<Rightarrow> [(k, JObj (kv # kvs))] | _ \<Rightarrow> [])"

definition request_json :: "MCPRequest \<Rightarrow> json" where
  "request_json mr =
     JObj ([(''id'', mr_ID mr), (''jsonrpc'', JStr (mr_JSONRPC mr))]
           @ (if mr_Method mr = [] then [] else [(''method'', JStr (mr_Method mr))])
           @ omit_empty ''params'' (mr_Params mr) @ omit_empty ''result'' (mr_Result mr))"

definition ToBytes :: "MCPRequest \<Rightarrow> string" where
  "ToBytes mr = json_encode (request_json mr)"

text \<open>
  \<open>json.Unmarshal\<close> into a new request. A map field keeps the members it already has when its key
  comes twice; null makes it nil.
\<close>

fun fill_map ::
  "(string \<Rightarrow> string option) \<Rightarrow> (string \<times> json) list option \<Rightarrow> json list \<Rightarrow>
   (string \<times> json) list option option" where
  "fill_map f acc [] = Some acc"
| "fill_map f acc (JObj kvs # vs) =
     (case to_any_map f kvs (case acc of None \<Rightarrow> [] | Some m \<Rightarrow> m) of
        None \<Rightarrow> None
      | Some m \<Rightarrow> fill_map f (Some m) vs)"
| "fill_map f acc (JNull # vs) = fill_map f None vs"
| "fill_map f acc (_ # vs) = None"

definition decode_request :: "(string \<Rightarrow> string option) \<Rightarrow> string \<Rightarrow> MCPRequest option" where
  "decode_request f64 body =
     (case json_Unmarshal body of
        Some (JObj kvs) \<Rightarrow>
          (case (to_any_list f64 (field_values ''id'' kvs), string_field ''jsonrpc'' kvs,
                 string_field ''method'' kvs, fill_map f64 None (field_values ''params'' kvs),
                 fill_map f64 None (field_values ''result'' kvs)) of
             (Some ids, Some v, Some m, Some ps, Some r) \<Rightarrow>
               Some (empty_MCPRequest\<lparr>mr_ID := last (JNull # ids), mr_JSONRPC := v, mr_Method := m,
                                      mr_Params := ps, mr_Result := r\<rparr>)
           | _ \<Rightarrow> None)
      | Some JNull \<Rightarrow> Some empty_MCPRequest
      | _ \<Rightarrow> None)"

section \<open>Answers of the router\<close>

text \<open>\<open>strconv.Quote\<close> of an ASCII message.\<close>

definition quote_char :: "char \<Rightarrow> string" where
  "quote_char c =
     (let x = byte_of c
      in if c = quote \<or> c = backslash then [backslash, c]
         else if x = 7 then backslash # ''a''
         else if x = 8 then backslash # ''b''
         else if x = 12 then backslash # ''f''
         else if x = 10 then backslash # ''n''
         else if x = 13 then backslash # ''r''
         else if x = 9 then backslash # ''t''
         else if x = 11 then backslash # ''v''
         else if x < 0x20 \<or> x = 0x7F
         then [backslash] @ ''x'' @ [hex_digit (x div 16), hex_digit (x mod 16)]
         else [c])"

definition strconv_Quote :: "string \<Rightarrow> string" where
  "strconv_Quote s = quote # concat (map quote_char s) @ [quote]"

definition newline :: char where "newline = CHR 0x0A"

definition quoted :: "string \<Rightarrow> string" where
  "quoted s = quote # s @ [quote]"

definition SseJSONRPC :: "json \<Rightarrow> string \<Rightarrow> string" where
  "SseJSONRPC requestID body =
     [newline] @ ''event: message'' @ [newline] @ ''data: {'' @ quoted ''jsonrpc'' @ '':'' @ quoted ''2.0'' @ '',''
     @ quoted ''id'' @ '':'' @ json_encode requestID @ body @ [newline, newline]"

definition BuildSSEToolError :: "json \<Rightarrow> string \<Rightarrow> string" where
  "BuildSSEToolError requestID message =
     SseJSONRPC requestID
       ('','' @ quoted ''result'' @ '':{'' @ quoted ''content'' @ '':[{'' @ quoted ''type'' @ '':'' @ quoted ''text'' @ '',''
        @ quoted ''text'' @ '':'' @ strconv_Quote message @ ''}],'' @ quoted ''isError'' @ '':true}}'')"

section \<open>Facts\<close>

definition sorted_map :: "(string \<times> json) list \<Rightarrow> bool" where
  "sorted_map kvs \<longleftrightarrow> sorted (map fst kvs) \<and> distinct (map fst kvs)"

lemma map_of_insert_key: "sorted_map kvs \<Longrightarrow> map_of (insert_key k v kvs) = (map_of kvs)(k \<mapsto> v)"
proof (induction kvs)
  case (Cons kv kvs)
  obtain k' v' where kv: "kv = (k', v')" by (cases kv)
  have "k \<notin> fst ` set kvs" if "k < k'"
    using Cons.prems that kv by (auto simp: sorted_map_def)
  with Cons kv show ?case
    by (auto simp: sorted_map_def fun_eq_iff dest: weak_map_of_SomeI split: if_splits)
qed simp

lemma set_insert_key: "fst ` set (insert_key k v kvs) = insert k (fst ` set kvs)"
  by (induction k v kvs rule: insert_key.induct) auto

lemma sorted_insert_key: "sorted_map kvs \<Longrightarrow> sorted_map (insert_key k v kvs)"
proof (induction k v kvs rule: insert_key.induct)
  case (2 k v k' v' kvs)
  then show ?case
    using set_insert_key[of k v kvs]
    by (auto simp: sorted_map_def simp flip: set_map)
qed (simp add: sorted_map_def)

lemma to_any_map_sorted: "sorted_map acc \<Longrightarrow> to_any_map f kvs acc = Some m \<Longrightarrow> sorted_map m"
proof (induction kvs arbitrary: acc)
  case (Cons kv kvs)
  then show ?case by (cases kv) (auto split: option.splits dest: sorted_insert_key)
qed simp

lemma fill_map_sorted:
  "(\<And>m. acc = Some m \<Longrightarrow> sorted_map m) \<Longrightarrow> fill_map f acc vs = Some (Some m) \<Longrightarrow> sorted_map m"
proof (induction f acc vs rule: fill_map.induct)
  case (2 f acc kvs vs)
  let ?acc = "case acc of None \<Rightarrow> [] | Some m \<Rightarrow> m"
  have "sorted_map ?acc" using 2(2) by (auto simp: sorted_map_def[of "[]"] split: option.splits)
  from to_any_map_sorted[OF this, of f kvs] 2(1,3) show ?case by (auto split: option.splits)
qed auto

lemma ToolName_rewrite:
  assumes "IsToolCall mr" and "\<And>ps. mr_Params mr = Some ps \<Longrightarrow> sorted_map ps"
  shows "ToolName (ReWriteToolName t mr) = t"
  using assms
  by (auto simp: ToolName_def ReWriteToolName_def IsToolCall_def param_def map_of_insert_key
      split: option.splits)

subsection \<open>Re-encoding a request\<close>

text \<open>A value as decoding into an \<open>any\<close> leaves it.\<close>

fun any_value :: "(string \<Rightarrow> string option) \<Rightarrow> json \<Rightarrow> bool" where
  "any_value f (JNum n) = (f n = Some n)"
| "any_value f (JArr vs) = list_all (any_value f) vs"
| "any_value f (JObj kvs) = (sorted_map kvs \<and> list_all (\<lambda>kv. any_value f (snd kv)) kvs)"
| "any_value f _ = True"

lemma insert_key_last: "\<forall>k' \<in> fst ` set acc. k' < k \<Longrightarrow> insert_key k v acc = acc @ [(k, v)]"
  by (induction acc) (auto dest: less_imp_not_eq less_imp_triv)

lemma sorted_map_Cons:
  "sorted_map ((k, v) # kvs) \<longleftrightarrow> (\<forall>k' \<in> fst ` set kvs. k < k') \<and> sorted_map kvs"
  by (auto simp: sorted_map_def less_le)

lemma to_any_id:
  "any_value f v \<Longrightarrow> to_any f v = Some v"
  "list_all (any_value f) vs \<Longrightarrow> to_any_list f vs = Some vs"
  "sorted_map kvs \<Longrightarrow> list_all (\<lambda>kv. any_value f (snd kv)) kvs \<Longrightarrow>
   \<forall>k \<in> fst ` set acc. \<forall>k' \<in> fst ` set kvs. k < k' \<Longrightarrow> to_any_map f kvs acc = Some (acc @ kvs)"
proof (induction f v and f vs and f kvs acc rule: to_any_to_any_list_to_any_map.induct)
  case (10 f k v kvs acc)
  then have "to_any f v = Some v" by simp
  moreover have "insert_key k v acc = acc @ [(k, v)]" using 10 by (intro insert_key_last) auto
  moreover have "to_any_map f kvs (acc @ [(k, v)]) = Some ((acc @ [(k, v)]) @ kvs)"
    using 10 calculation by (auto simp: sorted_map_Cons)
  ultimately show ?case by simp
qed auto

definition members_ok :: "(string \<Rightarrow> string option) \<Rightarrow> (string \<times> json) list option \<Rightarrow> bool" where
  "members_ok f m =
     (case m of
        None \<Rightarrow> True
      | Some kvs \<Rightarrow> kvs \<noteq> [] \<and> any_value f (JObj kvs) \<and> json_plain (JObj kvs) \<and>
                     json_depth (JObj kvs) < maxNestingDepth)"

definition request_ok :: "(string \<Rightarrow> string option) \<Rightarrow> MCPRequest \<Rightarrow> bool" where
  "request_ok f mr \<longleftrightarrow>
     any_value f (mr_ID mr) \<and> json_plain (mr_ID mr) \<and> json_depth (mr_ID mr) < maxNestingDepth \<and>
     ascii (mr_JSONRPC mr) \<and> ascii (mr_Method mr) \<and>
     members_ok f (mr_Params mr) \<and> members_ok f (mr_Result mr)"

lemma fill_map_omit:
  assumes "members_ok f m"
  shows "fill_map f None (map snd (omit_empty k m)) = Some m"
  using assms to_any_id(3)[of "case m of Some kvs \<Rightarrow> kvs | None \<Rightarrow> []" f "[]"]
  by (cases m) (auto simp: members_ok_def omit_empty_def sorted_map_def[of "[]"] split: list.splits)

lemma field_values_append [simp]:
  "field_values n (xs @ ys) = field_values n xs @ field_values n ys"
  by (simp add: field_values_def)

lemma field_values_Cons [simp]:
  "field_values n ((k, v) # kvs) =
     (if fold_name k = fold_name n then v # field_values n kvs else field_values n kvs)"
  "field_values n [] = []"
  by (simp_all add: field_values_def)

lemma field_values_omit:
  "field_values n (omit_empty k m) = (if fold_name k = fold_name n then map snd (omit_empty k m) else [])"
  by (auto simp: field_values_def omit_empty_def split: option.splits list.splits)

lemma json_plain_members: "members_ok f m \<Longrightarrow> ascii k \<Longrightarrow>
    list_all (\<lambda>kv. ascii (fst kv) \<and> json_plain (snd kv)) (omit_empty k m)"
  by (auto simp: members_ok_def omit_empty_def split: option.splits list.splits)

lemma depth_members: "members_ok f m \<Longrightarrow> kv \<in> set (omit_empty k m) \<Longrightarrow>
    json_depth (snd kv) < maxNestingDepth"
  by (auto simp: members_ok_def omit_empty_def split: option.splits list.splits)

lemma foldr_max_less:
  "0 < n \<Longrightarrow> \<forall>x \<in> set xs. g x < n \<Longrightarrow> foldr (\<lambda>x. max (g x)) xs 0 < (n :: nat)"
  by (induction xs) auto

lemma request_json_decodes:
  assumes "request_ok f mr"
  shows "json_Unmarshal (ToBytes mr) = Some (request_json mr)"
proof -
  have "json_plain (request_json mr)"
    using assms json_plain_members[of f "mr_Params mr" "''params''"]
      json_plain_members[of f "mr_Result mr" "''result''"]
    by (auto simp: request_ok_def request_json_def)
  moreover have "json_depth (request_json mr) \<le> maxNestingDepth"
  proof -
    obtain kvs where kvs: "request_json mr = JObj kvs" by (simp add: request_json_def)
    have "\<forall>kv \<in> set kvs. json_depth (snd kv) < maxNestingDepth"
      using kvs assms depth_members[of f "mr_Params mr" _ "''params''"]
        depth_members[of f "mr_Result mr" _ "''result''"]
      by (auto simp: request_json_def request_ok_def maxNestingDepth_def split: if_splits)
    from foldr_max_less[OF _ this] show ?thesis
      unfolding kvs by (simp add: maxNestingDepth_def Suc_le_eq)
  qed
  ultimately show ?thesis unfolding ToBytes_def by (rule json_Unmarshal_encode)
qed

lemma decode_request_ToBytes:
  assumes "request_ok f mr"
  shows "decode_request f (ToBytes mr) =
           Some (empty_MCPRequest\<lparr>mr_ID := mr_ID mr, mr_JSONRPC := mr_JSONRPC mr,
                  mr_Method := mr_Method mr, mr_Params := mr_Params mr, mr_Result := mr_Result mr\<rparr>)"
proof -
  obtain kvs where kvs: "request_json mr = JObj kvs" by (simp add: request_json_def)
  have "field_values ''id'' kvs = [mr_ID mr]" "field_values ''jsonrpc'' kvs = [JStr (mr_JSONRPC mr)]"
    "field_values ''method'' kvs = (if mr_Method mr = [] then [] else [JStr (mr_Method mr)])"
    "field_values ''params'' kvs = map snd (omit_empty ''params'' (mr_Params mr))"
    "field_values ''result'' kvs = map snd (omit_empty ''result'' (mr_Result mr))"
    using kvs by (auto simp: request_json_def field_values_omit lower_char_def)
  moreover have "to_any f (mr_ID mr) = Some (mr_ID mr)"
    using assms to_any_id(1) by (simp add: request_ok_def)
  moreover have "fill_map f None (map snd (omit_empty ''params'' (mr_Params mr))) = Some (mr_Params mr)"
    "fill_map f None (map snd (omit_empty ''result'' (mr_Result mr))) = Some (mr_Result mr)"
    using assms by (simp_all add: request_ok_def fill_map_omit)
  ultimately show ?thesis
    using request_json_decodes[OF assms] kvs
    by (simp add: decode_request_def string_field_def)
qed

end
