(* ===== verification/MCP_Router.thy ===== *)
theory MCP_Router
  imports MCP_Request Routing_Table Elicitation_Maps
begin

text \<open>
  The router for the 2025-11-25 protocol: \<open>internal/routing/router_202511.go\<close> (a request's routing
  decision), \<open>internal/routing/response.go\<close> (what happens when the response comes) and the types of
  \<open>internal/routing/router.go\<close>.

  The Go code reaches its stores through interfaces with two implementations each; here a store is
  one of the two and an operation dispatches on it. The decision of \<open>RouteRequest\<close> comes with the
  router (its stores) and the request as the call leaves them, since the code mutates both. What the
  code reads from outside (clock, random identifiers, the JWT library, Redis, URL parsing, number
  conversions, the initialisation of a backend session) is the record \<open>env\<close>.
\<close>

section \<open>Stores behind interfaces\<close>

datatype 'r IDMap = MemoryIDs id_memory | RedisIDs "'r redisMap"

datatype 'r ElicitMap = MemoryElicitations elicit_memory | RedisElicitations "'r redisMap"

text \<open>
  What \<open>InitForClient\<close> is given: the gateway's internal host, the server, the headers and whether
  the client supports elicitation; it returns the backend's session id or an error text.
\<close>

record 'r env =
  en_Redis :: "'r redis"
  en_AEAD :: aead
  en_Random :: "string option"
  en_Trunc :: "string \<Rightarrow> int option"
  en_Number :: "string \<Rightarrow> string"
  en_SprintNumber :: "string \<Rightarrow> string"
  en_JWT :: jwt_lib
  en_URLPath :: "string \<Rightarrow> string option"
  en_Now :: time
  en_TokenUUID :: string
  en_ElicitUUID :: string
  en_InitForClient :: "string \<Rightarrow> MCPServer \<Rightarrow> string gomap \<Rightarrow> bool \<Rightarrow> string + string"
  en_CacheErrorText :: "cache_error \<Rightarrow> string"
  en_TokenErrorText :: "token_error \<Rightarrow> string"

definition IDMap_Lookup :: "'r env \<Rightarrow> 'r IDMap \<Rightarrow> string \<Rightarrow> map_error + IDEntry option" where
  "IDMap_Lookup E m i =
     (case m of
        MemoryIDs mem \<Rightarrow> Inr (idmap_Lookup mem i)
      | RedisIDs r \<Rightarrow> idmap_redis_Lookup (en_Redis E) (en_Number E) r i)"

definition IDMap_Remove :: "'r env \<Rightarrow> 'r IDMap \<Rightarrow> string \<Rightarrow> 'r IDMap" where
  "IDMap_Remove E m i =
     (case m of
        MemoryIDs mem \<Rightarrow> MemoryIDs (idmap_Remove mem i)
      | RedisIDs r \<Rightarrow> RedisIDs (idmap_redis_Remove (en_Redis E) r i))"

definition IDMap_Store ::
  "'r env \<Rightarrow> 'r IDMap \<Rightarrow> string \<Rightarrow> json \<Rightarrow> string \<Rightarrow> string \<Rightarrow> string \<Rightarrow> 'r IDMap \<times> (map_error + string)"
where
  "IDMap_Store E m uuid b srv sess gw =
     (case m of
        MemoryIDs mem \<Rightarrow> (case idmap_Store mem uuid b srv sess gw of (mem', i) \<Rightarrow> (MemoryIDs mem', Inr i))
      | RedisIDs r \<Rightarrow>
          (case idmap_redis_Store (en_Redis E) r uuid b srv sess gw of (r', res) \<Rightarrow> (RedisIDs r', res)))"

definition ElicitMap_Store ::
  "'r env \<Rightarrow> 'r ElicitMap \<Rightarrow> string \<Rightarrow> string \<Rightarrow> string \<Rightarrow> 'r ElicitMap \<times> (map_error + string)" where
  "ElicitMap_Store E m sess srv sub =
     (case m of
        MemoryElicitations mem \<Rightarrow>
          (case elicit_Store (en_Now E) mem (en_ElicitUUID E) sess srv sub of
             (mem', i) \<Rightarrow> (MemoryElicitations mem', Inr i))
      | RedisElicitations r \<Rightarrow>
          (case elicit_redis_Store (en_Redis E) r (en_ElicitUUID E) sess srv sub of
             (r', res) \<Rightarrow> (RedisElicitations r', res)))"

section \<open>Requests and decisions\<close>

text \<open>
  A rejection, or the panic of a method call on a nil manager.
\<close>

datatype RouteError =
    HTTPError (re_StatusCode: int) (re_Message: string) (re_JSONRPCErr: string)
  | NilManager

record Decision =
  de_Authority :: string
  de_Path :: string
  de_SetHeaders :: "string gomap"
  de_UnsetHeaders :: "string list"
  de_BodyMutation :: "string option"
  de_Error :: "RouteError option"
  de_BrokerPass :: bool

definition empty_Decision :: Decision where
  "empty_Decision =
     \<lparr>de_Authority = [], de_Path = [], de_SetHeaders = Map.empty, de_UnsetHeaders = [],
      de_BodyMutation = None, de_Error = None, de_BrokerPass = False\<rparr>"

definition reject :: "int \<Rightarrow> string \<Rightarrow> Decision" where
  "reject code msg = empty_Decision\<lparr>de_Error := Some (HTTPError code msg [])\<rparr>"

definition internal_error :: Decision where
  "internal_error = reject 500 ''internal error''"

text \<open>The answer is an SSE event with status 200 and the client's session.\<close>

definition reject_sse :: "string \<Rightarrow> string \<Rightarrow> Decision" where
  "reject_sse event sessionID =
     empty_Decision\<lparr>de_Error := Some (HTTPError 200 [] event),
                    de_SetHeaders := [SessionHeader \<mapsto> sessionID]\<rparr>"

text \<open>A \<open>RouterError\<close> has a status and a text; the other errors have neither for a client.\<close>

datatype router_error = RouterError int string | OtherError

text \<open>A nil manager has already panicked in \<open>validateSession\<close> before a session is initialised.\<close>

record 'r Router202511 =
  ro_RoutingConfig :: "unit MCPServersConfig"
  ro_Table :: Table
  ro_PrefixOrder :: "string list"
  ro_SessionCache :: "'r Cache"
  ro_JWTManager :: "JWTManager option"
  ro_ElicitationMap :: "'r IDMap"
  ro_TokenElicitationMap :: "'r ElicitMap"
  ro_ElicitationEnabled :: bool

section \<open>Sessions\<close>

datatype session_check = SessionOK | SessionError int string | SessionPanic

definition validateSession :: "'r env \<Rightarrow> 'r Router202511 \<Rightarrow> string \<Rightarrow> session_check" where
  "validateSession E r sessionID =
     (if sessionID = [] then SessionError 400 ''no session ID found''
      else
        (case ro_JWTManager r of
           None \<Rightarrow> SessionPanic
         | Some m \<Rightarrow>
             (case Session_JWT.Validate (en_JWT E) m (en_Now E) sessionID of
                (isInvalid, err) \<Rightarrow>
                  if err \<noteq> None \<or> isInvalid then SessionError 401 ''session no longer valid''
                  else SessionOK)))"

text \<open>The rejection that a failed session check gives.\<close>

definition session_rejection :: "session_check \<Rightarrow> Decision option" where
  "session_rejection c =
     (case c of
        SessionOK \<Rightarrow> None
      | SessionError code msg \<Rightarrow> Some (reject code msg)
      | SessionPanic \<Rightarrow> Some (empty_Decision\<lparr>de_Error := Some NilManager\<rparr>))"

text \<open>
  The headers that the backend initialisation passes on: all but pseudo headers, the session and
  the router's own.
\<close>

definition pass_through :: "string gomap \<Rightarrow> string gomap" where
  "pass_through headers =
     (\<lambda>key. let k = ToLower key
            in if HasPrefix k '':'' \<or> k = SessionHeader \<or> k = InitHostHeader \<or> k = RoutingKey \<or>
                  k = MCPAuthorizedHeader \<or> k = MCPVirtualServerHeader
               then None else headers key)"

definition init_headers :: "MCPRequest \<Rightarrow> string gomap" where
  "init_headers mr =
     (let h = (pass_through (mr_Headers mr))
                (''x-mcp-method'' \<mapsto> mr_Method mr, ''x-mcp-servername'' \<mapsto> mr_ServerName mr);
          h = (if ToolName mr \<noteq> [] then h(''x-mcp-toolname'' \<mapsto> ToolName mr) else h);
          h = (if PromptName mr \<noteq> [] then h(''x-mcp-promptname'' \<mapsto> PromptName mr) else h)
      in h(''user-agent'' \<mapsto> ''mcp-router''))"

definition with_cache :: "'r Router202511 \<Rightarrow> 'r Cache \<Rightarrow> 'r Router202511" where
  "with_cache r c = r\<lparr>ro_SessionCache := c\<rparr>"

text \<open>
  What runs when the client's session ends: at once if it is over already, otherwise from a timer
  set for its expiry.
\<close>

definition sessionCloser :: "'r env \<Rightarrow> 'r Router202511 \<Rightarrow> string \<Rightarrow> 'r Router202511" where
  "sessionCloser E r sid = with_cache r (fst (DeleteSessions (en_Redis E) (ro_SessionCache r) [sid]))"

text \<open>
  The part of the initialisation after the backend answered: the session is stored for as long as
  the client's session lasts.
\<close>

definition store_backend_session ::
  "'r env \<Rightarrow> 'r Router202511 \<Rightarrow> JWTManager \<Rightarrow> MCPRequest \<Rightarrow> MCPServer \<Rightarrow> string \<Rightarrow>
   'r Router202511 \<times> MCPRequest \<times> (router_error + string)" where
  "store_backend_session E r jm mr cfg remoteSessionID =
     (let sid = GetSessionID mr; c = ro_SessionCache r;
          closed = sessionCloser E r sid
      in case GetExpiresIn (en_JWT E) jm (en_Now E) sid of
           (_, Some _) \<Rightarrow> (closed, mr, Inl (RouterError 401 ''invalid session''))
         | (expiresAt, None) \<Rightarrow>
             if expiresAt - en_Now E \<le> 0
             then (closed, mr, Inl (RouterError 401 ''invalid session''))
             else
               (case AddSession (en_Redis E) c sid (srv_Name cfg) remoteSessionID
                       (expiresAt - en_Now E) of
                  (c', Inl _) \<Rightarrow> (with_cache r c', mr, Inl (RouterError 500 ''internal error''))
                | (c', Inr _) \<Rightarrow> (with_cache r c', mr, Inr remoteSessionID)))"

definition create_backend_session ::
  "'r env \<Rightarrow> 'r Router202511 \<Rightarrow> MCPRequest \<Rightarrow> MCPServer \<Rightarrow>
   'r Router202511 \<times> MCPRequest \<times> (router_error + string)" where
  "create_backend_session E r mr cfg =
     (let sid = GetSessionID mr; R = en_Redis E;
          (c, token) =
            (if ro_ElicitationEnabled r \<and> srv_TokenURLElicitation cfg \<noteq> None
             then GetUserToken R (en_AEAD E) (en_Trunc E) (en_Now E) (ro_SessionCache r) sid (srv_Name cfg)
             else (ro_SessionCache r, Inr None));
          r1 = with_cache r c;
          h = (case token of
                 Inr (Some t) \<Rightarrow> (init_headers mr)(AuthorizationHeader \<mapsto> t)
               | _ \<Rightarrow> init_headers mr)
      in case (if mr_ClientElicitation mr then Inr True else GetClientElicitation R c sid) of
           Inl e \<Rightarrow>
             (r1, mr, Inl (RouterError 500
                (''failed to read client elicitation flag: '' @ en_CacheErrorText E e)))
         | Inr flag \<Rightarrow>
             (let mr1 = mr\<lparr>mr_ClientElicitation := flag\<rparr>
              in case ro_JWTManager r of
                   None \<Rightarrow> (r1, mr1, Inl OtherError)
                 | Some jm \<Rightarrow>
                     (case GenerateBackendInitToken (en_JWT E) jm (en_Now E) (en_TokenUUID E)
                             (srv_Hostname cfg) of
                        Inl e \<Rightarrow>
                          (r1, mr1, Inl (RouterError 500
                             (''failed to generate backend-init token: '' @ en_TokenErrorText E e)))
                      | Inr initToken \<Rightarrow>
                          (case en_InitForClient E (cfg_InternalHostname (ro_RoutingConfig r)) cfg
                                  (h(RoutingKey \<mapsto> initToken, InitHostHeader \<mapsto> srv_Hostname cfg)) flag of
                             Inl e \<Rightarrow>
                               (r1, mr1, Inl (RouterError 500
                                  (''failed to create session for mcp server: '' @ e)))
                           | Inr remoteSessionID \<Rightarrow>
                               store_backend_session E r1 jm mr1 cfg remoteSessionID))))"

definition initializeMCPServerSession ::
  "'r env \<Rightarrow> 'r Router202511 \<Rightarrow> MCPRequest \<Rightarrow> 'r Router202511 \<times> MCPRequest \<times> (router_error + string)"
where
  "initializeMCPServerSession E r mr =
     (case GetServerConfigByName (ro_RoutingConfig r) (mr_ServerName mr) of
        None \<Rightarrow> (r, mr, Inl (RouterError 500 ''failed check for server: unknown server''))
      | Some cfg \<Rightarrow>
          (case GetSession (en_Redis E) (ro_SessionCache r) (GetSessionID mr) of
             Inl e \<Rightarrow>
               (r, mr, Inl (RouterError 500
                  (''failed to check for existing session: '' @ en_CacheErrorText E e)))
           | Inr exists \<Rightarrow>
               (case exists (mr_ServerName mr) of
                  Some i \<Rightarrow> (r, mr, Inr i)
                | None \<Rightarrow> create_backend_session E r mr cfg)))"

section \<open>User tokens\<close>

text \<open>
  The headers with the token, or the elicitation that must come first.
\<close>

datatype token_result =
    TokenHeaders "string gomap"
  | Elicit string string
  | TokenRejected int string
  | TokenFailed

definition resolveUpstreamToken ::
  "'r env \<Rightarrow> 'r Router202511 \<Rightarrow> MCPRequest \<Rightarrow> MCPServer \<Rightarrow> string gomap \<Rightarrow>
   'r Router202511 \<times> token_result" where
  "resolveUpstreamToken E r mr serverInfo headers =
     (let sid = GetSessionID mr; R = en_Redis E
      in case GetUserToken R (en_AEAD E) (en_Trunc E) (en_Now E) (ro_SessionCache r) sid
                (srv_Name serverInfo) of
           (c, Inl _) \<Rightarrow> (with_cache r c, TokenFailed)
         | (c, Inr (Some token)) \<Rightarrow>
             (with_cache r c, TokenHeaders (headers(AuthorizationHeader \<mapsto> token)))
         | (c, Inr None) \<Rightarrow>
             (let r1 = with_cache r c
              in case ExtractSubClaim (GetSingleHeaderValue mr AuthorizationHeader) of
                   Inl _ \<Rightarrow>
                     (r1, TokenRejected 400
                        ''authorization token missing sub claim: JWT has no sub claim'')
                 | Inr sub \<Rightarrow>
                     (case GetClientElicitation R c sid of
                        Inl _ \<Rightarrow> (r1, TokenFailed)
                      | Inr False \<Rightarrow>
                          (r1, TokenRejected 400
                             ''upstream server requires a per-user token but client does not support elicitation'')
                      | Inr True \<Rightarrow>
                          (case ElicitMap_Store E (ro_TokenElicitationMap r) sid (srv_Name serverInfo) sub of
                             (m, Inl _) \<Rightarrow> (r1\<lparr>ro_TokenElicitationMap := m\<rparr>, TokenFailed)
                           | (m, Inr elicitationID) \<Rightarrow>
                               (r1\<lparr>ro_TokenElicitationMap := m\<rparr>,
                                Elicit (json_encode (mr_ID mr)) elicitationID)))))"

section \<open>Routing\<close>

definition routeToMCPServer :: "ServerRoute \<Rightarrow> MCPServer" where
  "routeToMCPServer route =
     \<lparr>srv_Name = sr_Name route, srv_URL = sr_URL route, srv_Hostname = sr_Host route,
      srv_Prefix = sr_Prefix route, srv_Auth = None, srv_Credential = [], srv_CACert = [],
      srv_State = [], srv_TokenURLElicitation = sr_TokenURLElicitation route,
      srv_UserSpecificList = sr_UserSpecificList route, srv_Category = [], srv_Hint = [],
      srv_Tags = []\<rparr>"

definition init_rejection :: "router_error \<Rightarrow> Decision" where
  "init_rejection e =
     (case e of RouterError code msg \<Rightarrow> reject code msg | OtherError \<Rightarrow> internal_error)"

definition upstream_decision ::
  "'r env \<Rightarrow> MCPRequest \<Rightarrow> MCPServer \<Rightarrow> string gomap \<Rightarrow> string \<Rightarrow> MCPRequest \<times> Decision" where
  "upstream_decision E mr serverInfo headers remoteSession =
     (let mr1 = mr\<lparr>mr_BackendSessionID := remoteSession\<rparr>; body = ToBytes mr1
      in case en_URLPath E (srv_URL serverInfo) of
           None \<Rightarrow> (mr1, internal_error)
         | Some path \<Rightarrow>
             (mr1, empty_Decision
                \<lparr>de_Authority := srv_Hostname serverInfo, de_Path := path,
                 de_SetHeaders := headers(SessionHeader \<mapsto> remoteSession,
                                          ''content-length'' \<mapsto> Itoa (length body)),
                 de_UnsetHeaders := InternalOnlyHeaders, de_BodyMutation := Some body\<rparr>))"

definition routeToUpstream ::
  "'r env \<Rightarrow> 'r Router202511 \<Rightarrow> MCPRequest \<Rightarrow> MCPServer \<Rightarrow> string gomap \<Rightarrow>
   'r Router202511 \<times> MCPRequest \<times> Decision" where
  "routeToUpstream E r mr serverInfo headers =
     (case GetSession (en_Redis E) (ro_SessionCache r) (GetSessionID mr) of
        Inl _ \<Rightarrow> (r, mr, internal_error)
      | Inr exists \<Rightarrow>
          (let cached = get_or_empty exists (mr_ServerName mr)
           in if cached \<noteq> [] then (r, upstream_decision E mr serverInfo headers cached)
              else
                (case initializeMCPServerSession E r mr of
                   (r1, mr1, Inl e) \<Rightarrow> (r1, mr1, init_rejection e)
                 | (r1, mr1, Inr i) \<Rightarrow> (r1, upstream_decision E mr1 serverInfo headers i))))"

definition hint_text :: "string \<Rightarrow> bool option \<Rightarrow> string" where
  "hint_text key val =
     (case val of
        None \<Rightarrow> key @ ''=unspecified''
      | Some b \<Rightarrow> if b then key @ ''=true'' else key @ ''=false'')"

definition annotation_header :: "ToolAnnotation \<Rightarrow> string" where
  "annotation_header a =
     Join [hint_text ''readOnly'' (an_ReadOnlyHint a), hint_text ''destructive'' (an_DestructiveHint a),
           hint_text ''idempotent'' (an_IdempotentHint a), hint_text ''openWorld'' (an_OpenWorldHint a)]
       '',''"

definition routeBrokerPassthrough ::
  "'r env \<Rightarrow> 'r Router202511 \<Rightarrow> MCPRequest \<Rightarrow> 'r Router202511 \<times> MCPRequest \<times> Decision" where
  "routeBrokerPassthrough E r mr =
     (let headers = [MethodHeader \<mapsto> mr_Method mr];
          target = GetSingleHeaderValue mr InitHostHeader
      in if IsInitializeRequest mr \<and> target \<noteq> [] then
           (case ro_JWTManager r of
              None \<Rightarrow> (r, mr, internal_error)
            | Some jm \<Rightarrow>
                (case ValidateBackendInitToken (en_JWT E) jm (en_Now E)
                        (GetSingleHeaderValue mr RoutingKey) target of
                   Some _ \<Rightarrow> (r, mr, reject 400 ''bad request'')
                 | None \<Rightarrow>
                     (r, mr, empty_Decision
                        \<lparr>de_Authority := target, de_SetHeaders := headers,
                         de_UnsetHeaders := [InitHostHeader, RoutingKey] @ InternalOnlyHeaders\<rparr>)))
         else
           (let h0 = headers(MCPServerNameHeader \<mapsto> ''mcpBroker'');
                h = fold (\<lambda>name h. let v = GetSingleHeaderValue mr name
                                   in if v \<noteq> [] then h(name \<mapsto> v) else h) InternalOnlyHeaders h0
            in (r, mr, empty_Decision\<lparr>de_BrokerPass := True, de_SetHeaders := h\<rparr>)))"

text \<open>The headers of a tool call that goes to a server, and the request with the server's name for
  the tool.\<close>

definition tool_headers :: "Table \<Rightarrow> MCPServer \<Rightarrow> string \<Rightarrow> string \<Rightarrow> string gomap" where
  "tool_headers table serverInfo toolName meth =
     (let h = (case ToolAnnotations table (server_ID serverInfo) toolName of
                 None \<Rightarrow> Map.empty
               | Some a \<Rightarrow> [ToolAnnotationsHeader \<mapsto> annotation_header a])
      in h(MethodHeader \<mapsto> meth, ToolHeader \<mapsto> fst (CutPrefix toolName (srv_Prefix serverInfo)),
           MCPServerNameHeader \<mapsto> srv_Name serverInfo))"

definition routeToolCall ::
  "'r env \<Rightarrow> 'r Router202511 \<Rightarrow> MCPRequest \<Rightarrow> 'r Router202511 \<times> MCPRequest \<times> Decision" where
  "routeToolCall E r mr =
     (let toolName = ToolName mr; table = ro_Table r; sid = GetSessionID mr
      in if toolName = [] then (r, mr, reject 400 ''no tool name set'')
         else
           (case session_rejection (validateSession E r sid) of
              Some d \<Rightarrow> (r, mr, d)
            | None \<Rightarrow>
                (case (case LookupTool table toolName of
                         Some route \<Rightarrow> Some route
                       | None \<Rightarrow> LookupPrefix table (ro_PrefixOrder r) toolName) of
                   None \<Rightarrow>
                     if IsBrokerTool table toolName then routeBrokerPassthrough E r mr
                     else (r, mr, reject_sse
                             (BuildSSEToolError (mr_ID mr) ''MCP error -32602: Tool not found'') sid)
                 | Some route \<Rightarrow>
                     (let serverInfo = routeToMCPServer route;
                          headers = tool_headers table serverInfo toolName (mr_Method mr);
                          mr1 = ReWriteToolName (fst (CutPrefix toolName (srv_Prefix serverInfo)))
                                  (mr\<lparr>mr_ServerName := srv_Name serverInfo\<rparr>)
                      in if ro_ElicitationEnabled r \<and> srv_TokenURLElicitation serverInfo \<noteq> None then
                           (case resolveUpstreamToken E r mr1 serverInfo headers of
                              (r1, TokenRejected code msg) \<Rightarrow>
                                (r1, mr1, reject_sse (BuildSSEToolError (mr_ID mr1) msg) sid)
                            | (r1, TokenFailed) \<Rightarrow> (r1, mr1, internal_error)
                            | (r1, Elicit requestID elicitationID) \<Rightarrow>
                                (r1, mr1, empty_Decision
                                   \<lparr>de_Path := ''/mcp/elicitation'',
                                    de_SetHeaders := headers(MCPServerNameHeader \<mapsto> ''mcpBroker'',
                                      ElicitationRequestIDHeader \<mapsto> requestID,
                                      ElicitationIDHeader \<mapsto> elicitationID)\<rparr>)
                            | (r1, TokenHeaders headers') \<Rightarrow>
                                routeToUpstream E r1 mr1 serverInfo headers')
                         else routeToUpstream E r mr1 serverInfo headers))))"

definition prompt_not_found :: string where
  "prompt_not_found =
     [newline] @ ''event: message'' @ [newline] @ ''data: {'' @ quoted ''error'' @ '':{'' @ quoted ''code''
     @ '':-32602,'' @ quoted ''message'' @ '':'' @ quoted ''Prompt not found'' @ ''},'' @ quoted ''jsonrpc'' @ '':''
     @ quoted ''2.0'' @ ''}'' @ [newline, newline]"

definition routePromptGet ::
  "'r env \<Rightarrow> 'r Router202511 \<Rightarrow> MCPRequest \<Rightarrow> 'r Router202511 \<times> MCPRequest \<times> Decision" where
  "routePromptGet E r mr =
     (let promptName = PromptName mr; sid = GetSessionID mr
      in if promptName = [] then (r, mr, reject 400 ''no prompt name set'')
         else
           (case session_rejection (validateSession E r sid) of
              Some d \<Rightarrow> (r, mr, d)
            | None \<Rightarrow>
                (case LookupPrompt (ro_Table r) promptName of
                   None \<Rightarrow> (r, mr, reject_sse prompt_not_found sid)
                 | Some route \<Rightarrow>
                     (let serverInfo = routeToMCPServer route;
                          upstreamPromptName = fst (CutPrefix promptName (srv_Prefix serverInfo));
                          headers = [MethodHeader \<mapsto> mr_Method mr, PromptHeader \<mapsto> upstreamPromptName,
                                     MCPServerNameHeader \<mapsto> srv_Name serverInfo];
                          mr1 = ReWritePromptName upstreamPromptName
                                  (mr\<lparr>mr_ServerName := srv_Name serverInfo\<rparr>)
                      in routeToUpstream E r mr1 serverInfo headers))))"

text \<open>\<open>fmt.Sprint\<close> of an identifier.\<close>

fun go_Sprint :: "(string \<Rightarrow> string) \<Rightarrow> json \<Rightarrow> string" where
  "go_Sprint num (JStr s) = s"
| "go_Sprint num (JNum n) = num n"
| "go_Sprint num (JBool b) = (if b then ''true'' else ''false'')"
| "go_Sprint num JNull = ''<nil>''"
| "go_Sprint num (JArr vs) = ''['' @ Join (map (go_Sprint num) vs) '' '' @ '']''"
| "go_Sprint num (JObj kvs) =
     ''map['' @ Join (map (\<lambda>kv. fst kv @ '':'' @ go_Sprint num (snd kv)) kvs) '' '' @ '']''"

definition routeElicitationResponse ::
  "'r env \<Rightarrow> 'r Router202511 \<Rightarrow> MCPRequest \<Rightarrow> 'r Router202511 \<times> MCPRequest \<times> Decision" where
  "routeElicitationResponse E r mr =
     (let sid = GetSessionID mr; gatewayID = go_Sprint (en_SprintNumber E) (mr_ID mr)
      in case session_rejection (validateSession E r sid) of
           Some d \<Rightarrow> (r, mr, d)
         | None \<Rightarrow>
             (case IDMap_Lookup E (ro_ElicitationMap r) gatewayID of
                Inl _ \<Rightarrow> (r, mr, internal_error)
              | Inr None \<Rightarrow> (r, mr, reject 400 ''unknown elicitation ID'')
              | Inr (Some entry) \<Rightarrow>
                  if ie_GatewaySessionID entry \<noteq> sid then (r, mr, reject 403 ''session mismatch'')
                  else
                    (let mr1 = mr\<lparr>mr_ID := ie_BackendID entry\<rparr>; body = ToBytes mr1
                     in case GetServerConfigByName (ro_RoutingConfig r) (ie_ServerName entry) of
                          None \<Rightarrow> (r, mr1, internal_error)
                        | Some cfg \<Rightarrow>
                            (case en_URLPath E (srv_URL cfg) of
                               None \<Rightarrow> (r, mr1, internal_error)
                             | Some path \<Rightarrow>
                                 (r\<lparr>ro_ElicitationMap := IDMap_Remove E (ro_ElicitationMap r) gatewayID\<rparr>,
                                  mr1, empty_Decision
                                    \<lparr>de_Authority := srv_Hostname cfg, de_Path := path,
                                     de_SetHeaders := [SessionHeader \<mapsto> ie_SessionID entry,
                                       MCPServerNameHeader \<mapsto> ie_ServerName entry,
                                       ''content-length'' \<mapsto> Itoa (length body)],
                                     de_UnsetHeaders := InternalOnlyHeaders,
                                     de_BodyMutation := Some body\<rparr>)))))"

text \<open>None is a request whose body was not parsed.\<close>

definition RouteRequest ::
  "'r env \<Rightarrow> 'r Router202511 \<Rightarrow> MCPRequest option \<Rightarrow>
   'r Router202511 \<times> MCPRequest option \<times> Decision" where
  "RouteRequest E r parsed =
     (case parsed of
        None \<Rightarrow> (r, None, reject 400 ''no parsed request'')
      | Some mr \<Rightarrow>
          (let (r', mr', d) =
             (if IsElicitationResponse mr then routeElicitationResponse E r mr
              else if mr_Method mr = MethodToolCall then routeToolCall E r mr
              else if mr_Method mr = MethodPromptGet then routePromptGet E r mr
              else routeBrokerPassthrough E r mr)
           in (r', Some mr', d)))"

section \<open>Responses\<close>

record ResponseDecision =
  rd_SetHeaders :: "string gomap"
  rd_StreamBody :: bool

record ResponseInput =
  ri_StatusCode :: string
  ri_GatewaySessionID :: string
  ri_ResponseSessionID :: string
  ri_InitHost :: string
  ri_Request :: "MCPRequest option"

text \<open>The three effects of a response on the cache.\<close>

definition record_client_elicitation ::
  "'r env \<Rightarrow> 'r Router202511 \<Rightarrow> ResponseInput \<Rightarrow> MCPRequest \<Rightarrow> 'r Cache \<Rightarrow> 'r Cache" where
  "record_client_elicitation E r input mr c =
     (let sid = ri_ResponseSessionID input
      in if mr_Method mr = ''initialize'' \<and> ClientSupportsElicitation mr \<and> ri_InitHost input = [] \<and>
            sid \<noteq> [] then
           (let ttl = (case ro_JWTManager r of
                         None \<Rightarrow> 0
                       | Some jm \<Rightarrow>
                           (case GetExpiresIn (en_JWT E) jm (en_Now E) sid of
                              (expiresAt, None) \<Rightarrow> expiresAt - en_Now E
                            | (_, Some _) \<Rightarrow> 0))
            in if ttl \<le> 0 then c else fst (SetClientElicitation (en_Redis E) c sid ttl))
         else c)"

definition forget_backend_session ::
  "'r env \<Rightarrow> ResponseInput \<Rightarrow> MCPRequest \<Rightarrow> 'r Cache \<Rightarrow> 'r Cache" where
  "forget_backend_session E input mr c =
     (if ri_StatusCode input = ''404''
      then fst (RemoveServerSession (en_Redis E) c (GetSessionID mr) (mr_ServerName mr)) else c)"

definition forget_user_token ::
  "'r env \<Rightarrow> 'r Router202511 \<Rightarrow> ResponseInput \<Rightarrow> MCPRequest \<Rightarrow> 'r Cache \<Rightarrow> 'r Cache" where
  "forget_user_token E r input mr c =
     (if ri_StatusCode input = ''401'' \<and> ro_ElicitationEnabled r then
        (case GetServerConfigByName (ro_RoutingConfig r) (mr_ServerName mr) of
           None \<Rightarrow> c
         | Some cfg \<Rightarrow>
             if srv_TokenURLElicitation cfg \<noteq> None
             then fst (DeleteUserToken (en_Redis E) c (GetSessionID mr) (mr_ServerName mr)) else c)
      else c)"

definition HandleResponse ::
  "'r env \<Rightarrow> 'r Router202511 \<Rightarrow> ResponseInput \<Rightarrow> 'r Router202511 \<times> ResponseDecision" where
  "HandleResponse E r input =
     (let headers = (if ri_GatewaySessionID input \<noteq> []
                     then [SessionHeader \<mapsto> ri_GatewaySessionID input] else Map.empty)
      in case ri_Request input of
           None \<Rightarrow> (r, \<lparr>rd_SetHeaders = headers, rd_StreamBody = False\<rparr>)
         | Some mr \<Rightarrow>
             (let c1 = record_client_elicitation E r input mr (ro_SessionCache r);
                  c2 = forget_backend_session E input mr c1;
                  c3 = forget_user_token E r input mr c2
              in (with_cache r c3,
                  \<lparr>rd_SetHeaders = headers,
                   rd_StreamBody = IsToolCall mr \<and> mr_ClientElicitation mr \<and>
                                   ri_StatusCode input = ''200''\<rparr>)))"

section \<open>Facts\<close>

text \<open>Initialising a backend session changes nothing of the request but the capability flag.\<close>

definition same_request :: "MCPRequest \<Rightarrow> MCPRequest \<Rightarrow> bool" where
  "same_request mr mr' \<longleftrightarrow>
     (\<exists>flag. mr' = mr\<lparr>mr_ClientElicitation := flag\<rparr>)"

lemma same_request_refl [simp]: "same_request mr mr"
  unfolding same_request_def by (rule exI[of _ "mr_ClientElicitation mr"]) simp

lemma same_request_flag [simp]: "same_request mr (mr\<lparr>mr_ClientElicitation := b\<rparr>)"
  by (auto simp: same_request_def)

lemma store_backend_session_request:
  "fst (snd (store_backend_session E r jm mr cfg i)) = mr"
  by (auto simp: store_backend_session_def Let_def split: prod.splits option.splits sum.splits)

lemma create_backend_session_request:
  "same_request mr (fst (snd (create_backend_session E r mr cfg)))"
  by (auto simp: create_backend_session_def Let_def store_backend_session_request
      split: prod.splits option.splits sum.splits if_splits)

lemma initialize_request: "same_request mr (fst (snd (initializeMCPServerSession E r mr)))"
  by (auto simp: initializeMCPServerSession_def create_backend_session_request
      split: option.splits sum.splits)

text \<open>A decision that goes to a server: everything but the body and its length is fixed.\<close>

definition goes_upstream :: "Decision \<Rightarrow> string \<Rightarrow> string gomap \<Rightarrow> bool" where
  "goes_upstream d body headers \<longleftrightarrow>
     de_Error d = None \<and> \<not> de_BrokerPass d \<and> de_BodyMutation d = Some body \<and>
     de_UnsetHeaders d = InternalOnlyHeaders \<and>
     de_SetHeaders d = headers(''content-length'' \<mapsto> Itoa (length body))"

definition rejected :: "Decision \<Rightarrow> bool" where
  "rejected d \<longleftrightarrow> de_Error d \<noteq> None \<and> de_BodyMutation d = None \<and> \<not> de_BrokerPass d"

lemma rejected_simps [simp]:
  "rejected (reject code msg)" "rejected internal_error" "rejected (reject_sse e s)"
  "rejected (init_rejection err)" "rejected (empty_Decision\<lparr>de_Error := Some x\<rparr>)"
  by (auto simp: rejected_def reject_def internal_error_def reject_sse_def init_rejection_def
      empty_Decision_def split: router_error.splits)

lemma session_rejection_rejected: "session_rejection c = Some d \<Longrightarrow> rejected d"
  by (auto simp: session_rejection_def split: session_check.splits)

lemma upstream_decision_cases:
  obtains (failed) "snd (upstream_decision E mr si h i) = internal_error"
  | (sent) "goes_upstream (snd (upstream_decision E mr si h i)) (ToBytes mr) (h(SessionHeader \<mapsto> i))"
      "de_Authority (snd (upstream_decision E mr si h i)) = srv_Hostname si"
proof -
  have "ToBytes (mr\<lparr>mr_BackendSessionID := i\<rparr>) = ToBytes mr"
    by (simp add: ToBytes_def request_json_def)
  then show thesis
    using that by (cases "en_URLPath E (srv_URL si)")
      (auto simp: upstream_decision_def goes_upstream_def empty_Decision_def Let_def)
qed

lemma upstream_decision_request:
  "fst (upstream_decision E mr si h i) = mr\<lparr>mr_BackendSessionID := i\<rparr>"
  by (simp add: upstream_decision_def Let_def split: option.splits)

lemma ToBytes_same: "same_request mr mr' \<Longrightarrow> ToBytes mr' = ToBytes mr"
  by (auto simp: same_request_def ToBytes_def request_json_def)

lemma routeToUpstream_cases:
  assumes "routeToUpstream E r mr si h = (r', mr', d)"
  obtains (failed) "rejected d"
  | (sent) "goes_upstream d (ToBytes mr) (h(SessionHeader \<mapsto> mr_BackendSessionID mr'))"
      "de_Authority d = srv_Hostname si"
proof -
  have dec: "rejected (snd (upstream_decision E m si h i)) \<or>
      goes_upstream (snd (upstream_decision E m si h i)) (ToBytes mr) (h(SessionHeader \<mapsto> i)) \<and>
      de_Authority (snd (upstream_decision E m si h i)) = srv_Hostname si"
    if "same_request mr m" for m i
    by (rule upstream_decision_cases[of E m si h i]) (auto simp: ToBytes_same[OF that])
  have bs: "mr_BackendSessionID (fst (upstream_decision E m si h i)) = i" for m i
    by (simp add: upstream_decision_request)
  show thesis
  proof (cases "GetSession (en_Redis E) (ro_SessionCache r) (GetSessionID mr)")
    case (Inl e)
    with assms that show thesis by (auto simp: routeToUpstream_def)
  next
    case (Inr m)
    show thesis
    proof (cases "get_or_empty m (mr_ServerName mr) = []")
      case False
      with Inr assms have d: "(mr', d) = upstream_decision E mr si h (get_or_empty m (mr_ServerName mr))"
        by (simp add: routeToUpstream_def Let_def)
      with dec[OF same_request_refl] bs that show thesis by (metis fst_conv snd_conv)
    next
      case True
      obtain r1 mr1 res where ini: "initializeMCPServerSession E r mr = (r1, mr1, res)"
        by (cases "initializeMCPServerSession E r mr") auto
      have same: "same_request mr mr1" using initialize_request[of mr E r] ini by simp
      show thesis
      proof (cases res)
        case (Inl e)
        with Inr True ini assms that show thesis by (auto simp: routeToUpstream_def)
      next
        case (Inr i)
        with \<open>GetSession _ _ _ = _\<close> True ini assms have "(mr', d) = upstream_decision E mr1 si h i"
          by (simp add: routeToUpstream_def)
        with dec[OF same] bs that show thesis by (metis fst_conv snd_conv)
      qed
    qed
  qed
qed

lemma session_ok:
  "session_rejection (validateSession E r sid) = None \<Longrightarrow>
   sid \<noteq> [] \<and> (\<exists>jm. ro_JWTManager r = Some jm \<and> Validate (en_JWT E) jm (en_Now E) sid = (False, None))"
  by (auto simp: validateSession_def session_rejection_def split: if_splits option.splits prod.splits)

text \<open>What a successful token resolution adds to the headers is the authorization.\<close>

lemma resolve_headers:
  "resolveUpstreamToken E r mr si h = (r', TokenHeaders h') \<Longrightarrow>
   \<exists>t. h' = h(AuthorizationHeader \<mapsto> t)"
  by (auto simp: resolveUpstreamToken_def Let_def split: prod.splits sum.splits option.splits bool.splits)

text \<open>How a tool call ends.\<close>

definition tool_route :: "'r Router202511 \<Rightarrow> string \<Rightarrow> ServerRoute option" where
  "tool_route r name =
     (case LookupTool (ro_Table r) name of
        Some route \<Rightarrow> Some route
      | None \<Rightarrow> LookupPrefix (ro_Table r) (ro_PrefixOrder r) name)"

lemma routeToolCall_cases:
  assumes "routeToolCall E r mr = (r', mr', d)"
  obtains (failed) "rejected d"
  | (broker) "routeBrokerPassthrough E r mr = (r', mr', d)" "IsBrokerTool (ro_Table r) (ToolName mr)"
  | (elicit) "de_Path d = ''/mcp/elicitation''" "de_Error d = None" "\<not> de_BrokerPass d"
      "de_BodyMutation d = None" "session_rejection (validateSession E r (GetSessionID mr)) = None"
  | (sent) route t h ro where "tool_route r (ToolName mr) = Some route"
      "session_rejection (validateSession E r (GetSessionID mr)) = None"
      "t = fst (CutPrefix (ToolName mr) (sr_Prefix route))"
      "goes_upstream d (ToBytes (ReWriteToolName t mr)) (h(SessionHeader \<mapsto> mr_BackendSessionID mr'))"
      "de_Authority d = sr_Host route"
      "h = tool_headers (ro_Table r) (routeToMCPServer route) (ToolName mr) (mr_Method mr) \<or>
       (\<exists>a. h = (tool_headers (ro_Table r) (routeToMCPServer route) (ToolName mr) (mr_Method mr))
                  (AuthorizationHeader \<mapsto> a))"
      "routeToUpstream E ro (ReWriteToolName t (mr\<lparr>mr_ServerName := sr_Name route\<rparr>))
         (routeToMCPServer route) h = (r', mr', d)"
      "ro = r \<or> ro = fst (resolveUpstreamToken E r
         (ReWriteToolName t (mr\<lparr>mr_ServerName := sr_Name route\<rparr>)) (routeToMCPServer route)
         (tool_headers (ro_Table r) (routeToMCPServer route) (ToolName mr) (mr_Method mr)))"
proof -
  note done_failed = failed and done_sent = sent
  consider (noname) "ToolName mr = []" | (nosession) "ToolName mr \<noteq> []"
      "session_rejection (validateSession E r (GetSessionID mr)) \<noteq> None"
    | (noroute) "ToolName mr \<noteq> []" "tool_route r (ToolName mr) = None"
      "session_rejection (validateSession E r (GetSessionID mr)) = None"
    | (route) route where "ToolName mr \<noteq> []" "tool_route r (ToolName mr) = Some route"
      "session_rejection (validateSession E r (GetSessionID mr)) = None"
    by blast
  then show thesis
  proof cases
    case noname
    with assms failed show thesis by (auto simp: routeToolCall_def)
  next
    case nosession
    then obtain d0 where d0: "session_rejection (validateSession E r (GetSessionID mr)) = Some d0"
      by blast
    with nosession assms have "d = d0" by (auto simp: routeToolCall_def Let_def)
    with session_rejection_rejected[OF d0] failed show thesis by blast
  next
    case noroute
    with assms failed broker show thesis
      by (auto simp: routeToolCall_def tool_route_def Let_def split: if_splits option.splits)
  next
    case (route route)
    let ?si = "routeToMCPServer route"
    let ?h = "tool_headers (ro_Table r) ?si (ToolName mr) (mr_Method mr)"
    let ?t = "fst (CutPrefix (ToolName mr) (sr_Prefix route))"
    let ?mr = "ReWriteToolName ?t (mr\<lparr>mr_ServerName := srv_Name ?si\<rparr>)"
    have si: "srv_Prefix ?si = sr_Prefix route" "srv_Hostname ?si = sr_Host route"
      and name: "srv_Name ?si = sr_Name route"
      by (simp_all add: routeToMCPServer_def)
    have bytes: "ToBytes ?mr = ToBytes (ReWriteToolName ?t mr)"
      by (simp add: ToBytes_def request_json_def ReWriteToolName_def)
    have up: thesis if "routeToUpstream E ro ?mr ?si h = (r', mr', d)"
      "h = ?h \<or> (\<exists>a. h = ?h(AuthorizationHeader \<mapsto> a))"
      "ro = r \<or> ro = fst (resolveUpstreamToken E r ?mr ?si ?h)" for ro h
      using that(1)
    proof (cases rule: routeToUpstream_cases)
      case failed
      then show thesis by (rule done_failed)
    next
      case sent
      with bytes si route that show thesis
        by (intro done_sent[of route ?t h ro]) (auto simp: name)
    qed
    show thesis
    proof (cases "ro_ElicitationEnabled r \<and> srv_TokenURLElicitation ?si \<noteq> None")
      case False
      then have "routeToUpstream E r ?mr ?si ?h = (r', mr', d)"
        using assms route si by (auto simp: routeToolCall_def tool_route_def Let_def split: option.splits)
      then show thesis by (rule up) simp_all
    next
      case True
      obtain r1 res where res: "resolveUpstreamToken E r ?mr ?si ?h = (r1, res)"
        by (cases "resolveUpstreamToken E r ?mr ?si ?h")
      have eq: "(case (r1, res) of
          (r1, TokenRejected code msg) \<Rightarrow>
            (r1, ?mr, reject_sse (BuildSSEToolError (mr_ID ?mr) msg) (GetSessionID mr))
        | (r1, TokenFailed) \<Rightarrow> (r1, ?mr, internal_error)
        | (r1, Elicit requestID elicitationID) \<Rightarrow>
            (r1, ?mr, empty_Decision
               \<lparr>de_Path := ''/mcp/elicitation'',
                de_SetHeaders := ?h(MCPServerNameHeader \<mapsto> ''mcpBroker'',
                  ElicitationRequestIDHeader \<mapsto> requestID, ElicitationIDHeader \<mapsto> elicitationID)\<rparr>)
        | (r1, TokenHeaders headers') \<Rightarrow> routeToUpstream E r1 ?mr ?si headers') = (r', mr', d)"
        using assms route True si unfolding res[symmetric]
        by (auto simp: routeToolCall_def tool_route_def Let_def split: option.splits)
      show thesis
      proof (cases res)
        case (TokenHeaders h')
        with eq up resolve_headers[of E r ?mr ?si ?h r1 h'] res show thesis by auto
      next
        case (Elicit a b)
        with eq route show thesis by (intro elicit) (auto simp: empty_Decision_def)
      qed (use eq failed in auto)
    qed
  qed
qed

lemma routePromptGet_cases:
  assumes "routePromptGet E r mr = (r', mr', d)"
  obtains (failed) "rejected d"
  | (sent) route t where "LookupPrompt (ro_Table r) (PromptName mr) = Some route"
      "session_rejection (validateSession E r (GetSessionID mr)) = None"
      "t = fst (CutPrefix (PromptName mr) (sr_Prefix route))"
      "goes_upstream d (ToBytes (ReWritePromptName t mr))
         [MethodHeader \<mapsto> mr_Method mr, PromptHeader \<mapsto> t, MCPServerNameHeader \<mapsto> sr_Name route,
          SessionHeader \<mapsto> mr_BackendSessionID mr']"
      "de_Authority d = sr_Host route"
      "routeToUpstream E r (ReWritePromptName t (mr\<lparr>mr_ServerName := sr_Name route\<rparr>))
         (routeToMCPServer route) [MethodHeader \<mapsto> mr_Method mr, PromptHeader \<mapsto> t,
            MCPServerNameHeader \<mapsto> sr_Name route] = (r', mr', d)"
proof -
  note done_failed = failed and done_sent = sent
  consider (noname) "PromptName mr = []" | (nosession) d0 where "PromptName mr \<noteq> []"
      "session_rejection (validateSession E r (GetSessionID mr)) = Some d0"
    | (noroute) "PromptName mr \<noteq> []" "LookupPrompt (ro_Table r) (PromptName mr) = None"
      "session_rejection (validateSession E r (GetSessionID mr)) = None"
    | (route) route where "PromptName mr \<noteq> []" "LookupPrompt (ro_Table r) (PromptName mr) = Some route"
      "session_rejection (validateSession E r (GetSessionID mr)) = None"
    by blast
  then show thesis
  proof cases
    case noname
    with assms failed show thesis by (auto simp: routePromptGet_def)
  next
    case (nosession d0)
    with assms have "d = d0" by (auto simp: routePromptGet_def Let_def)
    with session_rejection_rejected[OF nosession(2)] failed show thesis by blast
  next
    case noroute
    with assms failed show thesis by (auto simp: routePromptGet_def Let_def)
  next
    case (route route)
    let ?si = "routeToMCPServer route"
    let ?t = "fst (CutPrefix (PromptName mr) (sr_Prefix route))"
    let ?mr = "ReWritePromptName ?t (mr\<lparr>mr_ServerName := srv_Name ?si\<rparr>)"
    have si: "srv_Prefix ?si = sr_Prefix route" "srv_Hostname ?si = sr_Host route"
        "srv_Name ?si = sr_Name route"
      by (simp_all add: routeToMCPServer_def)
    have bytes: "ToBytes ?mr = ToBytes (ReWritePromptName ?t mr)"
      by (simp add: ToBytes_def request_json_def ReWritePromptName_def)
    have call: "routeToUpstream E r ?mr ?si [MethodHeader \<mapsto> mr_Method mr, PromptHeader \<mapsto> ?t,
            MCPServerNameHeader \<mapsto> srv_Name ?si] = (r', mr', d)"
      using assms route si by (simp add: routePromptGet_def Let_def)
    then show thesis
    proof (cases rule: routeToUpstream_cases)
      case failed
      then show thesis by (rule done_failed)
    next
      case sent
      with bytes si route call show thesis by (intro done_sent[of route ?t]) auto
    qed
  qed
qed

lemma routeElicitationResponse_cases:
  assumes "routeElicitationResponse E r mr = (r', mr', d)"
  obtains (failed) "rejected d" "r' = r"
  | (sent) entry cfg where "session_rejection (validateSession E r (GetSessionID mr)) = None"
      "IDMap_Lookup E (ro_ElicitationMap r) (go_Sprint (en_SprintNumber E) (mr_ID mr)) = Inr (Some entry)"
      "ie_GatewaySessionID entry = GetSessionID mr"
      "GetServerConfigByName (ro_RoutingConfig r) (ie_ServerName entry) = Some cfg"
      "mr' = mr\<lparr>mr_ID := ie_BackendID entry\<rparr>"
      "goes_upstream d (ToBytes mr')
         [SessionHeader \<mapsto> ie_SessionID entry, MCPServerNameHeader \<mapsto> ie_ServerName entry]"
      "de_Authority d = srv_Hostname cfg"
      "r' = r\<lparr>ro_ElicitationMap := IDMap_Remove E (ro_ElicitationMap r)
                (go_Sprint (en_SprintNumber E) (mr_ID mr))\<rparr>"
proof -
  let ?sid = "GetSessionID mr" and ?gid = "go_Sprint (en_SprintNumber E) (mr_ID mr)"
  show thesis
  proof (cases "session_rejection (validateSession E r ?sid)")
    case (Some d0)
    with assms have "d = d0 \<and> r' = r" by (auto simp: routeElicitationResponse_def Let_def)
    with session_rejection_rejected[OF Some] failed show thesis by blast
  next
    case None
    show thesis
    proof (cases "IDMap_Lookup E (ro_ElicitationMap r) ?gid")
      case (Inl e)
      with None assms failed show thesis by (auto simp: routeElicitationResponse_def Let_def)
    next
      case (Inr found)
      show thesis
      proof (cases "\<exists>entry cfg path. found = Some entry \<and> ie_GatewaySessionID entry = ?sid \<and>
          GetServerConfigByName (ro_RoutingConfig r) (ie_ServerName entry) = Some cfg \<and>
          en_URLPath E (srv_URL cfg) = Some path")
        case True
        then obtain entry cfg path where e: "found = Some entry" "ie_GatewaySessionID entry = ?sid"
          "GetServerConfigByName (ro_RoutingConfig r) (ie_ServerName entry) = Some cfg"
          "en_URLPath E (srv_URL cfg) = Some path" by blast
        show thesis
        proof (rule sent[of entry cfg])
          show "goes_upstream d (ToBytes mr')
             [SessionHeader \<mapsto> ie_SessionID entry, MCPServerNameHeader \<mapsto> ie_ServerName entry]"
            using assms None Inr e
            by (auto simp: routeElicitationResponse_def Let_def goes_upstream_def empty_Decision_def)
        qed (use assms None Inr e in \<open>auto simp: routeElicitationResponse_def Let_def\<close>)
      next
        case False
        with assms None Inr failed show thesis
          by (auto simp: routeElicitationResponse_def Let_def split: option.splits if_splits)
      qed
    qed
  qed
qed

lemma routeBrokerPassthrough_cases:
  assumes "routeBrokerPassthrough E r mr = (r', mr', d)"
  obtains (failed) "rejected d"
  | (broker) "de_BrokerPass d" "de_Error d = None" "de_BodyMutation d = None" "de_Authority d = []"
  | (hairpin) jm where "de_Error d = None" "de_BodyMutation d = None" "\<not> de_BrokerPass d"
      "IsInitializeRequest mr" "ro_JWTManager r = Some jm"
      "de_Authority d = GetSingleHeaderValue mr InitHostHeader"
      "ValidateBackendInitToken (en_JWT E) jm (en_Now E) (GetSingleHeaderValue mr RoutingKey)
         (de_Authority d) = None"
      "de_UnsetHeaders d = [InitHostHeader, RoutingKey] @ InternalOnlyHeaders"
proof (cases "IsInitializeRequest mr \<and> GetSingleHeaderValue mr InitHostHeader \<noteq> []")
  case False
  with assms broker show thesis
    by (auto simp: routeBrokerPassthrough_def Let_def empty_Decision_def)
next
  case True
  show thesis
  proof (cases "\<exists>jm. ro_JWTManager r = Some jm \<and> ValidateBackendInitToken (en_JWT E) jm (en_Now E)
      (GetSingleHeaderValue mr RoutingKey) (GetSingleHeaderValue mr InitHostHeader) = None")
    case valid: True
    with True assms hairpin show thesis
      by (auto simp: routeBrokerPassthrough_def Let_def empty_Decision_def)
  next
    case invalid: False
    with True assms failed show thesis
      by (auto simp: routeBrokerPassthrough_def Let_def split: option.splits)
  qed
qed

text \<open>The headers that the router sets on the way to a server are not internal ones.\<close>

lemma tool_headers_internal:
  "name \<in> set InternalOnlyHeaders \<Longrightarrow> tool_headers t si n m name = None"
  by (auto simp: tool_headers_def InternalOnlyHeaders_def header_names Let_def split: option.splits)

lemma internal_distinct:
  "name \<in> set InternalOnlyHeaders \<Longrightarrow>
     name \<notin> {SessionHeader, AuthorizationHeader, MethodHeader, PromptHeader, MCPServerNameHeader,
              ''content-length''}"
  by (auto simp: InternalOnlyHeaders_def header_names)

lemma RouteRequest_cases:
  assumes "RouteRequest E r (Some mr) = (r', parsed', d)"
  obtains (elicitation) mr' where "routeElicitationResponse E r mr = (r', mr', d)" "parsed' = Some mr'"
  | (tool) mr' where "routeToolCall E r mr = (r', mr', d)" "parsed' = Some mr'"
      "mr_Method mr = MethodToolCall"
  | (prompt) mr' where "routePromptGet E r mr = (r', mr', d)" "parsed' = Some mr'"
      "mr_Method mr = MethodPromptGet"
  | (pass) mr' where "routeBrokerPassthrough E r mr = (r', mr', d)" "parsed' = Some mr'"
  using assms by (auto simp: RouteRequest_def Let_def split: prod.splits if_splits)

section \<open>Properties\<close>

text \<open>
  C1: nothing leaves the gateway without authentication. A request that the router does not reject
  goes to the broker, or goes to a server (or to the token page) under a session id that the JWT
  manager validated, or is the router's own initialisation of a backend, with a token that was
  validated for exactly the host it is sent to.
\<close>

theorem routed_requests_are_authenticated:
  assumes "RouteRequest E r (Some mr) = (r', parsed', d)" and "de_Error d = None"
  shows "de_BrokerPass d \<or>
     (\<exists>jm. ro_JWTManager r = Some jm \<and>
       (GetSessionID mr \<noteq> [] \<and> Validate (en_JWT E) jm (en_Now E) (GetSessionID mr) = (False, None) \<or>
        IsInitializeRequest mr \<and> de_BodyMutation d = None \<and>
        ValidateBackendInitToken (en_JWT E) jm (en_Now E) (GetSingleHeaderValue mr RoutingKey)
          (de_Authority d) = None))"
proof -
  have no: "\<not> rejected d" using assms(2) by (simp add: rejected_def)
  have pass: ?thesis if "routeBrokerPassthrough E r mr = (r', mr', d)" for mr'
    using that by (cases rule: routeBrokerPassthrough_cases) (use no in auto)
  from assms(1) show ?thesis
  proof (cases rule: RouteRequest_cases)
    case (elicitation mr')
    from this(1) show ?thesis
      by (cases rule: routeElicitationResponse_cases) (use no session_ok in blast)+
  next
    case (tool mr')
    from this(1) show ?thesis
      by (cases rule: routeToolCall_cases) (use no session_ok pass in blast)+
  next
    case (prompt mr')
    from this(1) show ?thesis
      by (cases rule: routePromptGet_cases) (use no session_ok in blast)+
  next
    case (pass mr')
    with \<open>\<And>mr'. routeBrokerPassthrough E r mr = (r', mr', d) \<Longrightarrow> _\<close> show ?thesis by blast
  qed
qed

text \<open>
  C24: a request that the router sends to a server with a new body announces the length of exactly
  that body, has the gateway's internal headers removed, and sets none of them.
\<close>

theorem upstream_requests_are_wellformed:
  assumes "RouteRequest E r (Some mr) = (r', parsed', d)" and "de_BodyMutation d = Some body"
  shows "de_Error d = None \<and> \<not> de_BrokerPass d \<and>
         de_SetHeaders d ''content-length'' = Some (Itoa (length body)) \<and>
         de_UnsetHeaders d = InternalOnlyHeaders \<and>
         (\<forall>name \<in> set InternalOnlyHeaders. de_SetHeaders d name = None)"
proof -
  have fin: ?thesis if "goes_upstream d b h" "\<forall>name \<in> set InternalOnlyHeaders. h name = None" for b h
    using that assms(2) internal_distinct by (auto simp: goes_upstream_def)
  have no: "\<not> rejected d" using assms(2) by (simp add: rejected_def)
  have pass: False if "routeBrokerPassthrough E r mr = (r', mr', d)" for mr'
    using that by (cases rule: routeBrokerPassthrough_cases) (use no assms(2) in auto)
  from assms(1) show ?thesis
  proof (cases rule: RouteRequest_cases)
    case (elicitation mr')
    from this(1) show ?thesis
    proof (cases rule: routeElicitationResponse_cases)
      case (sent entry cfg)
      from sent(6) show ?thesis by (rule fin) (use internal_distinct in auto)
    qed (use no in blast)
  next
    case (tool mr')
    from this(1) show ?thesis
    proof (cases rule: routeToolCall_cases)
      case (sent route t h ro)
      from sent(4) show ?thesis
        by (rule fin) (use sent(6) tool_headers_internal internal_distinct in auto)
    qed (use no pass assms(2) in auto)
  next
    case (prompt mr')
    from this(1) show ?thesis
    proof (cases rule: routePromptGet_cases)
      case (sent route t)
      from sent(4) show ?thesis by (rule fin) (use internal_distinct in auto)
    qed (use no in blast)
  next
    case (pass mr')
    with \<open>\<And>mr'. routeBrokerPassthrough E r mr = (r', mr', d) \<Longrightarrow> False\<close> show ?thesis by blast
  qed
qed

subsection \<open>What the server receives\<close>

lemma insert_key_elems: "set (insert_key k v kvs) \<subseteq> insert (k, v) (set kvs)"
  by (induction k v kvs rule: insert_key.induct) auto

lemma foldr_max_mono:
  "0 < (n::nat) \<Longrightarrow> foldr (\<lambda>x. max (g x)) xs 0 < n \<longleftrightarrow> (\<forall>x \<in> set xs. g x < n)"
  by (induction xs) auto

lemma members_ok_insert:
  assumes "members_ok f (Some ps)" and "ascii t"
  shows "members_ok f (Some (insert_key ''name'' (JStr t) ps))"
proof -
  have sub: "set (insert_key ''name'' (JStr t) ps) \<subseteq> insert (''name'', JStr t) (set ps)"
    by (rule insert_key_elems)
  have "insert_key ''name'' (JStr t) ps \<noteq> []" by (cases ps) (auto split: if_splits)
  moreover have "json_depth (JObj (insert_key ''name'' (JStr t) ps)) < maxNestingDepth"
  proof -
    obtain N where N: "maxNestingDepth = Suc N" "0 < N" by (simp add: maxNestingDepth_def)
    have "foldr (\<lambda>kv. max (json_depth (snd kv))) ps 0 < N"
      using assms(1) N(1) by (simp add: members_ok_def)
    then have "\<forall>kv \<in> set ps. json_depth (snd kv) < N" by (simp add: foldr_max_mono[OF N(2)])
    then have "\<forall>kv \<in> set (insert_key ''name'' (JStr t) ps). json_depth (snd kv) < N"
      using sub N(2) by auto
    then show ?thesis by (simp add: foldr_max_mono[OF N(2)] N(1))
  qed
  ultimately show ?thesis
    using assms sub
    by (auto simp: members_ok_def sorted_insert_key list_all_iff dest!: subsetD[OF sub])
qed

lemma request_ok_rewrite:
  assumes "request_ok f mr" and "mr_Params mr = Some ps" and "ascii t"
  shows "request_ok f (ReWriteToolName t mr)"
  using assms members_ok_insert[of f ps t] by (simp add: request_ok_def ReWriteToolName_def)

lemma CutPrefix_ascii: "ascii s \<Longrightarrow> ascii (fst (CutPrefix s p))"
  by (auto simp: CutPrefix_def ascii_def dest: in_set_dropD)

lemma ToolName_ascii:
  assumes "request_ok f mr" and "ToolName mr \<noteq> []"
  shows "ascii (ToolName mr)" "\<exists>ps. mr_Params mr = Some ps"
proof -
  obtain ps where ps: "mr_Params mr = Some ps" "map_of ps ''name'' = Some (JStr (ToolName mr))"
    using assms(2) by (auto simp: ToolName_def param_def split: if_splits option.splits json.splits)
  then have "json_plain (JObj ps)" "(''name'', JStr (ToolName mr)) \<in> set ps"
    using assms(1) by (auto simp: request_ok_def members_ok_def dest: map_of_SomeD)
  then show "ascii (ToolName mr)" by (auto simp: list_all_iff)
  show "\<exists>ps. mr_Params mr = Some ps" using ps by blast
qed


text \<open>
  C23: the answer to an elicitation reaches the backend that asked, once. With the gateway ids in
  memory: an answer for a gateway id that belongs to another session is refused with 403 and changes
  nothing; an answer that is accepted carries the backend's own request id and session, and the same
  answer sent again, at whatever time, is never accepted again.
\<close>

theorem elicitation_answered_once:
  assumes mem: "ro_ElicitationMap r = MemoryIDs ids" and ans: "IsElicitationResponse mr"
    and routed: "RouteRequest E r (Some mr) = (r', Some mr', d)"
  shows "(\<forall>entry. idmap_Lookup ids (go_Sprint (en_SprintNumber E) (mr_ID mr)) = Some entry \<longrightarrow>
            ie_GatewaySessionID entry \<noteq> GetSessionID mr \<longrightarrow>
            r' = r \<and> rejected d \<and>
            (session_rejection (validateSession E r (GetSessionID mr)) = None \<longrightarrow>
              d = reject 403 ''session mismatch'')) \<and>
         (de_Error d = None \<longrightarrow>
            (\<exists>entry. idmap_Lookup ids (go_Sprint (en_SprintNumber E) (mr_ID mr)) = Some entry \<and>
               ie_GatewaySessionID entry = GetSessionID mr \<and> mr_ID mr' = ie_BackendID entry \<and>
               de_BodyMutation d = Some (ToBytes mr') \<and>
               de_SetHeaders d SessionHeader = Some (ie_SessionID entry)) \<and>
            (\<forall>E2 r2 p2 d2. en_SprintNumber E2 = en_SprintNumber E \<longrightarrow>
               RouteRequest E2 r' (Some mr) = (r2, p2, d2) \<longrightarrow> rejected d2))"
proof -
  let ?gid = "go_Sprint (en_SprintNumber E) (mr_ID mr)"
  have er: "routeElicitationResponse E r mr = (r', mr', d)"
    using routed ans by (auto simp: RouteRequest_def Let_def split: prod.splits)
  have lk: "IDMap_Lookup E (ro_ElicitationMap r) ?gid = Inr (idmap_Lookup ids ?gid)"
    by (simp add: IDMap_Lookup_def mem)
  have replay: "rejected d2" if replayed: "ro_ElicitationMap r' = MemoryIDs (idmap_Remove ids ?gid)"
      "en_SprintNumber E2 = en_SprintNumber E" "RouteRequest E2 r' (Some mr) = (r2, p2, d2)" for E2 r2 p2 d2
  proof -
    have "IDMap_Lookup E2 (ro_ElicitationMap r') ?gid = Inr None"
      using replayed(1) by (simp add: IDMap_Lookup_def idmap_Lookup_def idmap_Remove_def)
    moreover obtain mr2 where "routeElicitationResponse E2 r' mr = (r2, mr2, d2)"
      using replayed(3) ans by (auto simp: RouteRequest_def Let_def split: prod.splits)
    ultimately show ?thesis
      using replayed(2) by (auto elim: routeElicitationResponse_cases)
  qed
  from er show ?thesis
  proof (cases rule: routeElicitationResponse_cases)
    case failed
    have "d = reject 403 ''session mismatch''"
      if "idmap_Lookup ids ?gid = Some entry" "ie_GatewaySessionID entry \<noteq> GetSessionID mr"
         "session_rejection (validateSession E r (GetSessionID mr)) = None" for entry
      using er that lk by (simp add: routeElicitationResponse_def Let_def)
    with failed show ?thesis by (auto simp: rejected_def)
  next
    case (sent entry cfg)
    have "de_SetHeaders d SessionHeader = Some (ie_SessionID entry)"
      "de_BodyMutation d = Some (ToBytes mr')"
      using sent(6) by (auto simp: goes_upstream_def header_names)
    moreover have "ro_ElicitationMap r' = MemoryIDs (idmap_Remove ids ?gid)"
      using sent(8) by (simp add: IDMap_Remove_def mem)
    ultimately show ?thesis using sent lk replay by auto
  qed
qed

subsection \<open>A router to run\<close>

definition sample_claims :: token_claims where
  "sample_claims =
     \<lparr>tc_IssuedAt = Some 0, tc_ExpiresAt = Some Hour, tc_NotBefore = Some 0, tc_Issuer = issuer,
      tc_Audience = [sessionAudience], tc_ID = ''j'', tc_Purpose = [], tc_Host = []\<rparr>"

definition sample_jwt :: jwt_lib where
  "sample_jwt =
     \<lparr>jwt_Sign = (\<lambda>_ _ _. Inr ''t''),
      jwt_Parse = (\<lambda>token _ _ _. if token = ''s'' then Inr (sample_claims, True) else Inl (JWTError [])),
      jwt_NumericDate = (\<lambda>t. t)\<rparr>"

definition sample_env :: "unit env" where
  "sample_env =
     \<lparr>en_Redis = no_redis, en_AEAD = no_aead, en_Random = None, en_Trunc = (\<lambda>_. None),
      en_Number = (\<lambda>n. n), en_SprintNumber = (\<lambda>n. n), en_JWT = sample_jwt,
      en_URLPath = (\<lambda>_. Some ''/mcp''), en_Now = 0, en_TokenUUID = ''u1'', en_ElicitUUID = ''u2'',
      en_InitForClient = (\<lambda>_ _ _ _. Inr ''up''), en_CacheErrorText = (\<lambda>_. []),
      en_TokenErrorText = (\<lambda>_. [])\<rparr>"

definition sample_config :: "unit MCPServersConfig" where
  "sample_config =
     \<lparr>cfg_Servers = [sample_server], cfg_VirtualServers = [], cfg_A2AAgents = [], cfg_observers = [],
      cfg_ExternalHostname = ''gw'', cfg_InternalHostname = ''gw-int'', cfg_GatewayCACertPEM = []\<rparr>"

definition sample_router :: "unit Router202511" where
  "sample_router =
     \<lparr>ro_RoutingConfig = sample_config,
      ro_Table = AddTool ''w_forecast'' (route_of (\<lambda>_. Some ''/mcp'') sample_server) NewTableBuilder,
      ro_PrefixOrder = [], ro_SessionCache = empty_cache, ro_JWTManager = Some sample_manager,
      ro_ElicitationMap = MemoryIDs [''g1'' \<mapsto> \<lparr>ie_BackendID = JStr ''b1'', ie_ServerName = ''weather'',
                                          ie_SessionID = ''up'', ie_GatewaySessionID = ''s''\<rparr>],
      ro_TokenElicitationMap = MemoryElicitations (newElicitMap 0), ro_ElicitationEnabled = False\<rparr>"

definition sample_call :: MCPRequest where
  "sample_call =
     empty_MCPRequest\<lparr>mr_ID := JStr ''1'', mr_JSONRPC := ''2.0'', mr_Method := ''tools/call'',
       mr_Params := Some [(''name'', JStr ''w_forecast'')], mr_Headers := [SessionHeader \<mapsto> ''s'']\<rparr>"

definition sample_answer :: MCPRequest where
  "sample_answer =
     empty_MCPRequest\<lparr>mr_ID := JStr ''g1'', mr_JSONRPC := ''2.0'',
       mr_Result := Some [(''action'', JStr ''accept'')], mr_Headers := [SessionHeader \<mapsto> ''s'']\<rparr>"

lemmas sample_defs =
  sample_router_def sample_env_def sample_jwt_def sample_call_def sample_answer_def sample_config_def
  sample_claims_def sample_manager_def sample_server_def empty_MCPRequest_def empty_cache_def
  NewCache_def NewTableBuilder_def AddTool_def route_of_def header_names

lemmas router_evaluation =
  RouteRequest_def routeToolCall_def routeToUpstream_def initializeMCPServerSession_def
  create_backend_session_def store_backend_session_def upstream_decision_def
  routeElicitationResponse_def validateSession_def session_rejection_def GetSessionID_def
  GetSingleHeaderValue_def get_or_empty_def GetSession_def GetClientElicitation_def AddSession_def
  put_field_def set_memory_def GetExpiresIn_def Validate_def GenerateBackendInitToken_def
  GetServerConfigByName_def LookupTool_def ToolAnnotations_def tool_headers_def routeToMCPServer_def
  ReWriteToolName_def ToolName_def IsToolCall_def IsElicitationResponse_def MethodToolCall_def
  param_def with_cache_def empty_Decision_def IDMap_Lookup_def idmap_Lookup_def

lemma sample_call_routed:
  "\<exists>r' mr' d body. RouteRequest sample_env sample_router (Some sample_call) = (r', Some mr', d) \<and>
     de_BodyMutation d = Some body \<and> de_Error d = None"
  by (simp add: sample_defs router_evaluation Let_def Hour_def Minute_def Second_def)

lemma sample_answer_routed:
  "\<exists>r' mr' d. RouteRequest sample_env sample_router (Some sample_answer) = (r', Some mr', d) \<and>
     de_Error d = None"
  by (simp add: sample_defs router_evaluation Let_def)

subsection \<open>Backend sessions\<close>

lemma GetUserToken_typed:
  assumes "typed_cache c" and "colon_free sid"
  shows "typed_cache (fst (GetUserToken R g trunc now c sid srv))"
proof -
  have "op_ok (OpGetUserToken now sid srv)" using assms(2) by simp
  from run_op_typed[OF assms(1) this] obtain c' where
    "run_op R g None trunc (OpGetUserToken now sid srv) c = (c', None)" "typed_cache c'" by blast
  then show ?thesis by (auto simp: map_prod_def split: prod.splits)
qed

lemma AddSession_stored:
  assumes "typed_cache c" and "colon_free sid" and "AddSession R c sid name i ttl = (c', res)"
  shows "\<exists>s. GetSession R c' sid = Inr s \<and> s name = Some i"
proof -
  obtain m where m: "ca_inmemory c = Some m" "typed_memory m"
    using assms(1) by (auto simp: typed_cache_def)
  with put_field_typed[OF m(2) assms(2), of name i] assms(3) show ?thesis
    by (auto simp: AddSession_def set_memory_def GetSession_def as_session_def)
qed

lemma find_server_name: "find_server n ss = Some s \<Longrightarrow> srv_Name s = n"
  by (induction ss) (auto split: if_splits)

lemma store_backend_session_stored:
  assumes "typed_cache (ro_SessionCache r)" and "colon_free (GetSessionID mr)"
    and "store_backend_session E r jm mr cfg i = (r', mr', Inr j)"
  shows "j = i \<and> (\<exists>s. GetSession (en_Redis E) (ro_SessionCache r') (GetSessionID mr) = Inr s \<and>
           s (srv_Name cfg) = Some i)"
  using assms(3) AddSession_stored[OF assms(1,2)]
  by (auto simp: store_backend_session_def Let_def with_cache_def
      split: prod.splits option.splits sum.splits if_splits)

lemma create_backend_session_stored:
  assumes "typed_cache (ro_SessionCache r)" and "colon_free (GetSessionID mr)"
    and "create_backend_session E r mr cfg = (r', mr', Inr j)"
  shows "\<exists>s. GetSession (en_Redis E) (ro_SessionCache r') (GetSessionID mr) = Inr s \<and>
             s (srv_Name cfg) = Some j"
proof -
  have sid: "GetSessionID (mr\<lparr>mr_ClientElicitation := b\<rparr>) = GetSessionID mr" for b
    by (simp add: GetSessionID_def)
  let ?token = "if ro_ElicitationEnabled r \<and> srv_TokenURLElicitation cfg \<noteq> None
     then GetUserToken (en_Redis E) (en_AEAD E) (en_Trunc E) (en_Now E) (ro_SessionCache r)
            (GetSessionID mr) (srv_Name cfg)
     else (ro_SessionCache r, Inr None)"
  obtain c token where token: "?token = (c, token)" by (cases ?token)
  have c: "typed_cache (ro_SessionCache (with_cache r c))"
    using arg_cong[OF token, of fst] assms(1)
      GetUserToken_typed[OF assms(1,2), of "en_Redis E" "en_AEAD E" "en_Trunc E" "en_Now E" "srv_Name cfg"]
    by (simp add: with_cache_def split: if_splits)
  obtain jm b i where stored: "store_backend_session E (with_cache r c) jm
      (mr\<lparr>mr_ClientElicitation := b\<rparr>) cfg i = (r', mr', Inr j)"
    using assms(3) unfolding create_backend_session_def Let_def token prod.case
    by (auto split: option.splits sum.splits if_splits)
  show ?thesis
    using store_backend_session_stored[OF c _ stored] assms(2) by (auto simp: sid)
qed

lemma routeToUpstream_remembers:
  assumes typed: "typed_cache (ro_SessionCache r)" and sid: "colon_free (GetSessionID mr)"
    and routed: "routeToUpstream E r mr si h = (r', mr', d)" and sent: "\<not> rejected d"
  shows "\<exists>s. GetSession (en_Redis E) (ro_SessionCache r') (GetSessionID mr) = Inr s \<and>
             s (mr_ServerName mr) = Some (mr_BackendSessionID mr')"
proof -
  obtain s where s: "GetSession (en_Redis E) (ro_SessionCache r) (GetSessionID mr) = Inr s"
    using routed sent by (cases "GetSession (en_Redis E) (ro_SessionCache r) (GetSessionID mr)")
      (auto simp: routeToUpstream_def)
  show ?thesis
  proof (cases "get_or_empty s (mr_ServerName mr) = []")
    case False
    then have "s (mr_ServerName mr) = Some (get_or_empty s (mr_ServerName mr))"
      by (simp add: get_or_empty_def split: option.splits)
    moreover have "r' = r" "mr_BackendSessionID mr' = get_or_empty s (mr_ServerName mr)"
      using routed s False upstream_decision_request[of E mr si h "get_or_empty s (mr_ServerName mr)"]
      by (auto simp: routeToUpstream_def Let_def)
    ultimately show ?thesis using s by simp
  next
    case True
    obtain r1 mr1 i where ini: "initializeMCPServerSession E r mr = (r1, mr1, Inr i)"
        and r': "r' = r1" and up: "(mr', d) = upstream_decision E mr1 si h i"
      using routed s True sent
      by (auto simp: routeToUpstream_def Let_def split: prod.splits sum.splits)
    have b: "mr_BackendSessionID mr' = i"
      using upstream_decision_request[of E mr1 si h i] up by (metis fst_conv MCPRequest.select_convs(9)
          MCPRequest.surjective MCPRequest.update_convs(9))
    obtain cfg where cfg: "GetServerConfigByName (ro_RoutingConfig r) (mr_ServerName mr) = Some cfg"
      using ini by (auto simp: initializeMCPServerSession_def split: option.splits)
    then have "srv_Name cfg = mr_ServerName mr"
      by (simp add: GetServerConfigByName_def find_server_name)
    then show ?thesis
      using ini cfg s r' b create_backend_session_stored[OF typed sid, of E cfg r1 mr1 i]
      by (auto simp: initializeMCPServerSession_def split: option.splits)
  qed
qed

definition remembers_session :: "'r env \<Rightarrow> 'r Router202511 \<Rightarrow> string \<Rightarrow> string \<Rightarrow> string \<Rightarrow> bool" where
  "remembers_session E r sid srv i \<longleftrightarrow>
     (case GetSession (en_Redis E) (ro_SessionCache r) sid of
        Inl _ \<Rightarrow> False
      | Inr s \<Rightarrow> s srv = Some i)"

lemma resolveUpstreamToken_typed:
  assumes "typed_cache (ro_SessionCache r)" and "colon_free (GetSessionID mr)"
  shows "typed_cache (ro_SessionCache (fst (resolveUpstreamToken E r mr si h)))"
  using assms GetUserToken_typed[OF assms, of "en_Redis E" "en_AEAD E" "en_Trunc E" "en_Now E" "srv_Name si"]
  by (auto simp: resolveUpstreamToken_def Let_def with_cache_def
      split: prod.splits option.splits sum.splits if_splits bool.splits)

text \<open>
  C25: a tool call or prompt request that is routed to an upstream server leaves the gateway session
  remembering the backend session it was sent under: the session cache afterwards maps the server
  the call was routed to, under the client's session, to exactly the identifier placed in the
  outgoing session header.  Whether the backend session was cached, found on the second look inside
  the initialisation, or freshly created, the next call of the session reuses it.
\<close>

theorem backend_session_is_remembered:
  assumes typed: "typed_cache (ro_SessionCache r)" and sid: "colon_free (GetSessionID mr)"
    and routed: "RouteRequest E r (Some mr) = (r', parsed', d)" and body: "de_BodyMutation d \<noteq> None"
    and meth: "mr_Method mr = MethodToolCall \<or> mr_Method mr = MethodPromptGet"
  shows "\<exists>srv i. de_SetHeaders d MCPServerNameHeader = Some srv \<and> de_SetHeaders d SessionHeader = Some i \<and>
           remembers_session E r' (GetSessionID mr) srv i"
proof -
  have no: "\<not> rejected d" using body by (auto simp: rejected_def)
  have "\<not> IsElicitationResponse mr" "MethodToolCall \<noteq> MethodPromptGet"
    using meth by (auto simp: IsElicitationResponse_def MethodToolCall_def MethodPromptGet_def)
  then consider (tool) mr' where "routeToolCall E r mr = (r', mr', d)"
    | (prompt) mr' where "routePromptGet E r mr = (r', mr', d)"
    using routed meth by (auto simp: RouteRequest_def Let_def split: prod.splits if_splits)
  then show ?thesis
  proof cases
    case tool
    then show ?thesis
    proof (cases rule: routeToolCall_cases)
      case (sent route t h ro)
      let ?mr = "ReWriteToolName t (mr\<lparr>mr_ServerName := sr_Name route\<rparr>)"
      have same: "GetSessionID ?mr = GetSessionID mr" "mr_ServerName ?mr = sr_Name route"
        by (simp_all add: ReWriteToolName_def GetSessionID_def)
      have ro: "typed_cache (ro_SessionCache ro)"
        using sent(8) typed resolveUpstreamToken_typed[of r ?mr] sid same by auto
      have "de_SetHeaders d MCPServerNameHeader = Some (sr_Name route)"
        "de_SetHeaders d SessionHeader = Some (mr_BackendSessionID mr')"
        using sent(4,6) by (auto simp: goes_upstream_def header_names tool_headers_def routeToMCPServer_def)
      with routeToUpstream_remembers[OF ro _ sent(7) no] sid same show ?thesis
        by (auto simp: remembers_session_def)
    qed (use no body in \<open>auto elim: routeBrokerPassthrough_cases\<close>)
  next
    case prompt
    then show ?thesis
    proof (cases rule: routePromptGet_cases)
      case (sent route t)
      let ?mr = "ReWritePromptName t (mr\<lparr>mr_ServerName := sr_Name route\<rparr>)"
      have same: "GetSessionID ?mr = GetSessionID mr" "mr_ServerName ?mr = sr_Name route"
        by (simp_all add: ReWritePromptName_def GetSessionID_def)
      have "de_SetHeaders d MCPServerNameHeader = Some (sr_Name route)"
        "de_SetHeaders d SessionHeader = Some (mr_BackendSessionID mr')"
        using sent(4) by (auto simp: goes_upstream_def header_names)
      with routeToUpstream_remembers[OF typed _ sent(6) no] sid same show ?thesis
        by (auto simp: remembers_session_def)
    qed (use no in blast)
  qed
qed

section \<open>Witnesses\<close>

lemma sample_call_ok: "request_ok Some sample_call" "mr_Method sample_call = MethodToolCall"
    "colon_free (GetSessionID sample_call)" "typed_cache (ro_SessionCache sample_router)"
  by (simp_all add: request_ok_def sample_defs members_ok_def MethodToolCall_def colon_free_def
      GetSessionID_def get_or_empty_def typed_cache_def typed_memory_def maxNestingDepth_def
      ascii_def sorted_map_def)

theorem routed_requests_are_authenticated_witness:
  "\<exists>r' mr' d. RouteRequest sample_env sample_router (Some sample_call) = (r', Some mr', d) \<and>
     de_Error d = None \<and>
     (de_BrokerPass d \<or>
       (\<exists>jm. ro_JWTManager sample_router = Some jm \<and>
         (GetSessionID sample_call \<noteq> [] \<and>
            Validate (en_JWT sample_env) jm (en_Now sample_env) (GetSessionID sample_call) = (False, None) \<or>
          IsInitializeRequest sample_call \<and> de_BodyMutation d = None \<and>
          ValidateBackendInitToken (en_JWT sample_env) jm (en_Now sample_env)
            (GetSingleHeaderValue sample_call RoutingKey) (de_Authority d) = None)))"
  using sample_call_routed routed_requests_are_authenticated by blast

theorem upstream_requests_are_wellformed_witness:
  "\<exists>r' mr' d body. RouteRequest sample_env sample_router (Some sample_call) = (r', Some mr', d) \<and>
     de_BodyMutation d = Some body \<and>
     de_SetHeaders d ''content-length'' = Some (Itoa (length body)) \<and>
     de_UnsetHeaders d = InternalOnlyHeaders"
  using sample_call_routed upstream_requests_are_wellformed by blast


theorem elicitation_answered_once_witness:
  "\<exists>r' mr' d. RouteRequest sample_env sample_router (Some sample_answer) = (r', Some mr', d) \<and>
     de_Error d = None \<and> mr_ID mr' = JStr ''b1'' \<and> de_SetHeaders d SessionHeader = Some ''up''"
proof -
  obtain r' mr' d where run: "RouteRequest sample_env sample_router (Some sample_answer) = (r', Some mr', d)"
    "de_Error d = None" using sample_answer_routed by blast
  have ids: "ro_ElicitationMap sample_router = MemoryIDs
      [''g1'' \<mapsto> \<lparr>ie_BackendID = JStr ''b1'', ie_ServerName = ''weather'', ie_SessionID = ''up'',
                 ie_GatewaySessionID = ''s''\<rparr>]"
    and ans: "IsElicitationResponse sample_answer"
    by (simp_all add: sample_defs IsElicitationResponse_def param_def)
  from elicitation_answered_once[OF ids ans run(1)] run show ?thesis
    by (auto simp: idmap_Lookup_def sample_answer_def empty_MCPRequest_def split: if_splits)
qed

theorem backend_session_is_remembered_witness:
  "\<exists>r' mr' d srv i. RouteRequest sample_env sample_router (Some sample_call) = (r', Some mr', d) \<and>
     de_SetHeaders d MCPServerNameHeader = Some srv \<and> de_SetHeaders d SessionHeader = Some i \<and>
     remembers_session sample_env r' (GetSessionID sample_call) srv i"
proof -
  obtain r' mr' d body where run: "RouteRequest sample_env sample_router (Some sample_call) = (r', Some mr', d)"
    "de_BodyMutation d = Some body" using sample_call_routed by blast
  then show ?thesis
    using backend_session_is_remembered[OF sample_call_ok(4,3) run(1)] sample_call_ok(2) by blast
qed

end
