(* ===== verification/SSE_Streams.thy ===== *)
theory SSE_Streams
  imports MCP_Router Go_Struct
begin

text \<open>
  Streamed response bodies: the rewriter of elicitation requests (\<open>mcp-router/elicitation.go\<close>) and
  the observer of A2A streams (\<open>mcp-router/a2a_sse.go\<close>). Both cut the stream into lines whatever
  chunks it arrives in.
\<close>

definition dataPrefix :: string where "dataPrefix = ''data:''"

definition is_event :: "string \<Rightarrow> bool" where
  "is_event line = HasPrefix (TrimSpace line) dataPrefix"

section \<open>Elicitation requests\<close>

record jsonRPCMessage =
  jm_JSONRPC :: string
  jm_Method :: string
  jm_ID :: json
  jm_Params :: string
  jm_Result :: string
  jm_Error :: string

definition decode_message :: "(string \<Rightarrow> string option) \<Rightarrow> string \<Rightarrow> jsonRPCMessage option" where
  "decode_message f64 s =
     (case json_Unmarshal s of
        Some (JObj kvs) \<Rightarrow>
          (case (to_any_list f64 (field_values ''id'' kvs), string_field ''jsonrpc'' kvs,
                 string_field ''method'' kvs) of
             (Some ids, Some v, Some m) \<Rightarrow>
               Some \<lparr>jm_JSONRPC = v, jm_Method = m, jm_ID = last (JNull # ids),
                     jm_Params = raw_field ''params'' s, jm_Result = raw_field ''result'' s,
                     jm_Error = raw_field ''error'' s\<rparr>
           | _ \<Rightarrow> None)
      | Some JNull \<Rightarrow>
          Some \<lparr>jm_JSONRPC = [], jm_Method = [], jm_ID = JNull, jm_Params = [], jm_Result = [],
                jm_Error = []\<rparr>
      | _ \<Rightarrow> None)"

definition raw_member_text :: "string \<Rightarrow> string \<Rightarrow> string" where
  "raw_member_text name raw =
     (if raw = [] then [] else '','' @ json_quote name @ '':'' @ compact False raw)"

text \<open>\<open>json.Marshal\<close> of a message; the raw messages come from the decoder, so it does not fail.\<close>

definition encode_message :: "jsonRPCMessage \<Rightarrow> string" where
  "encode_message m =
     ''{'' @ json_quote ''jsonrpc'' @ '':'' @ json_quote (jm_JSONRPC m)
     @ (if jm_Method m = [] then [] else '','' @ json_quote ''method'' @ '':'' @ json_quote (jm_Method m))
     @ (if jm_ID m = JNull then [] else '','' @ json_quote ''id'' @ '':'' @ json_encode (jm_ID m))
     @ raw_member_text ''params'' (jm_Params m) @ raw_member_text ''result'' (jm_Result m)
     @ raw_member_text ''error'' (jm_Error m) @ ''}''"

text \<open>
  The rewriter. Its last field is the number of identifiers it has drawn from \<open>uuid.NewString\<close>,
  whose values are the argument \<open>fresh\<close> of its operations; the id map is shared with the router.
\<close>

record sseRewriter =
  rw_buf :: string
  rw_req :: MCPRequest
  rw_gatewayIDs :: "string list"
  rw_drawn :: nat

type_synonym 'r rewriting = "sseRewriter \<times> 'r IDMap"

definition event_data :: "string \<Rightarrow> string" where
  "event_data line =
     (let jsonData = TrimPrefix (TrimSpace line) dataPrefix
      in case jsonData of c # rest \<Rightarrow> if c = CHR '' '' then rest else jsonData | [] \<Rightarrow> [])"

definition maybeRewriteElicitation ::
  "'r env \<Rightarrow> (string \<Rightarrow> string option) \<Rightarrow> (nat \<Rightarrow> string) \<Rightarrow> 'r rewriting \<Rightarrow> string \<Rightarrow>
   'r rewriting \<times> string" where
  "maybeRewriteElicitation E f64 fresh wm line =
     (let (w, idMap) = wm
      in case decode_message f64 (event_data line) of
           None \<Rightarrow> (wm, line)
         | Some msg \<Rightarrow>
             if jm_Method msg \<noteq> ''elicitation/create'' \<or> jm_ID msg = JNull then (wm, line)
             else
               (let w1 = w\<lparr>rw_drawn := Suc (rw_drawn w)\<rparr>
                in case IDMap_Store E idMap (fresh (rw_drawn w)) (jm_ID msg) (mr_ServerName (rw_req w))
                          (mr_BackendSessionID (rw_req w)) (GetSessionID (rw_req w)) of
                     (idMap', Inl _) \<Rightarrow> ((w1, idMap'), line)
                   | (idMap', Inr gatewayID) \<Rightarrow>
                       ((w1\<lparr>rw_gatewayIDs := rw_gatewayIDs w @ [gatewayID]\<rparr>, idMap'),
                        dataPrefix @ '' '' @ encode_message (msg\<lparr>jm_ID := JStr gatewayID\<rparr>)
                        @ [newline])))"

definition rewrite_line ::
  "'r env \<Rightarrow> (string \<Rightarrow> string option) \<Rightarrow> (nat \<Rightarrow> string) \<Rightarrow> 'r rewriting \<Rightarrow> string \<Rightarrow>
   'r rewriting \<times> string" where
  "rewrite_line E f64 fresh wm line =
     (if is_event line then maybeRewriteElicitation E f64 fresh wm line else (wm, line))"

lemma Cut_length: "Cut s c = (b, a, True) \<Longrightarrow> length a < length s"
  by (drule Cut_True) simp

text \<open>The loop of \<open>Process\<close> over the complete lines of the buffer.\<close>

function rewrite_lines ::
  "'r env \<Rightarrow> (string \<Rightarrow> string option) \<Rightarrow> (nat \<Rightarrow> string) \<Rightarrow> 'r rewriting \<Rightarrow> string \<Rightarrow>
   'r rewriting \<times> string \<times> string" where
  "rewrite_lines E f64 fresh wm buf =
     (case Cut buf newline of
        (before, after, found) \<Rightarrow>
          if \<not> found then (wm, [], buf)
          else
            (let (wm1, line) = rewrite_line E f64 fresh wm (before @ [newline]);
                 (wm2, output, rest) = rewrite_lines E f64 fresh wm1 after
             in (wm2, line @ output, rest)))"
  by pat_completeness auto
termination
  by (relation "measure (\<lambda>(E, f64, fresh, wm, buf). length buf)") (auto dest!: Cut_length[OF sym])

declare rewrite_lines.simps [simp del]

definition sse_Process ::
  "'r env \<Rightarrow> (string \<Rightarrow> string option) \<Rightarrow> (nat \<Rightarrow> string) \<Rightarrow> 'r rewriting \<Rightarrow> string \<Rightarrow>
   'r rewriting \<times> string" where
  "sse_Process E f64 fresh wm chunk =
     (let (w, idMap) = wm;
          ((w', idMap'), output, rest) = rewrite_lines E f64 fresh wm (rw_buf w @ chunk)
      in ((w'\<lparr>rw_buf := rest\<rparr>, idMap'), output))"

fun remove_ids :: "'r env \<Rightarrow> string list \<Rightarrow> 'r IDMap \<Rightarrow> 'r IDMap" where
  "remove_ids E [] m = m"
| "remove_ids E (i # is) m = remove_ids E is (IDMap_Remove E m i)"

definition sse_Flush ::
  "'r env \<Rightarrow> (string \<Rightarrow> string option) \<Rightarrow> (nat \<Rightarrow> string) \<Rightarrow> 'r rewriting \<Rightarrow> 'r rewriting \<times> string" where
  "sse_Flush E f64 fresh wm =
     (let (w, idMap) = wm; remaining = rw_buf w; wm0 = (w\<lparr>rw_buf := []\<rparr>, idMap);
          ((w1, idMap1), remaining') =
            (if remaining \<noteq> [] then rewrite_line E f64 fresh wm0 remaining else (wm0, remaining))
      in ((w1\<lparr>rw_gatewayIDs := []\<rparr>, remove_ids E (rw_gatewayIDs w1) idMap1), remaining'))"

section \<open>A2A streams\<close>

text \<open>\<open>a2aStreamEnvelope\<close>: whether the values fit its fields, and the three alternatives of a result.\<close>

definition status_ok :: "json \<Rightarrow> bool" where
  "status_ok v = struct_ok (strings_ok [''state'']) v"

definition task_ok :: "json \<Rightarrow> bool" where
  "task_ok v =
     struct_ok (\<lambda>kvs. strings_ok [''id'', ''contextId''] kvs \<and>
                      list_all status_ok (field_values ''status'' kvs)) v"

definition statusUpdate_ok :: "json \<Rightarrow> bool" where
  "statusUpdate_ok v =
     struct_ok (\<lambda>kvs. strings_ok [''taskId'', ''contextId''] kvs \<and>
                      list_all status_ok (field_values ''status'' kvs)) v"

definition artifactUpdate_ok :: "json \<Rightarrow> bool" where
  "artifactUpdate_ok v = struct_ok (strings_ok [''taskId'', ''contextId'']) v"

definition result_ok :: "json \<Rightarrow> bool" where
  "result_ok v =
     struct_ok (\<lambda>kvs. list_all task_ok (field_values ''task'' kvs) \<and>
                      list_all statusUpdate_ok (field_values ''statusUpdate'' kvs) \<and>
                      list_all artifactUpdate_ok (field_values ''artifactUpdate'' kvs)) v"

definition envelope_ok :: "json \<Rightarrow> bool" where
  "envelope_ok v = struct_ok (\<lambda>kvs. list_all result_ok (field_values ''result'' kvs)) v"

definition state_of :: "(string \<times> json) list \<Rightarrow> string" where
  "state_of kvs = string_of ''state'' (struct_members (field_values ''status'' kvs))"

text \<open>The task id, context id and state of an event; None when the event has none of the three.\<close>

definition event_ids :: "json \<Rightarrow> (string \<times> string \<times> string) option" where
  "event_ids env =
     (let result = struct_members (field_values ''result'' (struct_members [env]));
          field = (\<lambda>name. pointer_members None (field_values name result))
      in case field ''task'' of
           Some t \<Rightarrow> Some (string_of ''id'' t, string_of ''contextId'' t, state_of t)
         | None \<Rightarrow>
             (case field ''statusUpdate'' of
                Some u \<Rightarrow> Some (string_of ''taskId'' u, string_of ''contextId'' u, state_of u)
              | None \<Rightarrow>
                  (case field ''artifactUpdate'' of
                     Some a \<Rightarrow> Some (string_of ''taskId'' a, string_of ''contextId'' a, [])
                   | None \<Rightarrow> None)))"

text \<open>The last field collects the events the observer adds to the log and the span.\<close>

record a2aSSEObserver =
  ob_buf :: string
  ob_agent :: string
  ob_requestID :: string
  ob_taskID :: string
  ob_contextID :: string
  ob_lastState :: string
  ob_events :: "(string \<times> string \<times> string) list"

definition note_event :: "a2aSSEObserver \<Rightarrow> string \<Rightarrow> string \<Rightarrow> string \<Rightarrow> a2aSSEObserver" where
  "note_event ob taskID contextID state =
     (let ob1 = (if ob_taskID ob = [] \<and> taskID \<noteq> [] then ob\<lparr>ob_taskID := taskID\<rparr> else ob);
          ob2 = (if ob_contextID ob1 = [] \<and> contextID \<noteq> []
                 then ob1\<lparr>ob_contextID := contextID\<rparr> else ob1)
      in if state \<noteq> [] \<and> state = ob_lastState ob2 then ob2
         else ob2\<lparr>ob_lastState := state,
                  ob_events := ob_events ob2 @ [(taskID, contextID, state)]\<rparr>)"

definition observe :: "a2aSSEObserver \<Rightarrow> string \<Rightarrow> a2aSSEObserver" where
  "observe ob line =
     (case json_Unmarshal (TrimSpace (TrimPrefix (TrimSpace line) dataPrefix)) of
        None \<Rightarrow> ob
      | Some env \<Rightarrow>
          if \<not> envelope_ok env then ob
          else
            (case event_ids env of
               None \<Rightarrow> ob
             | Some (taskID, contextID, state) \<Rightarrow>
                 if taskID = [] \<and> contextID = [] then ob
                 else note_event ob taskID contextID state))"

definition observe_line :: "a2aSSEObserver \<Rightarrow> string \<Rightarrow> a2aSSEObserver" where
  "observe_line ob line = (if is_event line then observe ob line else ob)"

function observe_lines :: "a2aSSEObserver \<Rightarrow> string \<Rightarrow> a2aSSEObserver \<times> string" where
  "observe_lines ob buf =
     (case Cut buf newline of
        (before, after, found) \<Rightarrow>
          if \<not> found then (ob, buf)
          else observe_lines (observe_line ob (before @ [newline])) after)"
  by pat_completeness auto
termination
  by (relation "measure (\<lambda>(ob, buf). length buf)") (auto dest!: Cut_length[OF sym])

declare observe_lines.simps [simp del]

definition observer_Process :: "a2aSSEObserver \<Rightarrow> string \<Rightarrow> a2aSSEObserver" where
  "observer_Process ob chunk =
     (let (ob', rest) = observe_lines ob (ob_buf ob @ chunk) in ob'\<lparr>ob_buf := rest\<rparr>)"

definition observer_Flush :: "a2aSSEObserver \<Rightarrow> a2aSSEObserver" where
  "observer_Flush ob =
     (let remaining = ob_buf ob; ob0 = ob\<lparr>ob_buf := []\<rparr>
      in if remaining \<noteq> [] then observe_line ob0 remaining else ob0)"

section \<open>Line by line\<close>

text \<open>
  The reference: the complete lines of a text, each with its newline, and what is left over; a state
  taken through the lines.
\<close>

fun split_lines :: "string \<Rightarrow> string list \<times> string" where
  "split_lines [] = ([], [])"
| "split_lines (c # s) =
     (case split_lines s of
        (ls, rest) \<Rightarrow>
          if c = newline then ([c] # ls, rest)
          else (case ls of [] \<Rightarrow> ([], c # rest) | l # ls' \<Rightarrow> ((c # l) # ls', rest)))"

fun through :: "('s \<Rightarrow> string \<Rightarrow> 's \<times> string) \<Rightarrow> 's \<Rightarrow> string list \<Rightarrow> 's \<times> string" where
  "through step st [] = (st, [])"
| "through step st (l # ls) =
     (let (st1, out) = step st l; (st2, outs) = through step st1 ls in (st2, out @ outs))"

text \<open>A text that arrives in chunks, what is left of one chunk put before the next.\<close>

fun feed ::
  "('s \<Rightarrow> string \<Rightarrow> 's \<times> string \<times> string) \<Rightarrow> 's \<Rightarrow> string \<Rightarrow> string list \<Rightarrow> 's \<times> string \<times> string"
where
  "feed run st buf [] = (st, [], buf)"
| "feed run st buf (c # cs) =
     (let (st1, out, rest) = run st (buf @ c); (st2, outs, rest') = feed run st1 rest cs
      in (st2, out @ outs, rest'))"

lemma split_lines_none: "newline \<notin> set s \<Longrightarrow> split_lines s = ([], s)"
  by (induction s) auto

lemma split_lines_line:
  "newline \<notin> set b \<Longrightarrow>
     split_lines (b @ newline # a) = (case split_lines a of (ls, rest) \<Rightarrow> ((b @ [newline]) # ls, rest))"
  by (induction b) (auto split: prod.splits list.splits)

lemma split_lines_concat: "concat (fst (split_lines s)) @ snd (split_lines s) = s"
  by (induction s) (auto split: prod.splits list.splits)

lemma text_cases:
  fixes s :: string
  obtains (none) "newline \<notin> set s" | (line) b a where "s = b @ newline # a" "newline \<notin> set b"
  using split_list_first[of newline s] by blast

locale line_loop =
  fixes step :: "'s \<Rightarrow> string \<Rightarrow> 's \<times> string"
    and run :: "'s \<Rightarrow> string \<Rightarrow> 's \<times> string \<times> string"
  assumes run_none: "newline \<notin> set s \<Longrightarrow> run st s = (st, [], s)"
    and run_line: "newline \<notin> set b \<Longrightarrow> run st (b @ newline # a) =
      (let (st1, out) = step st (b @ [newline]); (st2, outs, rest) = run st1 a in (st2, out @ outs, rest))"
begin

lemma run_lines:
  "run st s = (let (ls, rest) = split_lines s; (st', out) = through step st ls in (st', out, rest))"
proof (induction "length s" arbitrary: st s rule: less_induct)
  case less
  show ?case
  proof (cases s rule: text_cases)
    case none
    then show ?thesis by (simp add: run_none split_lines_none)
  next
    case (line b a)
    with less[of a] show ?thesis
      by (simp add: run_line split_lines_line split: prod.splits)
  qed
qed

lemma run_rest: "newline \<notin> set (snd (snd (run st s)))"
proof (induction "length s" arbitrary: st s rule: less_induct)
  case less
  show ?case
  proof (cases s rule: text_cases)
    case none
    then show ?thesis by (simp add: run_none)
  next
    case (line b a)
    with less[of a] show ?thesis by (auto simp: run_line split: prod.splits) (metis snd_conv)
  qed
qed

lemma run_append:
  "run st (s @ t) =
     (let (st1, out, rest) = run st s; (st2, outs, rest') = run st1 (rest @ t) in (st2, out @ outs, rest'))"
proof (induction "length s" arbitrary: st s rule: less_induct)
  case less
  show ?case
  proof (cases s rule: text_cases)
    case none
    then show ?thesis by (simp add: run_none split: prod.splits)
  next
    case (line b a)
    with less[of a] show ?thesis by (simp add: run_line split: prod.splits)
  qed
qed

theorem feed_concat:
  assumes "newline \<notin> set buf"
  shows "feed run st buf cs = run st (buf @ concat cs)"
  using assms
proof (induction cs arbitrary: st buf)
  case Nil
  then show ?case by (simp add: run_none)
next
  case (Cons c cs)
  have "newline \<notin> set (snd (snd (run st (buf @ c))))" by (rule run_rest)
  then show ?case
    using Cons.IH run_append[of st "buf @ c" "concat cs"] by (auto split: prod.splits)
qed

end

interpretation rewriting: line_loop "rewrite_line E f64 fresh" "rewrite_lines E f64 fresh"
  for E :: "'r env" and f64 fresh
  by unfold_locales
    (subst rewrite_lines.simps, simp add: Cut_absent Cut_found split: prod.splits)+

definition observe_step :: "a2aSSEObserver \<Rightarrow> string \<Rightarrow> a2aSSEObserver \<times> string" where
  "observe_step ob line = (observe_line ob line, [])"

definition observe_run :: "a2aSSEObserver \<Rightarrow> string \<Rightarrow> a2aSSEObserver \<times> string \<times> string" where
  "observe_run ob s = (case observe_lines ob s of (ob', rest) \<Rightarrow> (ob', [], rest))"

interpretation observing: line_loop observe_step observe_run
  by unfold_locales
    (simp_all add: observe_run_def observe_step_def observe_lines.simps Cut_absent Cut_found
      split: prod.splits)

section \<open>Whole streams\<close>

definition new_rewriter :: "MCPRequest \<Rightarrow> sseRewriter" where
  "new_rewriter req = \<lparr>rw_buf = [], rw_req = req, rw_gatewayIDs = [], rw_drawn = 0\<rparr>"

text \<open>The chunks of a stream through \<open>Process\<close>, then \<open>Flush\<close>: what reaches the client.\<close>

fun rewrite_chunks ::
  "'r env \<Rightarrow> (string \<Rightarrow> string option) \<Rightarrow> (nat \<Rightarrow> string) \<Rightarrow> 'r rewriting \<Rightarrow> string list \<Rightarrow>
   'r rewriting \<times> string" where
  "rewrite_chunks E f64 fresh wm [] = (wm, [])"
| "rewrite_chunks E f64 fresh wm (c # cs) =
     (let (wm1, out) = sse_Process E f64 fresh wm c; (wm2, outs) = rewrite_chunks E f64 fresh wm1 cs
      in (wm2, out @ outs))"

definition rewrite_stream ::
  "'r env \<Rightarrow> (string \<Rightarrow> string option) \<Rightarrow> (nat \<Rightarrow> string) \<Rightarrow> 'r rewriting \<Rightarrow> string list \<Rightarrow>
   'r rewriting \<times> string" where
  "rewrite_stream E f64 fresh wm cs =
     (let (wm1, out) = rewrite_chunks E f64 fresh wm cs; (wm2, remaining) = sse_Flush E f64 fresh wm1
      in (wm2, out @ remaining))"

text \<open>The reference: the lines of the whole text one by one, the last one possibly incomplete.\<close>

definition rewrite_whole ::
  "'r env \<Rightarrow> (string \<Rightarrow> string option) \<Rightarrow> (nat \<Rightarrow> string) \<Rightarrow> 'r rewriting \<Rightarrow> string \<Rightarrow>
   'r rewriting \<times> string" where
  "rewrite_whole E f64 fresh wm s =
     (let (ls, rest) = split_lines s;
          ((w, m), out) = through (rewrite_line E f64 fresh) wm (ls @ (if rest = [] then [] else [rest]))
      in ((w\<lparr>rw_gatewayIDs := []\<rparr>, remove_ids E (rw_gatewayIDs w) m), out))"

definition with_buf :: "string \<Rightarrow> 'r rewriting \<Rightarrow> 'r rewriting" where
  "with_buf b wm = ((fst wm)\<lparr>rw_buf := b\<rparr>, snd wm)"

lemma with_buf_simps [simp]:
  "with_buf b (with_buf c wm) = with_buf b wm" "with_buf (rw_buf (fst wm)) wm = wm"
  "rw_buf (fst (with_buf b wm)) = b"
  by (simp_all add: with_buf_def)

lemma rewrite_line_buf:
  "rewrite_line E f64 fresh (with_buf b wm) line =
     (let (wm', out) = rewrite_line E f64 fresh wm line in (with_buf b wm', out))"
  by (cases wm)
    (auto simp: rewrite_line_def maybeRewriteElicitation_def with_buf_def Let_def
      split: option.splits prod.splits sum.splits)

lemma rewrite_lines_buf:
  "rewrite_lines E f64 fresh (with_buf b wm) s =
     (let (wm', out, rest) = rewrite_lines E f64 fresh wm s in (with_buf b wm', out, rest))"
proof (induction "length s" arbitrary: wm s rule: less_induct)
  case less
  show ?case
  proof (cases s rule: text_cases)
    case none
    then show ?thesis by (simp add: rewriting.run_none)
  next
    case (line x a)
    with less[of a] show ?thesis
      by (simp add: rewriting.run_line rewrite_line_buf case_prod_unfold Let_def)
  qed
qed

lemma sse_Process_eq:
  "sse_Process E f64 fresh wm chunk =
     (let (wm', out, rest) = rewrite_lines E f64 fresh wm (rw_buf (fst wm) @ chunk)
      in (with_buf rest wm', out))"
  by (cases wm) (simp add: sse_Process_def with_buf_def split: prod.splits)

lemma sse_Process_append:
  "sse_Process E f64 fresh wm (s @ t) =
     (let (wm1, out) = sse_Process E f64 fresh wm s; (wm2, outs) = sse_Process E f64 fresh wm1 t
      in (wm2, out @ outs))"
  using rewriting.run_append[of E f64 fresh wm "rw_buf (fst wm) @ s" t]
  by (simp add: sse_Process_eq rewrite_lines_buf case_prod_unfold Let_def)

lemma sse_Process_Nil: "newline \<notin> set (rw_buf (fst wm)) \<Longrightarrow> sse_Process E f64 fresh wm [] = (wm, [])"
  by (simp add: sse_Process_eq rewriting.run_none)

lemma sse_Process_buf: "newline \<notin> set (rw_buf (fst (fst (sse_Process E f64 fresh wm c))))"
  using rewriting.run_rest[of E f64 fresh wm "rw_buf (fst wm) @ c"]
  by (auto simp: sse_Process_eq split: prod.splits)

lemma rewrite_chunks_concat:
  "newline \<notin> set (rw_buf (fst wm)) \<Longrightarrow>
     rewrite_chunks E f64 fresh wm cs = sse_Process E f64 fresh wm (concat cs)"
proof (induction cs arbitrary: wm)
  case (Cons c cs)
  then show ?case
    using sse_Process_buf[of E f64 fresh wm c]
    by (simp add: sse_Process_append case_prod_unfold Let_def)
qed (simp add: sse_Process_Nil)

lemma through_append:
  "through step st (ls @ ls') =
     (let (st1, out) = through step st ls; (st2, outs) = through step st1 ls' in (st2, out @ outs))"
  by (induction ls arbitrary: st) (simp_all add: case_prod_unfold Let_def)

lemma through_buf:
  "through (rewrite_line E f64 fresh) (with_buf b wm) ls =
     (let (wm', out) = through (rewrite_line E f64 fresh) wm ls in (with_buf b wm', out))"
  by (induction ls arbitrary: wm) (simp_all add: rewrite_line_buf case_prod_unfold Let_def)

lemma through_keeps_buf:
  "rw_buf (fst (fst (through (rewrite_line E f64 fresh) wm ls))) = rw_buf (fst wm)"
  using arg_cong[OF through_buf[of E f64 fresh "rw_buf (fst wm)" wm ls], of "\<lambda>x. rw_buf (fst (fst x))"]
  by (simp add: case_prod_unfold Let_def)

lemma rewrite_stream_whole:
  "rewrite_stream E f64 fresh (new_rewriter req, m) cs =
     rewrite_whole E f64 fresh (new_rewriter req, m) (concat cs)"
proof -
  let ?wm = "(new_rewriter req, m)" and ?s = "concat cs"
  obtain ls rest where sl: "split_lines ?s = (ls, rest)" by (cases "split_lines ?s")
  obtain w1 m1 out where th: "through (rewrite_line E f64 fresh) ?wm ls = ((w1, m1), out)"
    by (metis prod.exhaust)
  have buf: "rw_buf w1 = []"
    using through_keeps_buf[of E f64 fresh ?wm ls] th by (simp add: new_rewriter_def)
  have "rewrite_chunks E f64 fresh ?wm cs = (with_buf rest (w1, m1), out)"
    using rewrite_chunks_concat[of ?wm E f64 fresh cs] sl th rewriting.run_lines[of E f64 fresh ?wm ?s]
    by (simp add: sse_Process_eq) (simp add: new_rewriter_def)
  moreover have "w1\<lparr>rw_buf := []\<rparr> = w1" using buf by (cases w1) simp
  ultimately show ?thesis
    using sl th
    by (simp add: rewrite_stream_def rewrite_whole_def sse_Flush_def with_buf_def through_append
        split: prod.splits)
qed

text \<open>
  C31: the rewriting of a streamed response does not depend on how the transport cuts it. Whatever
  chunks a response arrives in, the client receives, and the id map ends with, what rewriting the
  lines of the whole response one after the other gives, an unterminated last line included.
\<close>

theorem stream_rewriting_is_linewise:
  "rewrite_stream E f64 fresh (new_rewriter req, m) cs =
     rewrite_whole E f64 fresh (new_rewriter req, m) (concat cs)"
  by (rule rewrite_stream_whole)

section \<open>Identifiers of a stream\<close>

text \<open>The map of a stream is the map it began with and the entries of its own identifiers.\<close>

definition only_own :: "id_memory \<Rightarrow> 'r rewriting \<Rightarrow> bool" where
  "only_own ids wm \<longleftrightarrow>
     (\<exists>ids'. snd wm = MemoryIDs ids' \<and> (\<forall>i. i \<notin> set (rw_gatewayIDs (fst wm)) \<longrightarrow> ids' i = ids i))"

lemma rewrite_line_own:
  assumes "only_own ids wm" and "rewrite_line E f64 fresh wm line = (wm', out)"
  shows "only_own ids wm' \<and>
    set (rw_gatewayIDs (fst wm')) \<subseteq> set (rw_gatewayIDs (fst wm)) \<union> range fresh"
  using assms
  by (cases wm)
    (auto simp: rewrite_line_def maybeRewriteElicitation_def only_own_def IDMap_Store_def
      idmap_Store_def Let_def split: if_splits option.splits prod.splits)

lemma through_own:
  "only_own ids wm \<Longrightarrow> through (rewrite_line E f64 fresh) wm ls = (wm', out) \<Longrightarrow>
     only_own ids wm' \<and>
     set (rw_gatewayIDs (fst wm')) \<subseteq> set (rw_gatewayIDs (fst wm)) \<union> range fresh"
proof (induction ls arbitrary: wm out)
  case (Cons l ls)
  obtain wm1 o1 where s: "rewrite_line E f64 fresh wm l = (wm1, o1)" by (metis prod.exhaust)
  with Cons.prems(2) obtain o2 where "through (rewrite_line E f64 fresh) wm1 ls = (wm', o2)"
    by (auto split: prod.splits)
  with Cons.IH[of wm1 o2] rewrite_line_own[OF Cons.prems(1) s] show ?case by blast
qed simp

lemma remove_ids_memory:
  "remove_ids E is (MemoryIDs ids) = MemoryIDs (\<lambda>i. if i \<in> set is then None else ids i)"
proof (induction "is" arbitrary: ids)
  case (Cons i "is")
  show ?case by (simp add: Cons.IH IDMap_Remove_def idmap_Remove_def) auto
qed simp

text \<open>
  A streamed response leaves no mapping behind. When the identifiers drawn for a stream are not
  in use, the in-memory id map after the end of the stream is the map from before it: every entry
  stored for an elicitation of the stream is gone, answered or not, and no other entry is touched.
\<close>

theorem stream_leaves_no_mapping:
  assumes "\<forall>n. ids (fresh n) = None"
    and "rewrite_stream E f64 fresh (new_rewriter req, MemoryIDs ids) cs = ((w, m), out)"
  shows "m = MemoryIDs ids \<and> rw_gatewayIDs w = [] \<and> sse_Flush E f64 fresh (w, m) = ((w, m), [])"
proof -
  let ?wm = "(new_rewriter req, MemoryIDs ids) :: 'a rewriting"
  obtain ls0 rest where "split_lines (concat cs) = (ls0, rest)" by (cases "split_lines (concat cs)")
  then obtain ls where whole: "rewrite_whole E f64 fresh ?wm (concat cs) =
     (let ((w, m), out) = through (rewrite_line E f64 fresh) ?wm ls
      in ((w\<lparr>rw_gatewayIDs := []\<rparr>, remove_ids E (rw_gatewayIDs w) m), out))"
    by (simp add: rewrite_whole_def)
  obtain w1 m1 out1 where th: "through (rewrite_line E f64 fresh) ?wm ls = ((w1, m1), out1)"
    by (metis prod.exhaust)
  have "only_own ids ?wm" by (simp add: only_own_def)
  from through_own[OF this th] obtain ids' where own: "m1 = MemoryIDs ids'"
      "\<forall>i. i \<notin> set (rw_gatewayIDs w1) \<longrightarrow> ids' i = ids i" "set (rw_gatewayIDs w1) \<subseteq> range fresh"
    by (auto simp: only_own_def new_rewriter_def)
  then have "(\<lambda>i. if i \<in> set (rw_gatewayIDs w1) then None else ids' i) = ids"
    using assms(1) by (intro ext) auto
  moreover have "rw_buf w1 = []"
    using through_keeps_buf[of E f64 fresh ?wm ls] th by (simp add: new_rewriter_def)
  ultimately show ?thesis
    using assms(2) whole th own(1)
    by (auto simp: rewrite_stream_whole remove_ids_memory sse_Flush_def)
qed

section \<open>Events as servers write them\<close>

definition inner_char :: "char \<Rightarrow> bool" where
  "inner_char c \<longleftrightarrow> byte_of c < (0x80 :: nat) \<and>
     c \<notin> {CHR 0x20, CHR 0x0A, CHR 0x0D, CHR 0x09, CHR 0x0B, CHR 0x0C}"

lemma space_encodings:
  "map EncodeRune space_runes =
     [[CHR 0x20], [CHR 0x0A], [CHR 0x0D], [CHR 0x09], [CHR 0x0B], [CHR 0x0C], [CHR 0xC2, CHR 0x85],
      [CHR 0xC2, CHR 0xA0], [CHR 0xE1, CHR 0x9A, CHR 0x80], [CHR 0xE2, CHR 0x80, CHR 0x80],
      [CHR 0xE2, CHR 0x80, CHR 0x81], [CHR 0xE2, CHR 0x80, CHR 0x82], [CHR 0xE2, CHR 0x80, CHR 0x83],
      [CHR 0xE2, CHR 0x80, CHR 0x84], [CHR 0xE2, CHR 0x80, CHR 0x85], [CHR 0xE2, CHR 0x80, CHR 0x86],
      [CHR 0xE2, CHR 0x80, CHR 0x87], [CHR 0xE2, CHR 0x80, CHR 0x88], [CHR 0xE2, CHR 0x80, CHR 0x89],
      [CHR 0xE2, CHR 0x80, CHR 0x8A], [CHR 0xE2, CHR 0x80, CHR 0xA8], [CHR 0xE2, CHR 0x80, CHR 0xA9],
      [CHR 0xE2, CHR 0x80, CHR 0xAF], [CHR 0xE2, CHR 0x81, CHR 0x9F], [CHR 0xE3, CHR 0x80, CHR 0x80]]"
  by (simp add: space_runes_def EncodeRune_def char_of_def bit_iff_odd)

lemma strip_stop: "list_all (\<lambda>e. hd e \<noteq> c) es \<Longrightarrow> strip es (c # s) = c # s"
proof -
  assume heads: "list_all (\<lambda>e. hd e \<noteq> c) es"
  have "find (\<lambda>e. e \<noteq> [] \<and> HasPrefix (c # s) e) es = None"
    using heads by (force simp: find_None_iff list_all_iff HasPrefix_iff Cons_eq_append_conv)
  then show ?thesis by (simp add: strip.simps)
qed

lemma inner_not:
  "inner_char c \<Longrightarrow> 0x80 \<le> (byte_of d :: nat) \<or> d \<in> {CHR 0x20, CHR 0x0A, CHR 0x0D, CHR 0x09, CHR 0x0B, CHR 0x0C} \<Longrightarrow>
     d \<noteq> c"
  by (auto simp: inner_char_def)

lemma strip_inner:
  assumes "inner_char c"
  shows "strip (map EncodeRune space_runes) (c # s) = c # s"
    and "strip (map rev (map EncodeRune space_runes)) (c # s) = c # s"
  by (rule strip_stop, simp add: space_encodings inner_not[OF assms])+

lemma TrimSpace_line:
  assumes "inner_char c" and "inner_char d" and "line = c # s @ [d, newline]"
  shows "TrimSpace line = c # s @ [d]"
proof -
  have "strip (map rev (map EncodeRune space_runes)) (newline # t) =
      strip (map rev (map EncodeRune space_runes)) t" for t
    by (subst strip.simps) (simp add: space_encodings newline_def HasPrefix_def)
  then show ?thesis
    using strip_inner(1)[OF assms(1)] strip_inner(2)[OF assms(2)]
    by (simp add: TrimSpace_def Let_def assms(3) del: map_map)
qed

definition elicit_json :: "string \<Rightarrow> json \<Rightarrow> json \<Rightarrow> json" where
  "elicit_json v i p =
     JObj [(''jsonrpc'', JStr v), (''method'', JStr ''elicitation/create''), (''id'', i), (''params'', p)]"

definition event_line :: "json \<Rightarrow> string" where
  "event_line j = dataPrefix @ '' '' @ json_encode j @ [newline]"

text \<open>A request of a server as its encoder writes it.\<close>

definition elicit_ok :: "(string \<Rightarrow> string option) \<Rightarrow> string \<Rightarrow> json \<Rightarrow> json \<Rightarrow> bool" where
  "elicit_ok f64 v i p \<longleftrightarrow>
     ascii v \<and> i \<noteq> JNull \<and> any_value f64 i \<and> json_plain i \<and> json_plain p \<and>
     json_depth i < maxNestingDepth \<and> json_depth p < maxNestingDepth"

lemma event_line_data:
  "event_data (event_line (JObj kvs)) = json_encode (JObj kvs)" "is_event (event_line (JObj kvs))"
proof -
  have "TrimSpace (event_line (JObj kvs)) = dataPrefix @ '' '' @ json_encode (JObj kvs)"
    by (subst TrimSpace_line[of "CHR ''d''" "CHR ''}''" _ "''ata: {'' @ json_encode_members kvs"])
      (simp_all add: event_line_def dataPrefix_def inner_char_def)
  then show "event_data (event_line (JObj kvs)) = json_encode (JObj kvs)"
      "is_event (event_line (JObj kvs))"
    by (simp_all add: event_data_def is_event_def)
qed

lemma json_encode_nonempty [simp]: "json_plain j \<Longrightarrow> json_encode j \<noteq> []"
  by (erule json_encode_head) simp

lemma elicit_decodes:
  assumes "elicit_ok f64 v i p"
  shows "decode_message f64 (json_encode (elicit_json v i p)) =
     Some \<lparr>jm_JSONRPC = v, jm_Method = ''elicitation/create'', jm_ID = i,
           jm_Params = json_encode p, jm_Result = [], jm_Error = []\<rparr>"
proof -
  have plain: "json_plain (elicit_json v i p)"
    using assms by (simp add: elicit_ok_def elicit_json_def)
  let ?s = "json_encode (elicit_json v i p)"
  let ?kvs = "[(''jsonrpc'', JStr v), (''method'', JStr ''elicitation/create''), (''id'', i), (''params'', p)]"
  have "json_Unmarshal ?s = Some (elicit_json v i p)"
    using assms plain by (intro json_Unmarshal_encode) (auto simp: elicit_ok_def elicit_json_def maxNestingDepth_def)
  then have un: "json_Unmarshal ?s = Some (JObj ?kvs)" by (simp only: elicit_json_def)
  have raw: "raw_object ?s = map raw_member ?kvs"
    using plain raw_object_encode[of ?kvs] by (simp only: elicit_json_def)
  have "raw_field ''params'' ?s = json_encode p" "raw_field ''result'' ?s = []" "raw_field ''error'' ?s = []"
    unfolding raw_field_def raw by (simp_all add: raw_member_def lower_char_def)
  moreover have "field_values ''id'' ?kvs = [i]" "field_values ''jsonrpc'' ?kvs = [JStr v]"
    "field_values ''method'' ?kvs = [JStr ''elicitation/create'']"
    by (simp_all add: lower_char_def)
  ultimately show ?thesis
    using assms to_any_id(1)[of f64 i]
    by (simp add: decode_message_def un string_field_def elicit_ok_def del: field_values_Cons)
qed

lemma elicit_encodes:
  "json_plain p \<Longrightarrow> encode_message \<lparr>jm_JSONRPC = v, jm_Method = ''elicitation/create'', jm_ID = JStr i,
      jm_Params = json_encode p, jm_Result = [], jm_Error = []\<rparr> = json_encode (elicit_json v (JStr i) p)"
  by (simp add: encode_message_def elicit_json_def raw_member_text_def)

lemma elicit_line_data:
  "event_data (event_line (elicit_json v i p)) = json_encode (elicit_json v i p)"
  "is_event (event_line (elicit_json v i p))"
  unfolding elicit_json_def by (rule event_line_data)+


section \<open>Observed streams\<close>

definition new_observer :: "string \<Rightarrow> string \<Rightarrow> a2aSSEObserver" where
  "new_observer agent requestID =
     \<lparr>ob_buf = [], ob_agent = agent, ob_requestID = requestID, ob_taskID = [], ob_contextID = [],
      ob_lastState = [], ob_events = []\<rparr>"

definition observe_stream :: "a2aSSEObserver \<Rightarrow> string list \<Rightarrow> a2aSSEObserver" where
  "observe_stream ob cs = observer_Flush (fold (\<lambda>c ob. observer_Process ob c) cs ob)"

definition ob_with_buf :: "string \<Rightarrow> a2aSSEObserver \<Rightarrow> a2aSSEObserver" where
  "ob_with_buf b ob = ob\<lparr>ob_buf := b\<rparr>"

lemma ob_with_buf_simps [simp]:
  "ob_with_buf b (ob_with_buf c ob) = ob_with_buf b ob" "ob_with_buf (ob_buf ob) ob = ob"
  "ob_buf (ob_with_buf b ob) = b"
  by (simp_all add: ob_with_buf_def)

lemma note_event_eq:
  "note_event ob t c s =
     ob\<lparr>ob_taskID := (if ob_taskID ob = [] then t else ob_taskID ob),
        ob_contextID := (if ob_contextID ob = [] then c else ob_contextID ob), ob_lastState := s,
        ob_events := ob_events ob @ (if s \<noteq> [] \<and> s = ob_lastState ob then [] else [(t, c, s)])\<rparr>"
  by (cases ob, cases "ob_taskID ob = [] \<and> t \<noteq> []"; cases "ob_contextID ob = [] \<and> c \<noteq> []")
    (auto simp: note_event_def Let_def)

lemma note_event_buf: "note_event (ob_with_buf b ob) t c s = ob_with_buf b (note_event ob t c s)"
  by (simp add: note_event_eq ob_with_buf_def)

lemma observe_cases:
  obtains "observe_line ob line = ob"
  | t c s where "observe_line ob line = note_event ob t c s" "t \<noteq> [] \<or> c \<noteq> []"
proof -
  have "observe_line ob line = ob \<or>
      (\<exists>t c s. observe_line ob line = note_event ob t c s \<and> (t \<noteq> [] \<or> c \<noteq> []))"
    unfolding observe_line_def observe_def by (auto split: option.splits)
  then show thesis using that by blast
qed

lemma observe_line_buf: "observe_line (ob_with_buf b ob) line = ob_with_buf b (observe_line ob line)"
  by (auto simp: observe_line_def observe_def note_event_buf split: option.splits)

lemma observe_run_buf:
  "observe_run (ob_with_buf b ob) s =
     (case observe_run ob s of (ob', out, rest) \<Rightarrow> (ob_with_buf b ob', out, rest))"
proof (induction "length s" arbitrary: ob s rule: less_induct)
  case less
  show ?case
  proof (cases s rule: text_cases)
    case none
    then show ?thesis by (simp add: observing.run_none)
  next
    case (line x a)
    with less[of a] show ?thesis
      by (simp add: observing.run_line observe_step_def observe_line_buf case_prod_unfold Let_def)
  qed
qed

lemma observer_Process_run:
  "observer_Process ob chunk =
     (case observe_run ob (ob_buf ob @ chunk) of (ob', _, rest) \<Rightarrow> ob_with_buf rest ob')"
  by (simp add: observer_Process_def observe_run_def ob_with_buf_def split: prod.splits)

lemma observer_Process_append:
  "observer_Process ob (s @ t) = observer_Process (observer_Process ob s) t"
  using observing.run_append[of ob "ob_buf ob @ s" t]
  by (simp add: observer_Process_run observe_run_buf case_prod_unfold Let_def)

lemma observer_Process_buf: "newline \<notin> set (ob_buf (observer_Process ob c))"
  using observing.run_rest[of ob "ob_buf ob @ c"]
  by (simp add: observer_Process_run case_prod_unfold)

lemma observer_chunks:
  "newline \<notin> set (ob_buf ob) \<Longrightarrow>
     fold (\<lambda>c ob. observer_Process ob c) cs ob = observer_Process ob (concat cs)"
proof (induction cs arbitrary: ob)
  case Nil
  then show ?case by (simp add: observer_Process_run observing.run_none)
next
  case (Cons c cs)
  then show ?case using observer_Process_buf[of ob c] by (simp add: observer_Process_append)
qed

lemma through_observe: "through observe_step ob ls = (fold (\<lambda>l ob. observe_line ob l) ls ob, [])"
  by (induction ls arbitrary: ob) (simp_all add: observe_step_def)

lemma fold_observe_buf:
  "fold (\<lambda>l ob. observe_line ob l) ls (ob_with_buf b ob) =
     ob_with_buf b (fold (\<lambda>l ob. observe_line ob l) ls ob)"
  by (induction ls arbitrary: ob) (simp_all add: observe_line_buf)

definition all_lines :: "string \<Rightarrow> string list" where
  "all_lines s = (case split_lines s of (ls, rest) \<Rightarrow> ls @ (if rest = [] then [] else [rest]))"

lemma observe_stream_whole:
  assumes "ob_buf ob = []"
  shows "observe_stream ob cs = fold (\<lambda>l ob. observe_line ob l) (all_lines (concat cs)) ob"
proof -
  obtain ls rest where sl: "split_lines (concat cs) = (ls, rest)" by (cases "split_lines (concat cs)")
  let ?ob = "fold (\<lambda>l ob. observe_line ob l) ls ob"
  have "ob_buf ?ob = []"
    using fold_observe_buf[of ls "[]" ob] assms ob_with_buf_simps(2)[of ob] by (metis ob_with_buf_simps(3))
  then have "ob_with_buf [] ?ob = ?ob" using ob_with_buf_simps(2) by metis
  moreover have "fold (\<lambda>c ob. observer_Process ob c) cs ob = ob_with_buf rest ?ob"
    using observer_chunks[of ob cs] assms sl observing.run_lines[of ob "concat cs"]
    by (simp add: observer_Process_run through_observe)
  ultimately show ?thesis
    using sl by (simp add: observe_stream_def observer_Flush_def all_lines_def ob_with_buf_def Let_def)
qed

text \<open>Consecutive events never repeat a state that is set.\<close>

fun stutter_free :: "string list \<Rightarrow> bool" where
  "stutter_free (a # b # ss) \<longleftrightarrow> (b \<noteq> [] \<longrightarrow> a \<noteq> b) \<and> stutter_free (b # ss)"
| "stutter_free _ \<longleftrightarrow> True"

lemma stutter_free_snoc:
  "stutter_free (ss @ [s]) \<longleftrightarrow> stutter_free ss \<and> (ss \<noteq> [] \<and> s \<noteq> [] \<longrightarrow> last ss \<noteq> s)"
  by (induction ss rule: stutter_free.induct) auto

definition event_states :: "a2aSSEObserver \<Rightarrow> string list" where
  "event_states ob = map (\<lambda>(_, _, s). s) (ob_events ob)"

definition ids_recorded :: "string \<Rightarrow> string \<Rightarrow> (string \<times> string \<times> string) list \<Rightarrow> bool" where
  "ids_recorded t c events \<longleftrightarrow>
     list_all (\<lambda>e. (fst e \<noteq> [] \<longrightarrow> t \<noteq> []) \<and> (fst (snd e) \<noteq> [] \<longrightarrow> c \<noteq> [])) events"

definition observer_inv :: "a2aSSEObserver \<Rightarrow> bool" where
  "observer_inv ob \<longleftrightarrow> ob_lastState ob = last ([] # event_states ob) \<and> stutter_free (event_states ob) \<and>
     ids_recorded (ob_taskID ob) (ob_contextID ob) (ob_events ob)"

lemma ids_recorded_mono:
  "ids_recorded t c es \<Longrightarrow> (t \<noteq> [] \<longrightarrow> t' \<noteq> []) \<Longrightarrow> (c \<noteq> [] \<longrightarrow> c' \<noteq> []) \<Longrightarrow> ids_recorded t' c' es"
  by (induction es) (simp_all add: ids_recorded_def)

lemma note_event_inv:
  assumes inv: "observer_inv ob"
  shows "observer_inv (note_event ob t c s)"
proof -
  let ?ob = "note_event ob t c s"
  have ids: "ids_recorded (ob_taskID ?ob) (ob_contextID ?ob) (ob_events ob)"
    by (rule ids_recorded_mono[of "ob_taskID ob" "ob_contextID ob"])
      (use inv in \<open>simp_all add: observer_inv_def note_event_eq\<close>)
  show ?thesis
  proof (cases "s \<noteq> [] \<and> s = ob_lastState ob")
    case True
    then have "ob_events ?ob = ob_events ob" "ob_lastState ?ob = ob_lastState ob"
      by (auto simp: note_event_eq)
    with inv ids show ?thesis by (simp add: observer_inv_def event_states_def)
  next
    case False
    then have ev: "ob_events ?ob = ob_events ob @ [(t, c, s)]" "ob_lastState ?ob = s"
      by (simp_all add: note_event_eq)
    have "stutter_free (event_states ob @ [s])"
      using inv False by (cases "event_states ob = []") (auto simp: observer_inv_def stutter_free_snoc)
    moreover have "ids_recorded (ob_taskID ?ob) (ob_contextID ?ob) [(t, c, s)]"
      by (simp add: ids_recorded_def note_event_eq)
    ultimately show ?thesis
      using ev ids by (simp add: observer_inv_def event_states_def ids_recorded_def)
  qed
qed

lemma observe_line_inv: "observer_inv ob \<Longrightarrow> observer_inv (observe_line ob line)"
  by (cases rule: observe_cases[of ob line]) (simp_all add: note_event_inv)

lemma note_event_sticky:
  "ob_taskID ob \<noteq> [] \<Longrightarrow> ob_taskID (note_event ob t c s) = ob_taskID ob"
  "ob_contextID ob \<noteq> [] \<Longrightarrow> ob_contextID (note_event ob t c s) = ob_contextID ob"
  by (simp_all add: note_event_eq)

lemma fold_observe_inv: "observer_inv ob \<Longrightarrow> observer_inv (fold (\<lambda>l ob. observe_line ob l) ls ob)"
  by (induction ls arbitrary: ob) (auto simp: observe_line_inv)

lemma fold_observe_sticky:
  "ob_taskID ob \<noteq> [] \<Longrightarrow> ob_taskID (fold (\<lambda>l ob. observe_line ob l) ls ob) = ob_taskID ob"
  "ob_contextID ob \<noteq> [] \<Longrightarrow> ob_contextID (fold (\<lambda>l ob. observe_line ob l) ls ob) = ob_contextID ob"
proof (induction ls arbitrary: ob)
  case (Cons l ls)
  { case 1
    with Cons(1) show ?case by (cases rule: observe_cases[of ob l]) (simp_all add: note_event_sticky)
  next
    case 2
    with Cons(2) show ?case by (cases rule: observe_cases[of ob l]) (simp_all add: note_event_sticky) }
qed simp_all

text \<open>
  Observation of an A2A stream. However the stream is cut into chunks, the observer sees its
  lines one by one; it reports no state twice in a row; an event it reports with a task or a context
  identifier leaves one recorded; and an identifier once recorded stays, so that the one bound to
  the stream is the first the agent emitted.
\<close>

theorem observation_is_linewise_and_stable:
  "observe_stream (new_observer agent rid) cs =
     fold (\<lambda>l ob. observe_line ob l) (all_lines (concat cs)) (new_observer agent rid) \<and>
   observer_inv (observe_stream (new_observer agent rid) cs) \<and>
   (let seen = fold (\<lambda>l ob. observe_line ob l) ls (new_observer agent rid);
        later = fold (\<lambda>l ob. observe_line ob l) (ls @ ls') (new_observer agent rid)
    in ob_taskID seen \<in> {[], ob_taskID later} \<and> ob_contextID seen \<in> {[], ob_contextID later})"
proof -
  have "observer_inv (new_observer agent rid)"
    by (simp add: observer_inv_def new_observer_def event_states_def ids_recorded_def)
  moreover have "observe_stream (new_observer agent rid) cs =
      fold (\<lambda>l ob. observe_line ob l) (all_lines (concat cs)) (new_observer agent rid)"
    by (rule observe_stream_whole) (simp add: new_observer_def)
  moreover have "ob_taskID ob \<in> {[], ob_taskID (fold (\<lambda>l ob. observe_line ob l) ls' ob)}" for ob
    using fold_observe_sticky(1)[of ob ls'] by (cases "ob_taskID ob = []") simp_all
  moreover have "ob_contextID ob \<in> {[], ob_contextID (fold (\<lambda>l ob. observe_line ob l) ls' ob)}" for ob
    using fold_observe_sticky(2)[of ob ls'] by (cases "ob_contextID ob = []") simp_all
  ultimately show ?thesis by (simp only: fold_observe_inv fold_append Let_def comp_apply simp_thms)
qed

section \<open>Witnesses\<close>

theorem stream_leaves_no_mapping_witness:
  "\<exists>w m out. rewrite_stream sample_env Some (\<lambda>n. Itoa n) (new_rewriter sample_call, MemoryIDs Map.empty)
     [event_line (elicit_json ''2.0'' (JNum ''7'') (JObj []))] = ((w, m), out) \<and>
     m = MemoryIDs Map.empty \<and> rw_gatewayIDs w = []"
proof -
  obtain w m out where run: "rewrite_stream sample_env Some (\<lambda>n. Itoa n)
     (new_rewriter sample_call, MemoryIDs Map.empty)
     [event_line (elicit_json ''2.0'' (JNum ''7'') (JObj []))] = ((w, m), out)"
    by (metis prod.exhaust)
  from stream_leaves_no_mapping[OF _ run] run show ?thesis by simp
qed


end
