(* ===== verification/Ext_Proc.thy ===== *)
theory Ext_Proc
  imports SSE_Streams A2A_Request
begin

text \<open>
  The external processor (\<open>mcp-router/ext_proc_adapter.go\<close> with \<open>headers.go\<close> and
  \<open>response_builder.go\<close>): Envoy sends the phases of an HTTP exchange as messages on a stream, and the
  processor answers each with the mutations to apply. It hands MCP requests to the router and A2A
  requests to the agent their path names.
\<close>

section \<open>Headers\<close>

type_synonym header = "string \<times> string"

text \<open>Envoy's header map: a list that may be nil, of headers that may be nil.\<close>

type_synonym HeaderMap = "header option list option"

record HttpHeaders =
  hh_Headers :: HeaderMap
  hh_EndOfStream :: bool

fun first_header :: "string \<Rightarrow> header option list \<Rightarrow> string" where
  "first_header name [] = []"
| "first_header name (h # hs) =
     (case h of
        Some (k, v) \<Rightarrow> if k = name then v else first_header name hs
      | None \<Rightarrow> first_header name hs)"

definition getSingleValueHeader :: "HeaderMap \<Rightarrow> string \<Rightarrow> string" where
  "getSingleValueHeader headers name =
     (case headers of None \<Rightarrow> [] | Some hs \<Rightarrow> first_header name hs)"

text \<open>The last header of a name stays in the map; a nil map reads like an empty one.\<close>

fun put_headers :: "header option list \<Rightarrow> string gomap \<Rightarrow> string gomap" where
  "put_headers [] m = m"
| "put_headers (h # hs) m =
     put_headers hs (case h of Some (k, v) \<Rightarrow> m(k \<mapsto> v) | None \<Rightarrow> m)"

definition headerMapToMap :: "HeaderMap \<Rightarrow> string gomap" where
  "headerMapToMap hm = (case hm of None \<Rightarrow> Map.empty | Some hs \<Rightarrow> put_headers hs Map.empty)"

type_synonym HeadersBuilder = "header list"

definition NewHeaders :: HeadersBuilder where "NewHeaders = []"

definition WithAuthority :: "string \<Rightarrow> HeadersBuilder \<Rightarrow> HeadersBuilder" where
  "WithAuthority authority hb = hb @ [(AuthorityHeader, authority)]"

definition WithAuth :: "string \<Rightarrow> HeadersBuilder \<Rightarrow> HeadersBuilder" where
  "WithAuth cred hb = hb @ [(AuthorizationHeader, cred)]"

definition WithContentLength :: "nat \<Rightarrow> HeadersBuilder \<Rightarrow> HeadersBuilder" where
  "WithContentLength len hb = hb @ [(''content-length'', Itoa len)]"

definition WithMCPToolName :: "string \<Rightarrow> HeadersBuilder \<Rightarrow> HeadersBuilder" where
  "WithMCPToolName toolName hb = hb @ [(ToolHeader, toolName)]"

definition WithMCPServerName :: "string \<Rightarrow> HeadersBuilder \<Rightarrow> HeadersBuilder" where
  "WithMCPServerName serverName hb = hb @ [(MCPServerNameHeader, serverName)]"

definition WithMCPMethod :: "string \<Rightarrow> HeadersBuilder \<Rightarrow> HeadersBuilder" where
  "WithMCPMethod m hb = hb @ [(MethodHeader, m)]"

definition WithMCPSession :: "string \<Rightarrow> HeadersBuilder \<Rightarrow> HeadersBuilder" where
  "WithMCPSession session hb = hb @ [(SessionHeader, session)]"

definition WithToolAnnotations :: "string \<Rightarrow> HeadersBuilder \<Rightarrow> HeadersBuilder" where
  "WithToolAnnotations annotations hb = hb @ [(ToolAnnotationsHeader, annotations)]"

definition WithMCPPromptName :: "string \<Rightarrow> HeadersBuilder \<Rightarrow> HeadersBuilder" where
  "WithMCPPromptName promptName hb = hb @ [(PromptHeader, promptName)]"

definition WithCustomHeader :: "string \<Rightarrow> string \<Rightarrow> HeadersBuilder \<Rightarrow> HeadersBuilder" where
  "WithCustomHeader key val hb = hb @ [(key, val)]"

definition WithPath :: "string \<Rightarrow> HeadersBuilder \<Rightarrow> HeadersBuilder" where
  "WithPath path hb = hb @ [('':path'', path)]"

definition WithVerifiedSub :: "string \<Rightarrow> HeadersBuilder \<Rightarrow> HeadersBuilder" where
  "WithVerifiedSub sub hb = hb @ [(MCPVerifiedSubHeader, sub)]"

section \<open>Responses\<close>

record CommonResponse =
  cr_ClearRouteCache :: bool
  cr_SetHeaders :: "header list"
  cr_RemoveHeaders :: "string list"
  cr_Body :: "string option"

definition common_response :: "bool \<Rightarrow> header list \<Rightarrow> string list \<Rightarrow> string option \<Rightarrow> CommonResponse option" where
  "common_response clear set_headers remove body =
     Some \<lparr>cr_ClearRouteCache = clear, cr_SetHeaders = set_headers, cr_RemoveHeaders = remove,
           cr_Body = body\<rparr>"

datatype phase_response =
    RequestHeadersResponse "CommonResponse option"
  | RequestBodyResponse "CommonResponse option"
  | ResponseHeadersResponse "CommonResponse option"
  | ResponseBodyResponse "CommonResponse option"
  | ImmediateResponse int string string "header list"

datatype header_mode = DefaultMode | Send | Skip
datatype body_mode = NoBody | Streamed

record ProcessingMode =
  pm_RequestHeaderMode :: header_mode
  pm_ResponseHeaderMode :: header_mode
  pm_RequestBodyMode :: body_mode
  pm_ResponseBodyMode :: body_mode
  pm_RequestTrailerMode :: header_mode
  pm_ResponseTrailerMode :: header_mode

record ProcessingResponse =
  ps_Response :: phase_response
  ps_ModeOverride :: "ProcessingMode option"

definition plain_response :: "phase_response \<Rightarrow> ProcessingResponse" where
  "plain_response p = \<lparr>ps_Response = p, ps_ModeOverride = None\<rparr>"

type_synonym ResponseBuilder = "ProcessingResponse list"

definition NewResponse :: ResponseBuilder where "NewResponse = []"

definition WithRequestHeadersResponse :: "header list \<Rightarrow> string list \<Rightarrow> ResponseBuilder \<Rightarrow> ResponseBuilder" where
  "WithRequestHeadersResponse headers removeHeaders rb =
     rb @ [plain_response (RequestHeadersResponse (common_response True headers removeHeaders None))]"

definition WithRequestBodyHeadersAndBodyResponse ::
  "header list \<Rightarrow> string \<Rightarrow> string list \<Rightarrow> ResponseBuilder \<Rightarrow> ResponseBuilder" where
  "WithRequestBodyHeadersAndBodyResponse headers body removeHeaders rb =
     rb @ [plain_response (RequestBodyResponse (common_response True headers removeHeaders (Some body)))]"

definition WithRequestBodyHeadersResponse :: "header list \<Rightarrow> ResponseBuilder \<Rightarrow> ResponseBuilder" where
  "WithRequestBodyHeadersResponse headers rb =
     rb @ [plain_response (RequestBodyResponse (common_response True headers [] None))]"

definition WithRequestBodySetUnsetHeadersResponse ::
  "header list \<Rightarrow> string list \<Rightarrow> ResponseBuilder \<Rightarrow> ResponseBuilder" where
  "WithRequestBodySetUnsetHeadersResponse set_headers unset rb =
     rb @ [plain_response (RequestBodyResponse (common_response True set_headers unset None))]"

definition WithImmediateResponse :: "int \<Rightarrow> string \<Rightarrow> ResponseBuilder \<Rightarrow> ResponseBuilder" where
  "WithImmediateResponse statusCode message rb =
     rb @ [plain_response (ImmediateResponse statusCode message (''ext-proc error: '' @ message)
            [(''content-type'', ''text/plain'')])]"

definition WithImmediateJSONRPCResponse ::
  "int \<Rightarrow> header list \<Rightarrow> string \<Rightarrow> ResponseBuilder \<Rightarrow> ResponseBuilder" where
  "WithImmediateJSONRPCResponse statusCode setHeaders message rb =
     rb @ [plain_response (ImmediateResponse statusCode message (''ext-proc error: '' @ message)
            (setHeaders @ [(''content-type'', ''text/event-stream'')]))]"

definition WithImmediateJSONResponse :: "int \<Rightarrow> string \<Rightarrow> ResponseBuilder \<Rightarrow> ResponseBuilder" where
  "WithImmediateJSONResponse statusCode message rb =
     rb @ [plain_response (ImmediateResponse statusCode message ''a2a routing error''
            [(''content-type'', ''application/json'')])]"

definition WithDoNothingResponse :: "bool \<Rightarrow> ResponseBuilder \<Rightarrow> ResponseBuilder" where
  "WithDoNothingResponse isStreaming rb =
     (if isStreaming then rb @ [plain_response (RequestHeadersResponse None)]
      else rb @ [plain_response (RequestBodyResponse None)])"

definition WithDoNothingResponseHeaderResponse :: "ResponseBuilder \<Rightarrow> ResponseBuilder" where
  "WithDoNothingResponseHeaderResponse rb = rb @ [plain_response (ResponseHeadersResponse None)]"

definition WithResponseHeaderMutations ::
  "header list \<Rightarrow> string list \<Rightarrow> ResponseBuilder \<Rightarrow> ResponseBuilder" where
  "WithResponseHeaderMutations set_headers remove rb =
     rb @ [plain_response (ResponseHeadersResponse (common_response False set_headers remove None))]"

definition WithResponseHeaderResponse :: "header list \<Rightarrow> ResponseBuilder \<Rightarrow> ResponseBuilder" where
  "WithResponseHeaderResponse headers rb =
     rb @ [plain_response (ResponseHeadersResponse (common_response False headers [] None))]"

text \<open>
  The headers of a decision. The order in which Go traverses the map is the first argument, a
  function from maps to lists of their keys.
\<close>

definition decisionHeaders :: "(string gomap \<Rightarrow> string list) \<Rightarrow> Decision \<Rightarrow> header list" where
  "decisionHeaders order d =
     (if de_Authority d \<noteq> [] then [('':authority'', de_Authority d)] else [])
     @ (if de_Path d \<noteq> [] then [('':path'', de_Path d)] else [])
     @ map (\<lambda>k. (k, get_or_empty (de_SetHeaders d) k))
         (filter (\<lambda>k. \<not> (k = '':authority'' \<or> k = '':path'')) (order (de_SetHeaders d)))"

text \<open>A decision that stands for a panic of the router has no response.\<close>

definition decisionToResponse :: "(string gomap \<Rightarrow> string list) \<Rightarrow> Decision \<Rightarrow> ProcessingResponse list option" where
  "decisionToResponse order d =
     (case de_Error d of
        Some NilManager \<Rightarrow> None
      | Some (HTTPError code msg rpc) \<Rightarrow>
          Some (if rpc \<noteq> [] then WithImmediateJSONRPCResponse code (decisionHeaders order d) rpc NewResponse
                else WithImmediateResponse code msg NewResponse)
      | None \<Rightarrow>
          (let headers = decisionHeaders order d
           in Some (case de_BodyMutation d of
                Some body \<Rightarrow>
                  WithRequestBodyHeadersAndBodyResponse headers body (de_UnsetHeaders d) NewResponse
              | None \<Rightarrow>
                  if de_UnsetHeaders d \<noteq> []
                  then WithRequestBodySetUnsetHeadersResponse headers (de_UnsetHeaders d) NewResponse
                  else WithRequestBodyHeadersResponse headers NewResponse)))"

definition stream_mode :: ProcessingMode where
  "stream_mode =
     \<lparr>pm_RequestHeaderMode = Send, pm_ResponseHeaderMode = Send, pm_RequestBodyMode = Streamed,
      pm_ResponseBodyMode = Streamed, pm_RequestTrailerMode = Skip, pm_ResponseTrailerMode = Skip\<rparr>"

definition a2aObserveMode :: ProcessingMode where
  "a2aObserveMode =
     \<lparr>pm_RequestHeaderMode = Send, pm_ResponseHeaderMode = Send, pm_RequestBodyMode = NoBody,
      pm_ResponseBodyMode = Streamed, pm_RequestTrailerMode = Skip, pm_ResponseTrailerMode = Skip\<rparr>"

fun override_first :: "ProcessingMode \<Rightarrow> ProcessingResponse list \<Rightarrow> ProcessingResponse list" where
  "override_first m [] = []"
| "override_first m (p # ps) = p\<lparr>ps_ModeOverride := Some m\<rparr> # ps"

definition responseDecisionToResponse ::
  "(string gomap \<Rightarrow> string list) \<Rightarrow> ResponseDecision \<Rightarrow> ProcessingResponse list" where
  "responseDecisionToResponse order d =
     (let headers = map (\<lambda>k. (k, get_or_empty (rd_SetHeaders d) k)) (order (rd_SetHeaders d));
          responses = WithResponseHeaderResponse headers NewResponse
      in if rd_StreamBody d then override_first stream_mode responses else responses)"

section \<open>The body of a request\<close>

text \<open>
  \<open>json.Unmarshal\<close> into the request pointer of the stream: null makes it nil, anything else
  allocates a request if there is none, and the members of an object are filled into it one by one.
  A member that does not fit makes the call fail but the others are filled in. The result is the
  pointer afterwards and whether the call succeeded.
\<close>

fun any_or_nil :: "(string \<Rightarrow> string option) \<Rightarrow> json \<Rightarrow> json"
and any_or_nil_list :: "(string \<Rightarrow> string option) \<Rightarrow> json list \<Rightarrow> json list"
and any_or_nil_map ::
  "(string \<Rightarrow> string option) \<Rightarrow> (string \<times> json) list \<Rightarrow> (string \<times> json) list \<Rightarrow> (string \<times> json) list"
where
  "any_or_nil f (JNum n) = (case f n of None \<Rightarrow> JNull | Some m \<Rightarrow> JNum m)"
| "any_or_nil f (JArr vs) = JArr (any_or_nil_list f vs)"
| "any_or_nil f (JObj kvs) = JObj (any_or_nil_map f kvs [])"
| "any_or_nil f JNull = JNull"
| "any_or_nil f (JBool b) = JBool b"
| "any_or_nil f (JStr s) = JStr s"
| "any_or_nil_list f [] = []"
| "any_or_nil_list f (v # vs) = any_or_nil f v # any_or_nil_list f vs"
| "any_or_nil_map f [] acc = acc"
| "any_or_nil_map f ((k, v) # kvs) acc = any_or_nil_map f kvs (insert_key k (any_or_nil f v) acc)"

fun put_map ::
  "(string \<Rightarrow> string option) \<Rightarrow> (string \<times> json) list option \<Rightarrow> json list \<Rightarrow> (string \<times> json) list option"
where
  "put_map f acc [] = acc"
| "put_map f acc (JObj kvs # vs) =
     put_map f (Some (any_or_nil_map f kvs (case acc of None \<Rightarrow> [] | Some m \<Rightarrow> m))) vs"
| "put_map f acc (JNull # vs) = put_map f None vs"
| "put_map f acc (_ # vs) = put_map f acc vs"

text \<open>A number out of range leaves a field as it was; inside a value it becomes nil.\<close>

fun put_any :: "(string \<Rightarrow> string option) \<Rightarrow> json \<Rightarrow> json list \<Rightarrow> json" where
  "put_any f acc [] = acc"
| "put_any f acc (v # vs) =
     put_any f
       (case v of
          JNum n \<Rightarrow> (case f n of None \<Rightarrow> acc | Some m \<Rightarrow> JNum m)
        | _ \<Rightarrow> any_or_nil f v) vs"

definition fill_request :: "(string \<Rightarrow> string option) \<Rightarrow> MCPRequest \<Rightarrow> (string \<times> json) list \<Rightarrow> MCPRequest" where
  "fill_request f mr kvs =
     mr\<lparr>mr_ID := put_any f (mr_ID mr) (field_values ''id'' kvs),
        mr_JSONRPC := put_string (mr_JSONRPC mr) (field_values ''jsonrpc'' kvs),
        mr_Method := put_string (mr_Method mr) (field_values ''method'' kvs),
        mr_Params := put_map f (mr_Params mr) (field_values ''params'' kvs),
        mr_Result := put_map f (mr_Result mr) (field_values ''result'' kvs)\<rparr>"

definition request_fits :: "(string \<Rightarrow> string option) \<Rightarrow> (string \<times> json) list \<Rightarrow> bool" where
  "request_fits f kvs \<longleftrightarrow>
     to_any_list f (field_values ''id'' kvs) \<noteq> None \<and> strings_ok [''jsonrpc'', ''method''] kvs \<and>
     fill_map f None (field_values ''params'' kvs) \<noteq> None \<and>
     fill_map f None (field_values ''result'' kvs) \<noteq> None"

definition unmarshal_request ::
  "(string \<Rightarrow> string option) \<Rightarrow> MCPRequest option \<Rightarrow> string \<Rightarrow> MCPRequest option \<times> bool" where
  "unmarshal_request f req body =
     (let mr = (case req of None \<Rightarrow> empty_MCPRequest | Some mr \<Rightarrow> mr)
      in case json_Unmarshal body of
           None \<Rightarrow> (req, False)
         | Some JNull \<Rightarrow> (None, True)
         | Some (JObj kvs) \<Rightarrow> (Some (fill_request f mr kvs), request_fits f kvs)
         | Some _ \<Rightarrow> (Some mr, False))"

section \<open>The stream\<close>

text \<open>
  The messages of a stream. A message of another kind, or \<open>Trailers\<close>, falls through the switch.
  \<open>RecvFailed\<close> is an error of \<open>stream.Recv\<close>. A request body is nil when its field is not set.
\<close>

datatype message =
    RequestHeaders "HttpHeaders option"
  | RequestBody "string option"
  | ResponseHeaders "HttpHeaders option"
  | ResponseBody string bool
  | Trailers
  | RecvFailed

datatype stream_error =
    ReceiveError | SendError | MissingRequestHeaders | BodyBeforeHeaders | BodyTooLarge
  | MissingResponseHeaders

record stream_state =
  st_RequestHeaders :: "HttpHeaders option"
  st_RequestID :: string
  st_RequestPath :: string
  st_EndOfStream :: bool
  st_Request :: "MCPRequest option"
  st_Rewriter :: "sseRewriter option"
  st_A2A :: "a2aState option"
  st_Observer :: "a2aSSEObserver option"

definition initial_stream :: stream_state where
  "initial_stream =
     \<lparr>st_RequestHeaders = None, st_RequestID = [], st_RequestPath = [], st_EndOfStream = False,
      st_Request = None, st_Rewriter = None, st_A2A = None, st_Observer = None\<rparr>"

text \<open>The loop goes on, returns (None is a nil error), or a nil pointer panics.\<close>

datatype outcome = Continue stream_state | Return stream_state "stream_error option" | Panic stream_state

text \<open>
  The server. Its session cache and id map are the ones of its router, as \<open>createRouter\<close> wires them.
\<close>

record 'r ExtProcServer =
  es_Router :: "'r Router202511"
  es_MaxRequestBodySize :: int
  es_A2ABroker :: "(string \<Rightarrow> string \<Rightarrow> A2AAgent option) option"

definition OnConfigChange :: "unit MCPServersConfig \<Rightarrow> 'r ExtProcServer \<Rightarrow> 'r ExtProcServer" where
  "OnConfigChange newConfig s = s\<lparr>es_Router := (es_Router s)\<lparr>ro_RoutingConfig := newConfig\<rparr>\<rparr>"

text \<open>What the adapter takes from outside: the router's environment, floats, uuids, map orders.\<close>

record 'r adapter =
  ad_Env :: "'r env"
  ad_Float :: "string \<Rightarrow> string option"
  ad_Fresh :: "nat \<Rightarrow> string"
  ad_Order :: "string gomap \<Rightarrow> string list"

type_synonym 'r step = "'r ExtProcServer \<times> ProcessingResponse list \<times> outcome"

definition HandleRequestHeaders :: "'r ExtProcServer \<Rightarrow> HttpHeaders \<Rightarrow> ProcessingResponse list" where
  "HandleRequestHeaders s headers =
     (let requestHeaders =
            WithAuthority (cfg_ExternalHostname (ro_RoutingConfig (es_Router s))) NewHeaders;
          authHeader = getSingleValueHeader (hh_Headers headers) AuthorizationHeader;
          sub = (case ExtractSubClaim authHeader of Inl _ \<Rightarrow> [] | Inr sub \<Rightarrow> sub);
          requestHeaders = (if sub \<noteq> [] then WithVerifiedSub sub requestHeaders else requestHeaders)
      in WithRequestHeadersResponse requestHeaders InternalOnlyHeaders NewResponse)"

text \<open>
  Sending the responses of a message: \<open>ok\<close> says whether \<open>stream.Send\<close> succeeds, and a failure ends
  the stream. On the paths that return an error anyway the result of \<open>Send\<close> is only logged.
\<close>

definition sending :: "bool \<Rightarrow> 'r ExtProcServer \<Rightarrow> ProcessingResponse list \<Rightarrow> stream_state \<Rightarrow> 'r step" where
  "sending ok s resp st = (s, resp, if ok then Continue st else Return st (Some SendError))"

definition failing ::
  "'r ExtProcServer \<Rightarrow> ProcessingResponse list \<Rightarrow> stream_state \<Rightarrow> stream_error \<Rightarrow> 'r step" where
  "failing s resp st e = (s, resp, Return st (Some e))"

definition a2a_request_headers ::
  "'r ExtProcServer \<Rightarrow> (string \<Rightarrow> string \<Rightarrow> A2AAgent option) \<Rightarrow> string \<Rightarrow> string \<Rightarrow>
   ProcessingResponse list \<times> a2aState" where
  "a2a_request_headers s GetAgentByPath requestPath meth =
     (let a2a = \<lparr>a2_discovery = False, a2_agent = [], a2_method = [], a2_streaming = False\<rparr>
      in if meth \<noteq> ''POST''
         then (WithDoNothingResponse True NewResponse, a2a\<lparr>a2_discovery := True\<rparr>)
         else
           (case (case resolveA2APath requestPath of
                    None \<Rightarrow> None
                  | Some (namespace, pre) \<Rightarrow> GetAgentByPath namespace pre) of
              None \<Rightarrow>
                (WithImmediateJSONResponse 200
                   (a2aErrorBody [] a2aErrInvalidParams ''no agent registered for the requested path'')
                   NewResponse, a2a)
            | Some agent \<Rightarrow>
                (WithRequestHeadersResponse
                   (WithPath a2aBackendPath (WithAuthority (ag_Hostname agent) NewHeaders))
                   InternalOnlyHeaders NewResponse,
                 a2a\<lparr>a2_agent := ag_Name agent\<rparr>)))"

definition on_RequestHeaders ::
  "'r ExtProcServer \<Rightarrow> stream_state \<Rightarrow> HttpHeaders option \<Rightarrow> bool \<Rightarrow> 'r step" where
  "on_RequestHeaders s st r ok =
     (case r of
        None \<Rightarrow> failing s (WithImmediateResponse 500 ''internal error'' NewResponse) st MissingRequestHeaders
      | Some headers \<Rightarrow>
          (let requestPath = getSingleValueHeader (hh_Headers headers) '':path'';
               meth = getSingleValueHeader (hh_Headers headers) '':method'';
               st1 = st\<lparr>st_RequestHeaders := Some headers, st_EndOfStream := hh_EndOfStream headers,
                        st_RequestID := getSingleValueHeader (hh_Headers headers) ''x-request-id'',
                        st_RequestPath := requestPath\<rparr>
           in case (if isA2APath requestPath then es_A2ABroker s else None) of
                Some GetAgentByPath \<Rightarrow>
                  (let (resp, a2a) = a2a_request_headers s GetAgentByPath requestPath meth
                   in sending ok s resp (st1\<lparr>st_A2A := Some a2a\<rparr>))
              | None \<Rightarrow> sending ok s (HandleRequestHeaders s headers) st1))"

definition a2a_request_body :: "a2aState \<Rightarrow> string \<Rightarrow> ProcessingResponse list \<times> a2aState" where
  "a2a_request_body a2a body =
     (if a2_discovery a2a then (WithDoNothingResponse False NewResponse, a2a)
      else
        (case parseA2ARequest body of
           None \<Rightarrow>
             (WithImmediateJSONResponse 200 (a2aErrorBody [] a2aErrParse ''invalid json-rpc request'')
                NewResponse, a2a)
         | Some (m, i, hasPush) \<Rightarrow>
             if \<not> isSupportedA2AMethod m then
               (WithImmediateJSONResponse 200
                  (a2aErrorBody i a2aErrUnsupportedOp ''method not supported by this gateway'')
                  NewResponse, a2a)
             else if hasPush then
               (WithImmediateJSONResponse 200
                  (a2aErrorBody i a2aErrPushNotSupported ''gateway does not support push notifications'')
                  NewResponse, a2a)
             else
               (WithDoNothingResponse False NewResponse,
                a2a\<lparr>a2_method := m, a2_streaming := isA2AStreamingMethod m\<rparr>)))"

definition mcp_request_body ::
  "'r adapter \<Rightarrow> 'r ExtProcServer \<Rightarrow> stream_state \<Rightarrow> HeaderMap \<Rightarrow> string \<Rightarrow> bool \<Rightarrow> 'r step" where
  "mcp_request_body A s st headers body ok =
     (let (req, decoded) = unmarshal_request (ad_Float A) (st_Request st) body;
          st1 = st\<lparr>st_Request := req\<rparr>
      in if \<not> decoded
         then sending ok s (WithImmediateResponse 400 ''invalid request body'' NewResponse) st1
         else if MCPRequest_Validate req \<noteq> None
         then sending ok s (WithImmediateResponse 400 ''invalid mcp request'' NewResponse) st1
         else
           (let (router, req', decision) =
                  RouteRequest (ad_Env A) (es_Router s)
                    (map_option (\<lambda>mr. mr\<lparr>mr_Headers := headerMapToMap headers\<rparr>) req);
                s' = s\<lparr>es_Router := router\<rparr>; st2 = st1\<lparr>st_Request := req'\<rparr>
            in case decisionToResponse (ad_Order A) decision of
                 None \<Rightarrow> (s', [], Panic st2)
               | Some responses \<Rightarrow> sending ok s' responses st2))"

definition on_RequestBody ::
  "'r adapter \<Rightarrow> 'r ExtProcServer \<Rightarrow> stream_state \<Rightarrow> string option \<Rightarrow> bool \<Rightarrow> 'r step" where
  "on_RequestBody A s st r ok =
     (if st_EndOfStream st then sending ok s (WithDoNothingResponse False NewResponse) st
      else
        (case (case st_RequestHeaders st of None \<Rightarrow> None | Some h \<Rightarrow> hh_Headers h) of
           None \<Rightarrow> failing s (WithImmediateResponse 500 ''internal error'' NewResponse) st BodyBeforeHeaders
         | Some hs \<Rightarrow>
             (case r of
                None \<Rightarrow> (s, [], Panic st)
              | Some body \<Rightarrow>
                  if es_MaxRequestBodySize s > 0 \<and> int (length body) > es_MaxRequestBodySize s then
                    failing s (WithImmediateResponse 413 ''request body too large'' NewResponse) st
                      BodyTooLarge
                  else if \<not> Contains (ToLower (getSingleValueHeader (Some hs) ''content-type''))
                              ''application/json''
                       \<or> body = [] then
                    sending ok s (WithDoNothingResponse False NewResponse) st
                  else
                    (case st_A2A st of
                       Some a2a \<Rightarrow>
                         (let (resp, a2a') = a2a_request_body a2a body
                          in sending ok s resp (st\<lparr>st_A2A := Some a2a'\<rparr>))
                     | None \<Rightarrow> mcp_request_body A s st (Some hs) body ok))))"

text \<open>
  The response headers. Envoy sends them after the request, so the rewriter keeps the request as it
  is now.
\<close>

definition a2a_response_headers ::
  "stream_state \<Rightarrow> a2aState \<Rightarrow> string \<Rightarrow> ProcessingResponse list \<times> stream_state" where
  "a2a_response_headers st a2a statusCode =
     (let responses = WithDoNothingResponseHeaderResponse NewResponse
      in if a2_streaming a2a \<and> statusCode = ''200''
         then (override_first a2aObserveMode responses,
               st\<lparr>st_Observer := Some (new_observer (a2_agent a2a) (st_RequestID st))\<rparr>)
         else (responses, st))"

definition mcp_response_headers ::
  "'r adapter \<Rightarrow> 'r ExtProcServer \<Rightarrow> stream_state \<Rightarrow> HttpHeaders \<Rightarrow> HttpHeaders \<Rightarrow>
   'r ExtProcServer \<times> ProcessingResponse list \<times> stream_state" where
  "mcp_response_headers A s st local headers =
     (let req = (case st_Request st of
                   Some mr \<Rightarrow>
                     if IsToolCall mr then
                       Some (mr\<lparr>mr_ClientElicitation :=
                         (case GetClientElicitation (en_Redis (ad_Env A)) (ro_SessionCache (es_Router s))
                                 (GetSessionID mr) of
                            Inl _ \<Rightarrow> False
                          | Inr flag \<Rightarrow> flag)\<rparr>)
                     else Some mr
                 | None \<Rightarrow> None);
          input = \<lparr>ri_StatusCode = getSingleValueHeader (hh_Headers headers) '':status'',
                   ri_GatewaySessionID = getSingleValueHeader (hh_Headers local) SessionHeader,
                   ri_ResponseSessionID = getSingleValueHeader (hh_Headers headers) SessionHeader,
                   ri_InitHost = getSingleValueHeader (hh_Headers local) ''mcp-init-host'',
                   ri_Request = req\<rparr>;
          (router, respDecision) = HandleResponse (ad_Env A) (es_Router s) input;
          rewriter = (case req of
                        Some mr \<Rightarrow> if rd_StreamBody respDecision then Some (new_rewriter mr)
                                   else st_Rewriter st
                      | None \<Rightarrow> st_Rewriter st)
      in (s\<lparr>es_Router := router\<rparr>, responseDecisionToResponse (ad_Order A) respDecision,
          st\<lparr>st_Request := req, st_Rewriter := rewriter\<rparr>))"

definition on_ResponseHeaders ::
  "'r adapter \<Rightarrow> 'r ExtProcServer \<Rightarrow> stream_state \<Rightarrow> HttpHeaders option \<Rightarrow> bool \<Rightarrow> 'r step" where
  "on_ResponseHeaders A s st r ok =
     (case (r, st_RequestHeaders st) of
        (Some headers, Some local) \<Rightarrow>
          (case st_A2A st of
             Some a2a \<Rightarrow>
               (let (responses, st1) =
                      a2a_response_headers st a2a (getSingleValueHeader (hh_Headers headers) '':status'')
                in if ok \<and> st_Observer st1 = None then (s, responses, Return st1 None)
                   else sending ok s responses st1)
           | None \<Rightarrow>
               (let (s', responses, st1) = mcp_response_headers A s st local headers
                in if ok \<and> st_Rewriter st1 = None then (s', responses, Return st1 None)
                   else sending ok s' responses st1))
      | _ \<Rightarrow>
          failing s (WithImmediateResponse 500 ''internal error'' NewResponse) st MissingResponseHeaders)"

definition with_ids :: "'r ExtProcServer \<Rightarrow> 'r IDMap \<Rightarrow> 'r ExtProcServer" where
  "with_ids s m = s\<lparr>es_Router := (es_Router s)\<lparr>ro_ElicitationMap := m\<rparr>\<rparr>"

definition rewrite_body ::
  "'r adapter \<Rightarrow> 'r ExtProcServer \<Rightarrow> sseRewriter \<Rightarrow> string \<Rightarrow> bool \<Rightarrow> 'r ExtProcServer \<times> sseRewriter \<times> string"
where
  "rewrite_body A s w body endOfStream =
     (let wm = (w, ro_ElicitationMap (es_Router s));
          (wm1, out) = sse_Process (ad_Env A) (ad_Float A) (ad_Fresh A) wm body;
          ((w', m), out') =
            (if endOfStream
             then (let (wm2, remaining) = sse_Flush (ad_Env A) (ad_Float A) (ad_Fresh A) wm1
                   in (wm2, out @ remaining))
             else (wm1, out))
      in (with_ids s m, w', out'))"

definition on_ResponseBody ::
  "'r adapter \<Rightarrow> 'r ExtProcServer \<Rightarrow> stream_state \<Rightarrow> string \<Rightarrow> bool \<Rightarrow> bool \<Rightarrow> 'r step" where
  "on_ResponseBody A s st body endOfStream ok =
     (let observer = map_option (\<lambda>ob. let ob1 = observer_Process ob body
                                      in if endOfStream then observer_Flush ob1 else ob1)
                       (st_Observer st);
          (s', rewriter, body') =
            (case st_Rewriter st of
               None \<Rightarrow> (s, None, body)
             | Some w \<Rightarrow> (case rewrite_body A s w body endOfStream of (s', w', out) \<Rightarrow> (s', Some w', out)));
          st' = st\<lparr>st_Observer := observer, st_Rewriter := rewriter\<rparr>;
          response = plain_response (ResponseBodyResponse (common_response False [] [] (Some body')))
      in if ok \<and> endOfStream then (s', [response], Return st' None) else sending ok s' [response] st')"

definition process_message ::
  "'r adapter \<Rightarrow> 'r ExtProcServer \<Rightarrow> stream_state \<Rightarrow> message \<Rightarrow> bool \<Rightarrow> 'r step" where
  "process_message A s st msg ok =
     (case msg of
        RequestHeaders r \<Rightarrow> on_RequestHeaders s st r ok
      | RequestBody r \<Rightarrow> on_RequestBody A s st r ok
      | ResponseHeaders r \<Rightarrow> on_ResponseHeaders A s st r ok
      | ResponseBody body endOfStream \<Rightarrow> on_ResponseBody A s st body endOfStream ok
      | Trailers \<Rightarrow> (s, [], Continue st)
      | RecvFailed \<Rightarrow> (s, [], Return st (Some ReceiveError)))"

text \<open>The deferred clean-up, which runs on every exit.\<close>

definition stream_exit :: "'r adapter \<Rightarrow> 'r ExtProcServer \<Rightarrow> stream_state \<Rightarrow> 'r ExtProcServer" where
  "stream_exit A s st =
     (case st_Rewriter st of
        None \<Rightarrow> s
      | Some w \<Rightarrow>
          with_ids s (snd (fst (sse_Flush (ad_Env A) (ad_Float A) (ad_Fresh A)
                                  (w, ro_ElicitationMap (es_Router s))))))"

datatype stream_end = Waiting stream_state | Ended "stream_error option" | Crashed

text \<open>
  \<open>Process\<close> on a sequence of messages, each with the success of sending its response: the server, the
  responses and whether the stream has ended.
\<close>

fun Process ::
  "'r adapter \<Rightarrow> 'r ExtProcServer \<Rightarrow> stream_state \<Rightarrow> (message \<times> bool) list \<Rightarrow>
   'r ExtProcServer \<times> ProcessingResponse list \<times> stream_end" where
  "Process A s st [] = (s, [], Waiting st)"
| "Process A s st ((msg, ok) # msgs) =
     (case process_message A s st msg ok of
        (s', resp, Continue st') \<Rightarrow>
          (let (s'', resps, e) = Process A s' st' msgs in (s'', resp @ resps, e))
      | (s', resp, Return st' e) \<Rightarrow> (stream_exit A s' st', resp, Ended e)
      | (s', resp, Panic st') \<Rightarrow> (stream_exit A s' st', resp, Crashed))"

section \<open>What routing leaves alone\<close>

definition cache_only :: "'r Router202511 \<Rightarrow> 'r Router202511 \<Rightarrow> bool" where
  "cache_only r r' \<longleftrightarrow>
     ro_RoutingConfig r' = ro_RoutingConfig r \<and> ro_Table r' = ro_Table r \<and>
     ro_PrefixOrder r' = ro_PrefixOrder r \<and> ro_JWTManager r' = ro_JWTManager r \<and>
     ro_ElicitationMap r' = ro_ElicitationMap r \<and> ro_ElicitationEnabled r' = ro_ElicitationEnabled r"

lemma cache_only_simps [simp]:
  "cache_only r r" "cache_only r (with_cache r c)"
  "cache_only r ((with_cache r c)\<lparr>ro_TokenElicitationMap := m\<rparr>)"
  by (simp_all add: cache_only_def with_cache_def)

lemma cache_only_trans: "cache_only r r1 \<Longrightarrow> cache_only r1 r2 \<Longrightarrow> cache_only r r2"
  by (simp add: cache_only_def)

lemma store_backend_session_frame: "cache_only r (fst (store_backend_session E r jm mr cfg i))"
  by (simp add: store_backend_session_def sessionCloser_def Let_def split: prod.splits option.splits sum.splits)

lemma store_frame_with_cache [simp]:
  "cache_only r (fst (store_backend_session E (with_cache r c) jm mr cfg i))"
  by (rule cache_only_trans[OF cache_only_simps(2) store_backend_session_frame])

lemma create_backend_session_frame: "cache_only r (fst (create_backend_session E r mr cfg))"
  unfolding create_backend_session_def Let_def case_prod_unfold
  by (simp split: option.split sum.split)

lemma initialize_frame: "cache_only r (fst (initializeMCPServerSession E r mr))"
  by (auto simp: initializeMCPServerSession_def create_backend_session_frame
      split: option.splits sum.splits)

lemma routeToUpstream_frame: "cache_only r (fst (routeToUpstream E r mr si h))"
  using initialize_frame[of r E mr]
  by (auto simp: routeToUpstream_def Let_def split: prod.splits sum.splits)

lemma resolveUpstreamToken_frame: "cache_only r (fst (resolveUpstreamToken E r mr si h))"
  by (simp add: resolveUpstreamToken_def Let_def split: prod.splits option.splits sum.splits bool.splits)

lemma routeBrokerPassthrough_same: "fst (routeBrokerPassthrough E r mr) = r"
  by (simp add: routeBrokerPassthrough_def Let_def split: option.splits)

lemma routeToolCall_frame: "cache_only r (fst (routeToolCall E r mr))"
proof -
  have "cache_only r (fst (routeToUpstream E r1 mr1 si h))" if "resolveUpstreamToken E r mr2 si2 h2 = (r1, res)"
    for r1 mr1 si h mr2 si2 h2 res
    using cache_only_trans[OF _ routeToUpstream_frame] resolveUpstreamToken_frame[of r E mr2 si2 h2] that
    by auto
  moreover have "cache_only r r1" if "resolveUpstreamToken E r mr2 si2 h2 = (r1, res)" for r1 mr2 si2 h2 res
    using resolveUpstreamToken_frame[of r E mr2 si2 h2] that by auto
  ultimately show ?thesis
    using routeBrokerPassthrough_same[of E r mr] routeToUpstream_frame[of r E]
    by (auto simp: routeToolCall_def Let_def split: option.splits prod.splits token_result.splits)
qed

lemma routePromptGet_frame: "cache_only r (fst (routePromptGet E r mr))"
  by (auto simp: routePromptGet_def Let_def routeToUpstream_frame split: option.splits)

text \<open>
  A routed request changes the caches, and at most removes one entry of the id map.
\<close>

definition routing_effect :: "'r env \<Rightarrow> 'r Router202511 \<Rightarrow> 'r Router202511 \<Rightarrow> bool" where
  "routing_effect E r r' \<longleftrightarrow>
     cache_only r r' \<or> (\<exists>i. r' = r\<lparr>ro_ElicitationMap := IDMap_Remove E (ro_ElicitationMap r) i\<rparr>)"

lemma RouteRequest_effect: "routing_effect E r (fst (RouteRequest E r req))"
proof -
  have "cache_only r (fst (routeElicitationResponse E r mr)) \<or>
      (\<exists>i. fst (routeElicitationResponse E r mr) = r\<lparr>ro_ElicitationMap := IDMap_Remove E (ro_ElicitationMap r) i\<rparr>)"
    for mr
    by (auto simp: routeElicitationResponse_def Let_def split: option.splits sum.splits)
  then show ?thesis
    using routeToolCall_frame[of r E] routePromptGet_frame[of r E] routeBrokerPassthrough_same[of E r]
    by (cases req) (auto simp: RouteRequest_def routing_effect_def case_prod_unfold Let_def)
qed

lemma routing_effect_setup:
  "routing_effect E r r' \<Longrightarrow> ro_JWTManager r' = ro_JWTManager r \<and> ro_RoutingConfig r' = ro_RoutingConfig r \<and>
     ro_Table r' = ro_Table r"
  by (auto simp: routing_effect_def cache_only_def)

lemma HandleResponse_frame: "cache_only r (fst (HandleResponse E r input))"
  by (simp add: HandleResponse_def Let_def split: option.splits)

section \<open>Every message is answered once\<close>

fun answers :: "message \<Rightarrow> phase_response \<Rightarrow> bool" where
  "answers (RequestHeaders _) (RequestHeadersResponse _) = True"
| "answers (RequestBody _) (RequestBodyResponse _) = True"
| "answers (ResponseHeaders _) (ResponseHeadersResponse _) = True"
| "answers (ResponseBody _ _) (ResponseBodyResponse _) = True"
| "answers (ResponseBody _ _) _ = False"
| "answers Trailers _ = False"
| "answers RecvFailed _ = False"
| "answers _ (ImmediateResponse _ _ _ _) = True"
| "answers _ _ = False"

definition phase :: "message \<Rightarrow> bool" where
  "phase msg \<longleftrightarrow> msg \<noteq> Trailers \<and> msg \<noteq> RecvFailed"

lemmas builder_defs =
  NewResponse_def WithRequestHeadersResponse_def WithRequestBodyHeadersAndBodyResponse_def
  WithRequestBodyHeadersResponse_def WithRequestBodySetUnsetHeadersResponse_def
  WithImmediateResponse_def WithImmediateJSONRPCResponse_def WithImmediateJSONResponse_def
  WithDoNothingResponse_def WithDoNothingResponseHeaderResponse_def WithResponseHeaderResponse_def
  plain_response_def

text \<open>One response, of the phase of the message or immediate; the loop does not panic.\<close>

definition answered :: "message \<Rightarrow> 'r step \<Rightarrow> bool" where
  "answered msg step \<longleftrightarrow>
     (\<exists>p. fst (snd step) = [p] \<and> answers msg (ps_Response p)) \<and> (\<forall>st. snd (snd step) \<noteq> Panic st)"

lemma answered_sending [simp]:
  "answered msg (sending ok s resp st) \<longleftrightarrow> (\<exists>p. resp = [p] \<and> answers msg (ps_Response p))"
  by (simp add: answered_def sending_def)

lemma answered_failing [simp]:
  "answered msg (failing s resp st e) \<longleftrightarrow> (\<exists>p. resp = [p] \<and> answers msg (ps_Response p))"
  by (simp add: answered_def failing_def)

lemma on_RequestHeaders_answered: "answered (RequestHeaders r) (on_RequestHeaders s st r ok)"
  by (auto simp: on_RequestHeaders_def a2a_request_headers_def HandleRequestHeaders_def builder_defs Let_def
      split: option.splits)

lemma a2a_request_body_answered:
  "\<exists>p. fst (a2a_request_body a body) = [p] \<and> answers (RequestBody r) (ps_Response p)"
  by (auto simp: a2a_request_body_def builder_defs split: option.splits)

lemma decisionToResponse_answered:
  "decisionToResponse order d = Some resp \<Longrightarrow> \<exists>p. resp = [p] \<and> answers (RequestBody r) (ps_Response p)"
  by (auto simp: decisionToResponse_def builder_defs Let_def split: option.splits RouteError.splits)

definition no_panic :: "Decision \<Rightarrow> bool" where
  "no_panic d \<longleftrightarrow> de_Error d \<noteq> Some NilManager"

lemma no_panic_simps [simp]:
  "no_panic (reject code msg)" "no_panic internal_error" "no_panic (reject_sse e i)" "no_panic (init_rejection err)"
  by (auto simp: no_panic_def reject_def internal_error_def reject_sse_def init_rejection_def empty_Decision_def
      split: router_error.splits)

lemma upstream_no_panic: "no_panic (snd (snd (routeToUpstream E r mr si h)))"
proof -
  have "no_panic (snd (upstream_decision E m si h i))" for m i
    by (auto simp: upstream_decision_def Let_def no_panic_def internal_error_def reject_def empty_Decision_def
        split: option.splits)
  then show ?thesis
    by (simp add: routeToUpstream_def Let_def case_prod_unfold split: sum.split)
qed

lemma session_no_panic:
  "ro_JWTManager r \<noteq> None \<Longrightarrow> session_rejection (validateSession E r sid) = Some d \<Longrightarrow> no_panic d"
  by (auto simp: session_rejection_def validateSession_def split: option.splits prod.splits if_splits)

lemma passthrough_no_panic: "no_panic (snd (snd (routeBrokerPassthrough E r mr)))"
  by (auto simp: routeBrokerPassthrough_def Let_def no_panic_def internal_error_def reject_def empty_Decision_def
      split: option.splits)

lemma RouteRequest_no_panic:
  assumes "ro_JWTManager r \<noteq> None"
  shows "no_panic (snd (snd (RouteRequest E r req)))"
proof -
  have e: "no_panic (empty_Decision\<lparr>de_Path := a, de_SetHeaders := b\<rparr>)" for a b
    by (simp add: no_panic_def empty_Decision_def)
  have "no_panic (snd (snd (routeToolCall E r mr)))" for mr
    using session_no_panic[OF assms] upstream_no_panic[of E] passthrough_no_panic[of E r mr] e
    unfolding routeToolCall_def Let_def
    by (auto split: option.splits prod.splits token_result.splits)
  moreover have "no_panic (snd (snd (routePromptGet E r mr)))" for mr
    using session_no_panic[OF assms] upstream_no_panic[of E r]
    by (auto simp: routePromptGet_def Let_def split: option.splits)
  moreover have "no_panic (snd (snd (routeElicitationResponse E r mr)))" for mr
    using session_no_panic[OF assms]
    by (auto simp: routeElicitationResponse_def Let_def no_panic_def empty_Decision_def
        internal_error_def reject_def split: option.splits sum.splits)
  ultimately show ?thesis
    using passthrough_no_panic[of E r]
    by (cases req) (auto simp: RouteRequest_def case_prod_unfold Let_def)
qed

lemma on_RequestBody_answered:
  assumes "ro_JWTManager (es_Router s) \<noteq> None" and "r \<noteq> None"
  shows "answered (RequestBody r) (on_RequestBody A s st r ok)"
proof -
  have mcp: "answered (RequestBody r) (mcp_request_body A s st h body ok)" for h body
  proof -
    have "\<exists>resp. decisionToResponse order d = Some resp" if "no_panic d" for order d
      using that by (auto simp: decisionToResponse_def no_panic_def Let_def split: option.splits RouteError.splits)
    from this[OF RouteRequest_no_panic[OF assms(1)]] show ?thesis
      using decisionToResponse_answered[of "ad_Order A" _ _ r]
      by (auto simp: mcp_request_body_def Let_def builder_defs split: prod.splits option.splits)
        (metis option.distinct(1) snd_conv)
  qed
  show ?thesis
    using a2a_request_body_answered[of _ _ r] assms(2) mcp
    by (auto simp: on_RequestBody_def builder_defs case_prod_unfold Let_def split: option.splits)
qed

lemma on_ResponseHeaders_answered: "answered (ResponseHeaders r) (on_ResponseHeaders A s st r ok)"
proof -
  have "\<exists>p. override_first m [plain_response (ResponseHeadersResponse c)] = [p] \<and>
      answers (ResponseHeaders r) (ps_Response p)" for m c
    by (simp add: plain_response_def)
  moreover have "\<exists>p. responseDecisionToResponse order d = [p] \<and> answers (ResponseHeaders r) (ps_Response p)" for order d
    by (simp add: responseDecisionToResponse_def builder_defs Let_def)
  ultimately show ?thesis
    by (auto simp: on_ResponseHeaders_def a2a_response_headers_def mcp_response_headers_def answered_def sending_def
        failing_def builder_defs Let_def case_prod_unfold split: option.splits)
qed

lemma on_ResponseBody_answered: "answered (ResponseBody body eos) (on_ResponseBody A s st body eos ok)"
  by (simp add: on_ResponseBody_def answered_def sending_def builder_defs Let_def case_prod_unfold)

end
