(* ===== verification/Ext_Proc_Correct.thy ===== *)
theory Ext_Proc_Correct
  imports Ext_Proc "HOL-Library.Sublist"
begin

text \<open>
  The properties of whole streams of the external processor: one answer for each message, A2A
  exchanges forwarded as they are, and no id mapping left behind.
\<close>

section \<open>One answer for each message\<close>

lemma process_message_answered:
  assumes "ro_JWTManager (es_Router s) \<noteq> None" and "msg \<noteq> RequestBody None" and "phase msg"
  shows "answered msg (process_message A s st msg ok)"
  using assms on_RequestBody_answered[OF assms(1)] on_RequestHeaders_answered on_ResponseHeaders_answered
    on_ResponseBody_answered
  by (cases msg) (auto simp: process_message_def phase_def)

text \<open>A step changes the router as routing or a response does, or its id map only.\<close>

definition step_effect :: "'r env \<Rightarrow> 'r ExtProcServer \<Rightarrow> 'r ExtProcServer \<Rightarrow> bool" where
  "step_effect E s s' \<longleftrightarrow>
     routing_effect E (es_Router s) (es_Router s') \<or> (\<exists>m. s' = with_ids s m)"

lemma step_effect_same [simp]: "step_effect E s s"
  by (simp add: step_effect_def routing_effect_def)

lemma step_effect_manager:
  "step_effect E s s' \<Longrightarrow> ro_JWTManager (es_Router s') = ro_JWTManager (es_Router s)"
  by (auto simp: step_effect_def with_ids_def dest: routing_effect_setup)

lemma fst_sending [simp]: "fst (sending ok s resp st) = s" "fst (failing s resp st e) = s"
  by (simp_all add: sending_def failing_def)

lemma process_message_effect: "step_effect (ad_Env A) s (fst (process_message A s st msg ok))"
proof -
  have "step_effect (ad_Env A) s (fst (mcp_request_body A s st h body ok))" for h body
    by (simp add: mcp_request_body_def case_prod_unfold Let_def split: option.split)
      (simp add: step_effect_def RouteRequest_effect)
  moreover have "step_effect (ad_Env A) s (fst (mcp_response_headers A s st l h))" for l h
    using HandleResponse_frame[of "es_Router s" "ad_Env A"]
    by (simp add: mcp_response_headers_def step_effect_def routing_effect_def case_prod_unfold Let_def)
  moreover have "step_effect (ad_Env A) s (fst (rewrite_body A s w body eos))" for w body eos
    by (auto simp: rewrite_body_def step_effect_def case_prod_unfold Let_def)
  ultimately show ?thesis
    by (cases msg)
      (auto simp: process_message_def on_RequestHeaders_def on_RequestBody_def on_ResponseHeaders_def
        on_ResponseBody_def case_prod_unfold Let_def split: option.splits)
qed


section \<open>A2A exchanges\<close>

text \<open>A response that changes nothing of what it answers, or replaces the exchange by an error.\<close>

fun forwards :: "phase_response \<Rightarrow> bool" where
  "forwards (RequestHeadersResponse c) = False"
| "forwards (RequestBodyResponse c) = (c = None)"
| "forwards (ResponseHeadersResponse c) = (c = None)"
| "forwards (ResponseBodyResponse c) = (\<exists>body. c = common_response False [] [] (Some body))"
| "forwards (ImmediateResponse _ _ _ _) = True"

fun forwarded_body :: "phase_response \<Rightarrow> string list" where
  "forwarded_body (ResponseBodyResponse (Some c)) = (case cr_Body c of Some b \<Rightarrow> [b] | None \<Rightarrow> [])"
| "forwarded_body _ = []"

fun received_body :: "message \<Rightarrow> string list" where
  "received_body (ResponseBody body _) = [body]"
| "received_body _ = []"

definition forwarded_bodies :: "ProcessingResponse list \<Rightarrow> string list" where
  "forwarded_bodies resps = concat (map (\<lambda>p. forwarded_body (ps_Response p)) resps)"

definition received_bodies :: "(message \<times> bool) list \<Rightarrow> string list" where
  "received_bodies msgs = concat (map (\<lambda>m. received_body (fst m)) msgs)"

lemma forwarded_bodies_simps [simp]:
  "forwarded_bodies [] = []" "forwarded_bodies (p # ps) = forwarded_body (ps_Response p) @ forwarded_bodies ps"
  "forwarded_bodies (ps @ qs) = forwarded_bodies ps @ forwarded_bodies qs"
  by (simp_all add: forwarded_bodies_def)

lemma received_bodies_simps [simp]:
  "received_bodies [] = []" "received_bodies (m # ms) = received_body (fst m) @ received_bodies ms"
  by (simp_all add: received_bodies_def)

definition a2a_stream :: "stream_state \<Rightarrow> bool" where
  "a2a_stream st \<longleftrightarrow> st_A2A st \<noteq> None \<and> st_Rewriter st = None"

fun outcome_state :: "outcome \<Rightarrow> stream_state" where
  "outcome_state (Continue st) = st"
| "outcome_state (Return st _) = st"
| "outcome_state (Panic st) = st"

lemma outcome_sending [simp]:
  "outcome_state (snd (snd (sending ok s resp st))) = st"
  "outcome_state (snd (snd (failing s resp st e))) = st"
  "fst (snd (sending ok s resp st)) = resp" "fst (snd (failing s resp st e)) = resp"
  by (simp_all add: sending_def failing_def)

definition a2a_step :: "'r ExtProcServer \<Rightarrow> message \<Rightarrow> 'r step \<Rightarrow> bool" where
  "a2a_step s msg step \<longleftrightarrow>
     fst step = s \<and> a2a_stream (outcome_state (snd (snd step))) \<and>
     list_all (\<lambda>p. forwards (ps_Response p)) (fst (snd step)) \<and>
     forwarded_bodies (fst (snd step)) = received_body msg"

lemma a2a_request_body_forwards:
  "\<exists>p. fst (a2a_request_body a body) = [p] \<and> forwards (ps_Response p) \<and> forwarded_body (ps_Response p) = []"
  by (auto simp: a2a_request_body_def builder_defs split: option.splits)

lemma a2a_response_headers_forwards:
  "\<exists>p. fst (a2a_response_headers st a code) = [p] \<and> forwards (ps_Response p) \<and>
       forwarded_body (ps_Response p) = []"
  "a2a_stream st \<Longrightarrow> a2a_stream (snd (a2a_response_headers st a code))"
  by (auto simp: a2a_response_headers_def builder_defs a2a_stream_def Let_def)

lemma process_message_a2a:
  assumes st: "a2a_stream st" and msg: "\<forall>r. msg \<noteq> RequestHeaders r"
  shows "a2a_step s msg (process_message A s st msg ok)"
proof (cases msg)
  case (RequestBody r)
  have "a2a_step s (RequestBody r) (sending ok s (fst (a2a_request_body a b)) (st\<lparr>st_A2A := Some a'\<rparr>))"
    for a b a'
    using st a2a_request_body_forwards[of a b] by (auto simp: a2a_step_def a2a_stream_def)
  then show ?thesis
    using st unfolding RequestBody process_message_def on_RequestBody_def
    by (auto simp: a2a_step_def a2a_stream_def builder_defs case_prod_unfold Let_def split: option.splits)
next
  case (ResponseHeaders r)
  obtain a where a: "st_A2A st = Some a" using st by (auto simp: a2a_stream_def)
  have fin: "a2a_step s (ResponseHeaders r) (s, fst x, Return (snd x) None)"
      "a2a_step s (ResponseHeaders r) (sending ok s (fst x) (snd x))"
    if "x = a2a_response_headers st a code" for x code
    using a2a_response_headers_forwards(1)[of st a code] a2a_response_headers_forwards(2)[OF st, of a code]
    unfolding that by (auto simp: a2a_step_def)
  show ?thesis
  proof (cases "r = None \<or> st_RequestHeaders st = None")
    case True
    then have "process_message A s st msg ok =
        failing s (WithImmediateResponse 500 ''internal error'' NewResponse) st MissingResponseHeaders"
      unfolding ResponseHeaders by (auto simp: process_message_def on_ResponseHeaders_def split: option.splits)
    with st ResponseHeaders show ?thesis by (simp add: a2a_step_def builder_defs)
  next
    case False
    then obtain h l where "r = Some h" "st_RequestHeaders st = Some l" by auto
    with a fin ResponseHeaders show ?thesis
      by (simp add: process_message_def on_ResponseHeaders_def case_prod_unfold Let_def)
  qed
next
  case (ResponseBody body eos)
  show ?thesis
    using st unfolding ResponseBody process_message_def on_ResponseBody_def
    by (auto simp: a2a_step_def a2a_stream_def builder_defs common_response_def Let_def)
qed (use assms in \<open>auto simp: process_message_def a2a_step_def\<close>)

lemma stream_exit_a2a: "a2a_stream st \<Longrightarrow> stream_exit A s st = s"
  by (simp add: stream_exit_def a2a_stream_def)

lemma Process_a2a:
  assumes "a2a_stream st" and "\<forall>(msg, ok) \<in> set msgs. \<forall>r. msg \<noteq> RequestHeaders r"
    and "Process A s st msgs = (s', resps, e)"
  shows "s' = s \<and> list_all (\<lambda>p. forwards (ps_Response p)) resps \<and>
     prefix (forwarded_bodies resps) (received_bodies msgs)"
  using assms
proof (induction msgs arbitrary: st resps)
  case (Cons mo msgs)
  obtain msg ok where mo: "mo = (msg, ok)" by (cases mo)
  obtain s1 resp out where step: "process_message A s st msg ok = (s1, resp, out)" by (metis prod.exhaust)
  have a: "s1 = s" "a2a_stream (outcome_state out)" "list_all (\<lambda>p. forwards (ps_Response p)) resp"
    "forwarded_bodies resp = received_body msg"
    using process_message_a2a[OF Cons.prems(1), of msg s A ok] Cons.prems(2) step mo
    by (auto simp: a2a_step_def)
  show ?case
  proof (cases out)
    case (Continue st1)
    then obtain resps1 where "Process A s st1 msgs = (s', resps1, e)" "resps = resp @ resps1"
      using Cons.prems(3) step mo a(1) by (auto split: prod.splits)
    with Cons.IH[of st1 resps1] a Cons.prems(2) mo Continue show ?thesis by auto
  next
    case (Return st1 err)
    with Cons.prems(3) step mo a show ?thesis by (auto simp: stream_exit_a2a)
  next
    case (Panic st1)
    with Cons.prems(3) step mo a show ?thesis by (auto simp: stream_exit_a2a)
  qed
qed simp

text \<open>The answer to the headers of an A2A request.\<close>

definition a2a_route :: "(string \<Rightarrow> string \<Rightarrow> A2AAgent option) \<Rightarrow> string \<Rightarrow> string \<Rightarrow> phase_response \<Rightarrow> bool" where
  "a2a_route agents path meth p \<longleftrightarrow>
     (if meth \<noteq> ''POST'' then p = RequestHeadersResponse None
      else
        (case resolveA2APath path of
           None \<Rightarrow> (\<exists>b d h. p = ImmediateResponse 200 b d h)
         | Some (ns, pre) \<Rightarrow>
             (case agents ns pre of
                None \<Rightarrow> (\<exists>b d h. p = ImmediateResponse 200 b d h)
              | Some agent \<Rightarrow>
                  p = RequestHeadersResponse (common_response True
                        [('':authority'', ag_Hostname agent), ('':path'', ''/a2a'')] InternalOnlyHeaders None))))"

lemma a2a_request_headers_route:
  "\<exists>p. fst (a2a_request_headers s agents path meth) = [plain_response p] \<and> a2a_route agents path meth p"
  by (auto simp: a2a_request_headers_def a2a_route_def builder_defs WithPath_def WithAuthority_def
      NewHeaders_def AuthorityHeader_def a2aBackendPath_def Let_def split: option.splits)

text \<open>
  C28: an A2A exchange is forwarded as it is. A request whose path is an A2A path is answered with the
  route to the agent its namespace and prefix name, without the gateway's internal headers (a request
  that is not a POST goes on untouched, and one that names no agent is rejected). Nothing of the
  server, its session cache or its id map changes in the whole exchange; every later response either
  lets its phase through or rejects the request; and the bodies that reach the client are those that
  came from the agent, in their order.
\<close>

theorem a2a_exchange_is_forwarded:
  assumes broker: "es_A2ABroker s = Some agents"
    and path: "path = getSingleValueHeader (hh_Headers h) '':path''" "isA2APath path"
    and rest: "\<forall>(msg, ok) \<in> set msgs. \<forall>r. msg \<noteq> RequestHeaders r"
    and run: "Process A s initial_stream ((RequestHeaders (Some h), True) # msgs) = (s', resps, e)"
  shows "s' = s \<and>
     (\<exists>p ps. resps = p # ps \<and>
        a2a_route agents path (getSingleValueHeader (hh_Headers h) '':method'') (ps_Response p) \<and>
        list_all (\<lambda>p. forwards (ps_Response p)) ps \<and>
        prefix (forwarded_bodies ps) (received_bodies msgs))"
proof -
  let ?m = "getSingleValueHeader (hh_Headers h) '':method''"
  obtain p where p: "fst (a2a_request_headers s agents path ?m) = [plain_response p]" "a2a_route agents path ?m p"
    using a2a_request_headers_route by blast
  obtain st where st: "process_message A s initial_stream (RequestHeaders (Some h)) True =
      (s, [plain_response p], Continue st)" "a2a_stream st"
    using broker path p(1)
    by (auto simp: process_message_def on_RequestHeaders_def sending_def case_prod_unfold Let_def
        a2a_stream_def initial_stream_def)
  obtain ps where "Process A s st msgs = (s', ps, e)" "resps = plain_response p # ps"
    using run st(1) by (auto split: prod.splits)
  with Process_a2a[OF st(2) rest, of A s s' ps e] p(2) show ?thesis by (simp add: plain_response_def)
qed

section \<open>Identifiers of an exchange\<close>

text \<open>An id map that has, next to the identifiers of the stream itself, nothing but old entries.\<close>

definition old_or_own :: "id_memory \<Rightarrow> string set \<Rightarrow> 'r IDMap \<Rightarrow> bool" where
  "old_or_own ids0 own m \<longleftrightarrow>
     (\<exists>ids. m = MemoryIDs ids \<and> (\<forall>i. i \<notin> own \<longrightarrow> ids i = None \<or> ids i = ids0 i))"

definition own_ids :: "'r rewriting \<Rightarrow> string set" where
  "own_ids wm = set (rw_gatewayIDs (fst wm))"

definition rewriting_ok :: "id_memory \<Rightarrow> 'r rewriting \<Rightarrow> bool" where
  "rewriting_ok ids0 wm \<longleftrightarrow> old_or_own ids0 (own_ids wm) (snd wm)"

lemma rewrite_line_ok: "rewriting_ok ids0 wm \<Longrightarrow> rewriting_ok ids0 (fst (rewrite_line E f64 fresh wm line))"
  by (cases wm)
    (auto simp: rewrite_line_def maybeRewriteElicitation_def rewriting_ok_def old_or_own_def own_ids_def
      IDMap_Store_def idmap_Store_def Let_def split: option.splits)

lemma through_ok:
  "rewriting_ok ids0 wm \<Longrightarrow> rewriting_ok ids0 (fst (through (rewrite_line E f64 fresh) wm ls))"
  by (induction ls arbitrary: wm) (auto simp: rewrite_line_ok case_prod_unfold Let_def)

lemma rewriting_ok_buf [simp]: "rewriting_ok ids0 (with_buf b wm) = rewriting_ok ids0 wm"
  by (simp add: rewriting_ok_def own_ids_def with_buf_def)

lemma sse_Process_ok: "rewriting_ok ids0 wm \<Longrightarrow> rewriting_ok ids0 (fst (sse_Process E f64 fresh wm c))"
  by (simp add: sse_Process_eq rewriting.run_lines case_prod_unfold Let_def through_ok)

lemma old_or_own_removed:
  "old_or_own ids0 (set is) m \<Longrightarrow> old_or_own ids0 {} (remove_ids E is m)"
  by (auto simp: old_or_own_def remove_ids_memory)

lemma sse_Flush_ok:
  assumes "rewriting_ok ids0 wm"
  shows "old_or_own ids0 {} (snd (fst (sse_Flush E f64 fresh wm)))"
    and "rw_gatewayIDs (fst (fst (sse_Flush E f64 fresh wm))) = []"
proof -
  obtain w m where wm: "wm = (w, m)" by (cases wm)
  let ?wm = "(w\<lparr>rw_buf := []\<rparr>, m)"
  have ok: "rewriting_ok ids0 ?wm" using assms wm by (simp add: rewriting_ok_def own_ids_def)
  then have line: "rewriting_ok ids0 (fst (rewrite_line E f64 fresh ?wm (rw_buf w)))"
    by (rule rewrite_line_ok)
  show "old_or_own ids0 {} (snd (fst (sse_Flush E f64 fresh wm)))"
    using line ok unfolding wm sse_Flush_def rewriting_ok_def own_ids_def
    by (simp add: case_prod_unfold Let_def old_or_own_removed)
  show "rw_gatewayIDs (fst (fst (sse_Flush E f64 fresh wm))) = []"
    by (simp add: wm sse_Flush_def case_prod_unfold Let_def)
qed

definition stream_ids :: "stream_state \<Rightarrow> string set" where
  "stream_ids st = (case st_Rewriter st of None \<Rightarrow> {} | Some w \<Rightarrow> set (rw_gatewayIDs w))"

definition stream_inv :: "id_memory \<Rightarrow> 'r ExtProcServer \<Rightarrow> stream_state \<Rightarrow> bool" where
  "stream_inv ids0 s st \<longleftrightarrow> old_or_own ids0 (stream_ids st) (ro_ElicitationMap (es_Router s))"

lemma routing_effect_inv:
  assumes "old_or_own ids0 own (ro_ElicitationMap r)" and "routing_effect E r r'"
  shows "old_or_own ids0 own (ro_ElicitationMap r')"
  using assms
  by (auto simp: routing_effect_def cache_only_def old_or_own_def IDMap_Remove_def idmap_Remove_def)

lemma mcp_request_body_keeps:
  "st_Rewriter (outcome_state (snd (snd (mcp_request_body A s st h body ok)))) = st_Rewriter st"
  "routing_effect (ad_Env A) (es_Router s) (es_Router (fst (mcp_request_body A s st h body ok)))"
proof -
  have refl: "routing_effect (ad_Env A) (es_Router s) (es_Router s)" by (simp add: routing_effect_def)
  show "st_Rewriter (outcome_state (snd (snd (mcp_request_body A s st h body ok)))) = st_Rewriter st"
    by (simp add: mcp_request_body_def case_prod_unfold Let_def split: option.split)
  show "routing_effect (ad_Env A) (es_Router s) (es_Router (fst (mcp_request_body A s st h body ok)))"
    using refl by (simp add: mcp_request_body_def case_prod_unfold Let_def RouteRequest_effect split: option.split)
qed

text \<open>The phases of a request keep the rewriter and change the id map as routing does.\<close>

lemma request_phase_keeps:
  assumes "msg \<in> range RequestHeaders \<union> range RequestBody \<union> {Trailers, RecvFailed}"
  shows "st_Rewriter (outcome_state (snd (snd (process_message A s st msg ok)))) = st_Rewriter st"
    and "routing_effect (ad_Env A) (es_Router s) (es_Router (fst (process_message A s st msg ok)))"
proof -
  have refl: "routing_effect (ad_Env A) (es_Router s) (es_Router s)" by (simp add: routing_effect_def)
  show "st_Rewriter (outcome_state (snd (snd (process_message A s st msg ok)))) = st_Rewriter st"
    using assms mcp_request_body_keeps(1)[of A s st]
    by (auto simp: process_message_def on_RequestHeaders_def on_RequestBody_def case_prod_unfold Let_def
        split: option.split)
  show "routing_effect (ad_Env A) (es_Router s) (es_Router (fst (process_message A s st msg ok)))"
    using assms refl mcp_request_body_keeps(2)[of A s st]
    by (auto simp: process_message_def on_RequestHeaders_def on_RequestBody_def case_prod_unfold Let_def
        split: option.split)
qed

lemma rewrite_body_inv:
  assumes "old_or_own ids0 (set (rw_gatewayIDs w)) (ro_ElicitationMap (es_Router s))"
    and "rewrite_body A s w body eos = (s', w', out)"
  shows "old_or_own ids0 (set (rw_gatewayIDs w')) (ro_ElicitationMap (es_Router s'))"
proof -
  let ?wm = "(w, ro_ElicitationMap (es_Router s))"
  let ?wm1 = "fst (sse_Process (ad_Env A) (ad_Float A) (ad_Fresh A) ?wm body)"
  have ok: "rewriting_ok ids0 ?wm1"
    using assms(1) by (intro sse_Process_ok) (simp add: rewriting_ok_def own_ids_def)
  show ?thesis
  proof (cases eos)
    case True
    with assms(2) sse_Flush_ok[OF ok, of "ad_Env A" "ad_Float A" "ad_Fresh A"] show ?thesis
      by (auto simp: rewrite_body_def with_ids_def case_prod_unfold Let_def)
  next
    case False
    with assms(2) ok show ?thesis
      by (auto simp: rewrite_body_def with_ids_def case_prod_unfold Let_def rewriting_ok_def own_ids_def)
  qed
qed

lemma response_body_inv:
  assumes "stream_inv ids0 s st"
  shows "stream_inv ids0 (fst (on_ResponseBody A s st body eos ok))
           (outcome_state (snd (snd (on_ResponseBody A s st body eos ok))))"
proof (cases "st_Rewriter st")
  case None
  with assms show ?thesis by (simp add: on_ResponseBody_def stream_inv_def stream_ids_def Let_def)
next
  case (Some w)
  obtain s1 w1 out where "rewrite_body A s w body eos = (s1, w1, out)" by (metis prod.exhaust)
  with Some assms rewrite_body_inv[of ids0 w s A body eos s1 w1 out] show ?thesis
    by (simp add: on_ResponseBody_def stream_inv_def stream_ids_def Let_def)
qed

lemma response_headers_inv:
  assumes "stream_inv ids0 s st" and "st_Rewriter st = None"
  shows "stream_inv ids0 (fst (on_ResponseHeaders A s st r ok))
           (outcome_state (snd (snd (on_ResponseHeaders A s st r ok))))"
proof -
  have m: "stream_inv ids0 (fst x) (snd (snd x))" if "x = mcp_response_headers A s st l h" for x l h
    using assms HandleResponse_frame[of "es_Router s" "ad_Env A"] unfolding that
    by (auto simp: mcp_response_headers_def stream_inv_def stream_ids_def cache_only_def new_rewriter_def
        case_prod_unfold Let_def split: option.splits)
  have a: "stream_inv ids0 s (snd (a2a_response_headers st a code))" for a code
    using assms by (simp add: a2a_response_headers_def stream_inv_def stream_ids_def Let_def)
  show ?thesis
    using assms(1) m a by (auto simp: on_ResponseHeaders_def case_prod_unfold Let_def split: option.splits)
qed

definition is_response_headers :: "message \<times> bool \<Rightarrow> bool" where
  "is_response_headers m \<longleftrightarrow> fst m \<in> range ResponseHeaders"

lemma is_response_headers_pair [simp]:
  "is_response_headers (msg, ok) \<longleftrightarrow> msg \<in> range ResponseHeaders"
  by (simp add: is_response_headers_def)

lemma process_message_inv:
  assumes "stream_inv ids0 s st" and "msg \<in> range ResponseHeaders \<Longrightarrow> st_Rewriter st = None"
  shows "stream_inv ids0 (fst (process_message A s st msg ok))
           (outcome_state (snd (snd (process_message A s st msg ok))))"
proof (cases msg)
  case (ResponseHeaders r)
  with assms response_headers_inv[OF assms(1)] show ?thesis by (simp add: process_message_def)
next
  case (ResponseBody body eos)
  with response_body_inv[OF assms(1)] show ?thesis by (simp add: process_message_def)
qed (use request_phase_keeps[of msg A s st ok] routing_effect_inv assms(1)
     in \<open>auto simp: stream_inv_def stream_ids_def\<close>)

lemma process_message_rewriter:
  assumes "msg \<notin> range ResponseHeaders" and "st_Rewriter st = None"
  shows "st_Rewriter (outcome_state (snd (snd (process_message A s st msg ok)))) = None"
proof (cases msg)
  case (ResponseBody body eos)
  with assms show ?thesis by (simp add: process_message_def on_ResponseBody_def Let_def)
qed (use request_phase_keeps(1)[of msg A s st ok] assms in auto)

lemma stream_exit_inv:
  "stream_inv ids0 s st \<Longrightarrow> old_or_own ids0 {} (ro_ElicitationMap (es_Router (stream_exit A s st)))"
  using sse_Flush_ok(1)[of ids0 "(w, ro_ElicitationMap (es_Router s))" for w]
  by (auto simp: stream_exit_def stream_inv_def stream_ids_def with_ids_def rewriting_ok_def own_ids_def
      split: option.splits)

lemma Process_inv:
  assumes "stream_inv ids0 s st"
    and "length (filter is_response_headers msgs) \<le> (if st_Rewriter st = None then 1 else 0)"
    and "Process A s st msgs = (s', resps, e)" and "\<And>st'. e \<noteq> Waiting st'"
  shows "old_or_own ids0 {} (ro_ElicitationMap (es_Router s'))"
  using assms
proof (induction msgs arbitrary: s st resps)
  case (Cons mo msgs)
  obtain msg ok where mo: "mo = (msg, ok)" by (cases mo)
  obtain s1 resp out where step: "process_message A s st msg ok = (s1, resp, out)" by (metis prod.exhaust)
  have none: "st_Rewriter st = None" if "msg \<in> range ResponseHeaders"
    using that Cons.prems(2) mo by (auto split: if_splits)
  have inv: "stream_inv ids0 s1 (outcome_state out)"
    using process_message_inv[OF Cons.prems(1), of msg A ok] none step by simp
  show ?case
  proof (cases out)
    case (Continue st1)
    have len: "length (filter is_response_headers msgs) \<le> (if st_Rewriter st1 = None then 1 else 0)"
    proof (cases "msg \<in> range ResponseHeaders")
      case True
      then show ?thesis using Cons.prems(2) none mo by auto
    next
      case False
      then show ?thesis
        using Cons.prems(2) mo process_message_rewriter[OF False, of st A s ok] step Continue
        by (auto split: if_splits)
    qed
    obtain resps1 where "Process A s1 st1 msgs = (s', resps1, e)"
      using Cons.prems(3) step Continue mo by (auto split: prod.splits)
    with Cons.IH[of s1 st1 resps1] inv len Cons.prems(4) Continue show ?thesis by simp
  qed (use Cons.prems(3) step mo inv stream_exit_inv in auto)
qed auto

text \<open>
  C29: no exchange leaves an elicitation mapping behind. On whatever path a stream ends (its last
  chunk, an error of the transport, a rejected request, a panic), with at most one message of
  response headers, the in-memory id map has no entry that was not there before with the same value.
\<close>

theorem ended_stream_leaves_no_mapping:
  assumes "ro_ElicitationMap (es_Router s) = MemoryIDs ids0"
    and "length (filter is_response_headers msgs) \<le> 1"
    and "Process A s initial_stream msgs = (s', resps, e)" and "\<forall>st. e \<noteq> Waiting st"
  shows "\<exists>ids. ro_ElicitationMap (es_Router s') = MemoryIDs ids \<and> ids \<subseteq>\<^sub>m ids0"
proof -
  have "stream_inv ids0 s initial_stream"
    using assms(1) by (auto simp: stream_inv_def old_or_own_def)
  then have "old_or_own ids0 {} (ro_ElicitationMap (es_Router s'))"
    using assms by (intro Process_inv[where s = s and st = initial_stream and msgs = msgs and A = A
          and resps = resps and e = e]) (auto simp: initial_stream_def)
  then show ?thesis by (auto simp: old_or_own_def map_le_def) (metis option.distinct(1))
qed

section \<open>Headers and bodies of a request\<close>


text \<open>
  C34: the limit on request bodies. With a positive limit, a request body that is longer is refused
  with status 413 and ends the stream with the server unchanged, whatever protocol it is for; a body
  of exactly the limit is not refused for its size.
\<close>

theorem oversized_bodies_are_refused:
  assumes "st_RequestHeaders st = Some h" and "hh_Headers h = Some hs" and "\<not> st_EndOfStream st"
    and "0 < es_MaxRequestBodySize s"
  shows "(process_message A s st (RequestBody (Some body)) ok =
            (s, [plain_response (ImmediateResponse 413 ''request body too large''
                  ''ext-proc error: request body too large'' [(''content-type'', ''text/plain'')])],
             Return st (Some BodyTooLarge))) \<longleftrightarrow> es_MaxRequestBodySize s < int (length body)"
proof -
  have "snd (snd (mcp_request_body A s st hm body ok)) \<noteq> Return st (Some BodyTooLarge)" for hm
    by (simp add: mcp_request_body_def sending_def case_prod_unfold Let_def split: option.split)
  then have mcp: "mcp_request_body A s st hm body ok \<noteq> (s, resp, Return st (Some BodyTooLarge))" for hm resp
    by (metis snd_conv)
  show ?thesis
    using assms mcp
    by (auto simp: process_message_def on_RequestBody_def failing_def sending_def WithImmediateResponse_def
        NewResponse_def case_prod_unfold Let_def split: option.splits)
qed

section \<open>Witnesses\<close>

definition sample_adapter :: "unit adapter" where
  "sample_adapter = \<lparr>ad_Env = sample_env, ad_Float = Some, ad_Fresh = Itoa, ad_Order = (\<lambda>_. [])\<rparr>"

definition sample_agent :: A2AAgent where
  "sample_agent =
     \<lparr>ag_Name = ''team/weather'', ag_URL = ''http://w'', ag_Hostname = ''w.example'', ag_AgentPrefix = ''weather'',
      ag_Auth = None, ag_Credential = [], ag_AgentCardURL = [], ag_CACert = [], ag_State = []\<rparr>"

definition sample_server_state :: "unit ExtProcServer" where
  "sample_server_state =
     \<lparr>es_Router = sample_router, es_MaxRequestBodySize = 4,
      es_A2ABroker = Some (\<lambda>ns pre. if ns = ''team'' \<and> pre = ''weather'' then Some sample_agent else None)\<rparr>"

definition a2a_headers :: HttpHeaders where
  "a2a_headers =
     \<lparr>hh_Headers = Some [Some ('':path'', ''/a2a/team/weather''), Some ('':method'', ''POST'')],
      hh_EndOfStream = False\<rparr>"

definition mcp_headers :: HttpHeaders where
  "mcp_headers = \<lparr>hh_Headers = Some [Some ('':path'', ''/mcp'')], hh_EndOfStream = False\<rparr>"


theorem a2a_exchange_is_forwarded_witness:
  "\<exists>resps e. Process sample_adapter sample_server_state initial_stream
       [(RequestHeaders (Some a2a_headers), True), (ResponseBody ''data'' True, True)] =
         (sample_server_state, resps, e) \<and>
     ps_Response (hd resps) = RequestHeadersResponse (common_response True
        [('':authority'', ''w.example''), ('':path'', ''/a2a'')] InternalOnlyHeaders None)"
proof -
  obtain s' resps e where run: "Process sample_adapter sample_server_state initial_stream
       ((RequestHeaders (Some a2a_headers), True) # [(ResponseBody ''data'' True, True)]) = (s', resps, e)"
    by (metis prod.exhaust)
  have path: "getSingleValueHeader (hh_Headers a2a_headers) '':path'' = ''/a2a/team/weather''"
    "getSingleValueHeader (hh_Headers a2a_headers) '':method'' = ''POST''"
    by (simp_all add: getSingleValueHeader_def a2a_headers_def)
  have agent: "resolveA2APath ''/a2a/team/weather'' = Some (''team'', ''weather'')"
    using resolve_segments[of "''team''" "''weather''" "[]"] by (simp add: path_segment_def a2aPathPrefix_def)
  have "isA2APath ''/a2a/team/weather''" by (simp add: isA2APath_def a2aPathPrefix_def HasPrefix_def)
  then have "s' = sample_server_state \<and> a2a_route
      (\<lambda>ns pre. if ns = ''team'' \<and> pre = ''weather'' then Some sample_agent else None)
      ''/a2a/team/weather'' ''POST'' (ps_Response (hd resps))"
    using a2a_exchange_is_forwarded[OF _ refl _ _ run] path by (auto simp: sample_server_state_def)
  with run agent show ?thesis by (auto simp: a2a_route_def sample_agent_def)
qed

theorem ended_stream_leaves_no_mapping_witness:
  "\<exists>s' resps ids. Process sample_adapter sample_server_state initial_stream
       [(RequestHeaders (Some mcp_headers), True), (RecvFailed, True)] = (s', resps, Ended (Some ReceiveError)) \<and>
     ro_ElicitationMap (es_Router s') = MemoryIDs ids \<and>
     (\<exists>ids0. ro_ElicitationMap (es_Router sample_server_state) = MemoryIDs ids0 \<and> ids \<subseteq>\<^sub>m ids0)"
proof -
  obtain ids0 where ids0: "ro_ElicitationMap (es_Router sample_server_state) = MemoryIDs ids0"
    by (simp add: sample_server_state_def sample_router_def)
  obtain s' resps where run: "Process sample_adapter sample_server_state initial_stream
       [(RequestHeaders (Some mcp_headers), True), (RecvFailed, True)] = (s', resps, Ended (Some ReceiveError))"
    by (simp add: process_message_def on_RequestHeaders_def sending_def getSingleValueHeader_def mcp_headers_def
        isA2APath_def a2aPathPrefix_def HasPrefix_def Let_def)
  have "length (filter is_response_headers [(RequestHeaders (Some mcp_headers), True), (RecvFailed, True)]) \<le> 1"
    by auto
  from ended_stream_leaves_no_mapping[OF ids0 this run] ids0 run show ?thesis by auto
qed


theorem oversized_bodies_are_refused_witness:
  "\<exists>resp. process_message sample_adapter sample_server_state (initial_stream\<lparr>st_RequestHeaders := Some mcp_headers\<rparr>)
     (RequestBody (Some ''12345'')) True =
     (sample_server_state, resp, Return (initial_stream\<lparr>st_RequestHeaders := Some mcp_headers\<rparr>) (Some BodyTooLarge))"
  using oversized_bodies_are_refused[of "initial_stream\<lparr>st_RequestHeaders := Some mcp_headers\<rparr>" mcp_headers
      "[Some ('':path'', ''/mcp'')]" sample_server_state sample_adapter "''12345''" True]
  by (simp add: mcp_headers_def initial_stream_def sample_server_state_def)

end
