(* ===== verification/Tool_Filters.thy ===== *)
theory Tool_Filters
  imports MCP_Broker
begin

text \<open>
  What a client gets to see of the tools and prompts on the gateway: the filters of
  \<open>filtered_tools_handler.go\<close> and \<open>filtered_prompts_handler.go\<close>, and the broker's own tools of
  \<open>discovery.go\<close> and \<open>tags_handler.go\<close>, all under \<open>internal/broker/\<close>.

  The headers of a request are a map from canonical names to values. The JWT library, the
  certificate parsers, Unicode lower case, the printing of a \<open>float64\<close> and the encoder of the SDK's
  tools are the fields of \<open>handler_env\<close>.
\<close>

section \<open>The environment of a handler\<close>

datatype pubkey = ECDSAKey string | OtherKey

record header_jwt =
  hj_pem_Decode :: "string \<Rightarrow> string option"
  hj_ParsePKIX :: "string \<Rightarrow> string + pubkey"
  hj_Parse :: "string \<Rightarrow> string + string \<Rightarrow> string list \<Rightarrow> string + (string \<times> json) list"

record handler_env =
  he_Broker :: broker_env
  he_JWT :: header_jwt
  he_ToLower :: "string \<Rightarrow> string"
  he_Number :: "string \<Rightarrow> string option"
  he_MarshalTools :: "Tool list \<Rightarrow> string option"

type_synonym http_header = "string list gomap"

definition authorizedCapabilitiesHeader :: string where
  "authorizedCapabilitiesHeader = ''X-Mcp-Authorized''"
definition virtualMCPHeader :: string where "virtualMCPHeader = ''X-Mcp-Virtualserver''"
definition allowedCapabilitiesClaimKey :: string where "allowedCapabilitiesClaimKey = ''allowed-capabilities''"

section \<open>Authorization\<close>

definition validateJWTHeader :: "header_jwt \<Rightarrow> string \<Rightarrow> string \<Rightarrow> string + (string \<times> json) list" where
  "validateJWTHeader H token publicKey =
     (case hj_pem_Decode H publicKey of
        None \<Rightarrow> Inl ''failed to decode PEM block''
      | Some block \<Rightarrow>
          hj_Parse H token
            (case hj_ParsePKIX H block of
               Inl e \<Rightarrow> Inl e
             | Inr OtherKey \<Rightarrow> Inl ''expected *ecdsa.PublicKey''
             | Inr (ECDSAKey k) \<Rightarrow> Inr k)
            [''ES256''])"

text \<open>
  Decoding into \<open>map[string]map[string][]string\<close>: null is a nil map, a nil slice or the empty
  string, the last of equal keys stays, any other kind of value is an error.
\<close>

fun decode_strings :: "json list \<Rightarrow> string list option" where
  "decode_strings [] = Some []"
| "decode_strings (JStr s # vs) = map_option ((#) s) (decode_strings vs)"
| "decode_strings (JNull # vs) = map_option ((#) []) (decode_strings vs)"
| "decode_strings (_ # vs) = None"

definition decode_slice :: "json \<Rightarrow> string list option" where
  "decode_slice j = (case j of JArr vs \<Rightarrow> decode_strings vs | JNull \<Rightarrow> Some [] | _ \<Rightarrow> None)"

fun decode_members :: "(json \<Rightarrow> 'v option) \<Rightarrow> (string \<times> json) list \<Rightarrow> (string \<times> 'v) list \<Rightarrow> (string \<times> 'v) list option" where
  "decode_members f [] acc = Some acc"
| "decode_members f ((k, j) # kvs) acc =
     (case f j of None \<Rightarrow> None | Some v \<Rightarrow> decode_members f kvs (insert_key k v acc))"

definition decode_map :: "(json \<Rightarrow> 'v option) \<Rightarrow> json \<Rightarrow> (string \<times> 'v) list option" where
  "decode_map f j = (case j of JObj kvs \<Rightarrow> decode_members f kvs [] | JNull \<Rightarrow> Some [] | _ \<Rightarrow> None)"

type_synonym allowed_items = "(string \<times> string list) list"

definition parseAuthorizedCapabilitiesJWT ::
  "header_jwt \<Rightarrow> mcpBrokerImpl \<Rightarrow> string list \<Rightarrow> string + (string \<times> allowed_items) list" where
  "parseAuthorizedCapabilitiesJWT H br headerValues =
     (case headerValues of
        [jwtValue] \<Rightarrow>
          if jwtValue = [] then Inl ''empty header value''
          else if mb_trustedHeadersPublicKey br = [] then Inl ''no public key configured to validate JWT''
          else
            (case validateJWTHeader H jwtValue (mb_trustedHeadersPublicKey br) of
               Inl e \<Rightarrow> Inl (''JWT validation failed: '' @ e)
             | Inr claims \<Rightarrow>
                 (case map_of claims allowedCapabilitiesClaimKey of
                    None \<Rightarrow> Inl (''missing '' @ allowedCapabilitiesClaimKey @ '' claim in JWT'')
                  | Some (JStr capabilitiesJSON) \<Rightarrow>
                      (case Option.bind (json_Unmarshal capabilitiesJSON) (decode_map (decode_map decode_slice)) of
                         None \<Rightarrow> Inl ''failed to unmarshal allowed-capabilities JSON''
                       | Some capabilities \<Rightarrow> Inr capabilities)
                  | Some _ \<Rightarrow> Inl (allowedCapabilitiesClaimKey @ '' claim is not a string'')))
      | _ \<Rightarrow> Inl (''expected exactly 1 header value, got '' @ Itoa (length headerValues)))"

definition findServerByName :: "broker_env \<Rightarrow> mcpBrokerImpl \<Rightarrow> string \<Rightarrow> MCPManager option" where
  "findServerByName E br name = find (\<lambda>man. MCPName man = name) (upstreamsSnapshot E br)"

definition allowed_names :: "broker_env \<Rightarrow> mcpBrokerImpl \<Rightarrow> allowed_items \<Rightarrow> string list" where
  "allowed_names E br allowedTools =
     concat (map (\<lambda>(serverName, toolNames).
                    case findServerByName E br serverName of
                      None \<Rightarrow> []
                    | Some man \<Rightarrow> map (\<lambda>n. srv_Prefix (GetConfig (mm_mcp man)) @ n) toolNames) allowedTools)"

definition filterToolsByServerMap :: "broker_env \<Rightarrow> mcpBrokerImpl \<Rightarrow> allowed_items \<Rightarrow> Tool list \<Rightarrow> Tool list" where
  "filterToolsByServerMap E br allowedTools tools =
     (let allowed = allowed_names E br allowedTools in filter (\<lambda>t. t_Name t \<in> set allowed) tools)"

definition applyAuthorizedCapabilitiesFilter ::
  "handler_env \<Rightarrow> mcpBrokerImpl \<Rightarrow> http_header \<Rightarrow> Tool list \<Rightarrow> Tool list" where
  "applyAuthorizedCapabilitiesFilter H br headers tools =
     (case headers authorizedCapabilitiesHeader of
        None \<Rightarrow> if mb_enforceCapabilityFilter br then [] else tools
      | Some headerValues \<Rightarrow>
          (case parseAuthorizedCapabilitiesJWT (he_JWT H) br headerValues of
             Inl e \<Rightarrow> []
           | Inr capabilities \<Rightarrow>
               (case map_of capabilities ''tools'' of
                  None \<Rightarrow> if mb_enforceCapabilityFilter br then [] else tools
                | Some allowedTools \<Rightarrow> filterToolsByServerMap (he_Broker H) br allowedTools tools)))"

definition applyVirtualServerFilter :: "mcpBrokerImpl \<Rightarrow> http_header \<Rightarrow> Tool list \<Rightarrow> Tool list" where
  "applyVirtualServerFilter br headers tools =
     (case headers virtualMCPHeader of
        Some [virtualServerID] \<Rightarrow>
          (case GetVirtualServerByHeader br virtualServerID of
             Inl e \<Rightarrow> tools
           | Inr vs \<Rightarrow> filter (\<lambda>t. t_Name t \<in> set (vs_Tools vs)) tools)
      | _ \<Rightarrow> tools)"

section \<open>Scopes\<close>

definition isBrokerToolName :: "string \<Rightarrow> bool" where
  "isBrokerToolName name \<longleftrightarrow> name = discoverToolsName \<or> name = selectToolsName"

definition is_broker_tool :: "Tool \<Rightarrow> bool" where
  "is_broker_tool t \<longleftrightarrow>
     (if isBrokerToolName (t_Name t) then True
      else case t_Meta t of
             None \<Rightarrow> False
           | Some m \<Rightarrow> (case map_of m brokerToolMetaKey of Some (JBool b) \<Rightarrow> b | _ \<Rightarrow> False))"

definition filterByScope :: "Tool list \<Rightarrow> string list \<Rightarrow> Tool list" where
  "filterByScope tools scope = filter (\<lambda>t. is_broker_tool t \<or> t_Name t \<in> set scope) tools"

definition applyThresholdFilter :: "mcpBrokerImpl \<Rightarrow> Tool list \<Rightarrow> Tool list" where
  "applyThresholdFilter br tools =
     (if dc_threshold (mb_discovery br) \<le> 0 then tools
      else if int (length (filter (\<lambda>t. \<not> is_broker_tool t) tools)) \<le> dc_threshold (mb_discovery br) then tools
      else filter is_broker_tool tools)"

definition applyScopeFilter :: "time \<Rightarrow> scopeStore \<Rightarrow> mcpBrokerImpl \<Rightarrow> string \<Rightarrow> Tool list \<Rightarrow> Tool list" where
  "applyScopeFilter now store br sessionID tools =
     (if sessionID = [] then applyThresholdFilter br tools
      else
        (case getScope now sessionID store of
           (scopeFiltered, scopedTools) \<Rightarrow> filterByScope tools scopedTools
         | _ \<Rightarrow> applyThresholdFilter br tools))"

section \<open>Listing tools\<close>

definition clean_meta :: "string list \<Rightarrow> (string \<times> json) list option \<Rightarrow> (string \<times> json) list option" where
  "clean_meta keys meta =
     (case meta of
        None \<Rightarrow> None
      | Some [] \<Rightarrow> Some []
      | Some m \<Rightarrow>
          (case filter (\<lambda>kv. fst kv \<notin> set keys) m of [] \<Rightarrow> None | cleaned \<Rightarrow> Some cleaned))"

definition removeGatewayMeta :: "Tool list \<Rightarrow> Tool list" where
  "removeGatewayMeta tools = map (\<lambda>t. t\<lparr>t_Meta := clean_meta [gatewayServerID, brokerToolMetaKey] (t_Meta t)\<rparr>) tools"

text \<open>None is the nil pointer that a broker with discovery and without a scope store would follow.\<close>

definition FilterTools ::
  "handler_env \<Rightarrow> mcpBrokerImpl \<Rightarrow> http_header \<Rightarrow> string \<Rightarrow> Tool list \<Rightarrow> Tool list option" where
  "FilterTools H br headers sessionID tools0 =
     (if tools0 = [] then Some []
      else
        (let tools1 = applyAuthorizedCapabilitiesFilter H br headers tools0;
             tools2 = applyVirtualServerFilter br headers tools1;
             finish = (\<lambda>ts. removeGatewayMeta (filter (\<lambda>t. t_Name t \<noteq> scopeChangeSentinelName) ts))
         in if dc_enabled (mb_discovery br)
            then map_option (\<lambda>store. finish (applyScopeFilter (be_Now (he_Broker H)) store br sessionID tools2))
                   (mb_scopeStore br)
            else Some (finish tools2)))"

section \<open>Listing prompts\<close>

text \<open>\<open>ord\<close> is the order in which the map of allowed prompts is ranged over.\<close>

definition filterPromptsByServerMap ::
  "(allowed_items \<Rightarrow> allowed_items) \<Rightarrow> broker_env \<Rightarrow> mcpBrokerImpl \<Rightarrow> allowed_items \<Rightarrow> Prompt list" where
  "filterPromptsByServerMap ord E br allowedPrompts =
     concat (map (\<lambda>(serverName, promptNames).
                    case findServerByName E br serverName of
                      None \<Rightarrow> []
                    | Some man \<Rightarrow>
                        map (\<lambda>p. p\<lparr>p_Name := srv_Prefix (GetConfig (mm_mcp man)) @ p_Name p\<rparr>)
                          (filter (\<lambda>p. p_Name p \<in> set promptNames) (GetManagedPrompts man))) (ord allowedPrompts))"

definition applyAuthorizedCapabilitiesFilterForPrompts ::
  "(allowed_items \<Rightarrow> allowed_items) \<Rightarrow> handler_env \<Rightarrow> mcpBrokerImpl \<Rightarrow> http_header \<Rightarrow> Prompt list \<Rightarrow> Prompt list" where
  "applyAuthorizedCapabilitiesFilterForPrompts ord H br headers prompts =
     (case headers authorizedCapabilitiesHeader of
        None \<Rightarrow> if mb_enforceCapabilityFilter br then [] else prompts
      | Some headerValues \<Rightarrow>
          (case parseAuthorizedCapabilitiesJWT (he_JWT H) br headerValues of
             Inl e \<Rightarrow> []
           | Inr capabilities \<Rightarrow>
               (case map_of capabilities ''prompts'' of
                  None \<Rightarrow> if mb_enforceCapabilityFilter br then [] else prompts
                | Some allowedPrompts \<Rightarrow> filterPromptsByServerMap ord (he_Broker H) br allowedPrompts)))"

definition applyVirtualServerFilterForPrompts :: "mcpBrokerImpl \<Rightarrow> http_header \<Rightarrow> Prompt list \<Rightarrow> Prompt list" where
  "applyVirtualServerFilterForPrompts br headers prompts =
     (case headers virtualMCPHeader of
        Some [virtualServerID] \<Rightarrow>
          (case GetVirtualServerByHeader br virtualServerID of
             Inl e \<Rightarrow> prompts
           | Inr vs \<Rightarrow> if vs_Prompts vs = [] then prompts
                       else filter (\<lambda>p. p_Name p \<in> set (vs_Prompts vs)) prompts)
      | _ \<Rightarrow> prompts)"

definition removeGatewayMetaFromPrompts :: "Prompt list \<Rightarrow> Prompt list" where
  "removeGatewayMetaFromPrompts prompts = map (\<lambda>p. p\<lparr>p_Meta := clean_meta [gatewayServerID] (p_Meta p)\<rparr>) prompts"

definition FilterPrompts ::
  "(allowed_items \<Rightarrow> allowed_items) \<Rightarrow> handler_env \<Rightarrow> mcpBrokerImpl \<Rightarrow> http_header \<Rightarrow> Prompt list \<Rightarrow> Prompt list" where
  "FilterPrompts ord H br headers prompts =
     (if prompts = [] then []
      else removeGatewayMetaFromPrompts
             (applyVirtualServerFilterForPrompts br headers
               (applyAuthorizedCapabilitiesFilterForPrompts ord H br headers prompts)))"

section \<open>The discovery tools\<close>

text \<open>A call of a tool: its raw arguments, the headers of the HTTP request and the session.\<close>

record tool_request =
  tr_Arguments :: string
  tr_Headers :: http_header
  tr_Session :: "string option"

datatype tool_result = ToolError string | ToolText string

definition unmarshalArguments :: "handler_env \<Rightarrow> tool_request \<Rightarrow> (string \<times> json) list option" where
  "unmarshalArguments H req =
     (if tr_Arguments req = [] then Some []
      else
        (case json_Unmarshal (tr_Arguments req) of
           Some JNull \<Rightarrow> Some []
         | Some (JObj kvs) \<Rightarrow> to_any_map (he_Number H) kvs []
         | _ \<Rightarrow> None))"

definition collectAllPrefixedTools :: "broker_env \<Rightarrow> mcpBrokerImpl \<Rightarrow> Tool list" where
  "collectAllPrefixedTools E br =
     concat (map (\<lambda>man. map (\<lambda>tool. \<lparr>t_Name = srv_Prefix (GetConfig (mm_mcp man)) @ t_Name tool,
                                  t_Meta = Some [(gatewayServerID, JStr (server_ID (GetConfig (mm_mcp man))))],
                                  t_InputSchema = JNull, t_OutputSchema = JNull, t_Description = [], t_Other = []\<rparr>)
                           (GetManagedTools man)) (upstreamsSnapshot E br))"

definition getVisibleToolNames :: "handler_env \<Rightarrow> mcpBrokerImpl \<Rightarrow> http_header \<Rightarrow> string list" where
  "getVisibleToolNames H br headers =
     map t_Name (applyVirtualServerFilter br headers
       (applyAuthorizedCapabilitiesFilter H br headers (collectAllPrefixedTools (he_Broker H) br)))"

definition visibleToolNames :: "string \<Rightarrow> MCPManager \<Rightarrow> string list \<Rightarrow> string list" where
  "visibleToolNames pfx man visible = filter (\<lambda>n. n \<in> set visible) (map (\<lambda>tool. pfx @ t_Name tool) (GetManagedTools man))"

definition matchesCategory :: "handler_env \<Rightarrow> string list \<Rightarrow> string \<Rightarrow> bool" where
  "matchesCategory H serverCategories flt = list_ex (\<lambda>cat. he_ToLower H cat = he_ToLower H flt) serverCategories"

record serverInfo =
  si_Name :: string
  si_Categories :: "string list"
  si_Hint :: string
  si_Tools :: "string list"

definition server_info :: "handler_env \<Rightarrow> string list \<Rightarrow> string \<Rightarrow> MCPManager \<Rightarrow> serverInfo option" where
  "server_info H visible categoryFilter man =
     (let cfg = GetConfig (mm_mcp man); toolNames = visibleToolNames (srv_Prefix cfg) man visible
      in if categoryFilter \<noteq> [] \<and> \<not> matchesCategory H (srv_Category cfg) categoryFilter then None
         else if toolNames = [] then None
         else Some \<lparr>si_Name = srv_Name cfg,
                    si_Categories = (if srv_Category cfg = [] then [''uncategorised''] else srv_Category cfg),
                    si_Hint = srv_Hint cfg, si_Tools = toolNames\<rparr>)"

definition buildDiscoverResponse :: "handler_env \<Rightarrow> mcpBrokerImpl \<Rightarrow> http_header \<Rightarrow> string \<Rightarrow> serverInfo list" where
  "buildDiscoverResponse H br headers categoryFilter =
     List.map_filter (server_info H (getVisibleToolNames H br headers) categoryFilter)
       (upstreamsSnapshot (he_Broker H) br)"

definition serverInfo_json :: "serverInfo \<Rightarrow> json" where
  "serverInfo_json s =
     JObj ([(''name'', JStr (si_Name s)), (''categories'', JArr (map JStr (si_Categories s)))] @
           (if si_Hint s = [] then [] else [(''hint'', JStr (si_Hint s))]) @
           [(''tools'', JArr (map JStr (si_Tools s)))])"

definition handleDiscoverTools :: "handler_env \<Rightarrow> tool_request \<Rightarrow> mcpBrokerImpl \<Rightarrow> tool_result" where
  "handleDiscoverTools H req br =
     (case unmarshalArguments H req of
        None \<Rightarrow> ToolError ''invalid arguments''
      | Some args \<Rightarrow>
          (let categoryFilter = (case map_of args ''category'' of Some (JStr s) \<Rightarrow> s | _ \<Rightarrow> []);
               servers = sort_key si_Name (buildDiscoverResponse H br (tr_Headers req) categoryFilter)
           in ToolText (json_encode (JObj [(''servers'', JArr (map serverInfo_json servers))]))))"

fun strings_only :: "json list \<Rightarrow> string list option" where
  "strings_only [] = Some []"
| "strings_only (JStr s # vs) = map_option ((#) s) (strings_only vs)"
| "strings_only (_ # vs) = None"

definition parseToolNames :: "json option \<Rightarrow> string list option" where
  "parseToolNames raw = (case raw of Some (JArr items) \<Rightarrow> strings_only items | _ \<Rightarrow> None)"

definition validateToolSelectionLocked ::
  "handler_env \<Rightarrow> mcpBrokerImpl \<Rightarrow> string list \<Rightarrow> http_header \<Rightarrow> bool" where
  "validateToolSelectionLocked H br toolNames headers =
     (let visible = getVisibleToolNames H br headers
      in list_all (\<lambda>name. \<not> isBrokerToolName name \<and> name \<in> set visible) toolNames)"

definition selectResponse :: "string \<Rightarrow> string list option \<Rightarrow> json" where
  "selectResponse status tools =
     JObj ((''status'', JStr status) # (case tools of None \<Rightarrow> [] | Some ts \<Rightarrow> [(''tools'', JArr (map JStr ts))]))"

definition sendToolsListChanged :: "time \<Rightarrow> string \<Rightarrow> mcpBrokerImpl \<Rightarrow> mcpBrokerImpl" where
  "sendToolsListChanged now sessionID br =
     br\<lparr>mb_gatewayServer := TriggerToolsListChanged now sessionID (mb_gatewayServer br)\<rparr>"

definition maxSelectTools :: nat where "maxSelectTools = 250"

text \<open>\<open>keys\<close> is a traversal of the scope store; None is a nil scope store.\<close>

definition handleSelectTools ::
  "handler_env \<Rightarrow> string list \<Rightarrow> tool_request \<Rightarrow> mcpBrokerImpl \<Rightarrow> (mcpBrokerImpl \<times> tool_result) option" where
  "handleSelectTools H keys req br =
     (case tr_Session req of
        None \<Rightarrow> Some (br, ToolError ''no active session'')
      | Some sessionID \<Rightarrow>
          (case unmarshalArguments H req of
             None \<Rightarrow> Some (br, ToolError ''invalid arguments'')
           | Some args \<Rightarrow>
               (case parseToolNames (map_of args ''tools'') of
                  None \<Rightarrow> Some (br, ToolError ''invalid tools parameter'')
                | Some toolNames \<Rightarrow>
                    (let now = be_Now (he_Broker H) in
                     if length toolNames > maxSelectTools
                     then Some (br, ToolError (''too many tools requested (max '' @ Itoa maxSelectTools @ '')''))
                     else if toolNames = [] then
                       map_option (\<lambda>store.
                           (sendToolsListChanged now sessionID (br\<lparr>mb_scopeStore := Some (resetScope now keys sessionID store)\<rparr>),
                            ToolText (json_encode (selectResponse ''scope reset to all tools'' None))))
                         (mb_scopeStore br)
                     else if \<not> validateToolSelectionLocked H br toolNames (tr_Headers req)
                     then Some (br, ToolError ''tool not available'')
                     else
                       map_option (\<lambda>store.
                           (sendToolsListChanged now sessionID
                              (br\<lparr>mb_scopeStore := Some (setScope now keys sessionID toolNames store)\<rparr>),
                            ToolText (json_encode (selectResponse
                              (''scope set to '' @ Itoa (length toolNames) @ '' tools'') (Some toolNames)))))
                         (mb_scopeStore br)))))"

section \<open>The tags tools\<close>

definition hasAllTags :: "string list \<Rightarrow> string list \<Rightarrow> bool" where
  "hasAllTags serverTags required = list_all (\<lambda>r. r \<in> set serverTags) required"

definition visible_tags :: "handler_env \<Rightarrow> mcpBrokerImpl \<Rightarrow> http_header \<Rightarrow> string list" where
  "visible_tags H br headers =
     (let visible = getVisibleToolNames H br headers
      in concat (map (\<lambda>man. let cfg = GetConfig (mm_mcp man)
                            in if visibleToolNames (srv_Prefix cfg) man visible = [] then [] else srv_Tags cfg)
                   (upstreamsSnapshot (he_Broker H) br)))"

definition handleListTags :: "handler_env \<Rightarrow> tool_request \<Rightarrow> mcpBrokerImpl \<Rightarrow> tool_result" where
  "handleListTags H req br =
     ToolText (json_encode (JArr (map (JStr \<circ> fst)
       (fold (\<lambda>tag. insert_key tag ()) (visible_tags H br (tr_Headers req)) []))))"

fun parse_tags :: "json list \<Rightarrow> string + string list" where
  "parse_tags [] = Inr []"
| "parse_tags (JStr s # vs) =
     (if s = [] then Inl ''tags must not contain empty strings''
      else case parse_tags vs of Inl e \<Rightarrow> Inl e | Inr ts \<Rightarrow> Inr (s # ts))"
| "parse_tags (_ # vs) = Inl ''tags must be an array of strings''"

definition tools_by_tags :: "handler_env \<Rightarrow> mcpBrokerImpl \<Rightarrow> http_header \<Rightarrow> string list \<Rightarrow> Tool list" where
  "tools_by_tags H br headers filterTags =
     (let visible = getVisibleToolNames H br headers
      in concat (map (\<lambda>man. let cfg = GetConfig (mm_mcp man)
                            in if \<not> hasAllTags (srv_Tags cfg) filterTags then []
                               else filter (\<lambda>t. t_Name t \<in> set visible)
                                      (map (\<lambda>t. t\<lparr>t_Name := srv_Prefix cfg @ t_Name t\<rparr>) (GetManagedTools man)))
                   (upstreamsSnapshot (he_Broker H) br)))"

definition handleFilterToolsByTags :: "handler_env \<Rightarrow> tool_request \<Rightarrow> mcpBrokerImpl \<Rightarrow> tool_result" where
  "handleFilterToolsByTags H req br =
     (case unmarshalArguments H req of
        None \<Rightarrow> ToolError ''invalid arguments''
      | Some args \<Rightarrow>
          (case map_of args ''tags'' of
             None \<Rightarrow> ToolError ''missing required parameter: tags''
           | Some (JArr rawSlice) \<Rightarrow>
               if rawSlice = [] then ToolError ''tags must not be empty''
               else
                 (case parse_tags rawSlice of
                    Inl e \<Rightarrow> ToolError e
                  | Inr filterTags \<Rightarrow>
                      (case he_MarshalTools H (tools_by_tags H br (tr_Headers req) filterTags) of
                         None \<Rightarrow> ToolError ''internal error''
                       | Some text \<Rightarrow> ToolText text))
           | Some _ \<Rightarrow> ToolError ''tags must be an array''))"
end
