(* ===== verification/Filters_Correct.thy ===== *)
theory Filters_Correct
  imports Tool_Filters Broker_Correct
begin

text \<open>
  Clients see what they may see: the listing of tools as one filter, its relation to the signed
  claims of a request, and the way of a selection through the scope store into later listings.
\<close>

section \<open>The filters as predicates on tools\<close>

definition authorized :: "handler_env \<Rightarrow> mcpBrokerImpl \<Rightarrow> http_header \<Rightarrow> string \<Rightarrow> bool" where
  "authorized H br headers n =
     (case headers authorizedCapabilitiesHeader of
        None \<Rightarrow> \<not> mb_enforceCapabilityFilter br
      | Some headerValues \<Rightarrow>
          (case parseAuthorizedCapabilitiesJWT (he_JWT H) br headerValues of
             Inl e \<Rightarrow> False
           | Inr capabilities \<Rightarrow>
               (case map_of capabilities ''tools'' of
                  None \<Rightarrow> \<not> mb_enforceCapabilityFilter br
                | Some allowedTools \<Rightarrow> n \<in> set (allowed_names (he_Broker H) br allowedTools))))"

definition in_virtual_server :: "mcpBrokerImpl \<Rightarrow> http_header \<Rightarrow> string \<Rightarrow> bool" where
  "in_virtual_server br headers n =
     (case headers virtualMCPHeader of
        Some [v] \<Rightarrow> (case mb_virtualServers br v of None \<Rightarrow> True | Some vs \<Rightarrow> n \<in> set (vs_Tools vs))
      | _ \<Rightarrow> True)"

definition may_see :: "handler_env \<Rightarrow> mcpBrokerImpl \<Rightarrow> http_header \<Rightarrow> string \<Rightarrow> bool" where
  "may_see H br headers n \<longleftrightarrow> authorized H br headers n \<and> in_virtual_server br headers n"

definition crowded :: "mcpBrokerImpl \<Rightarrow> Tool list \<Rightarrow> bool" where
  "crowded br tools \<longleftrightarrow>
     0 < dc_threshold (mb_discovery br) \<and>
     dc_threshold (mb_discovery br) < int (length (filter (\<lambda>t. \<not> is_broker_tool t) tools))"

text \<open>The tools in the scope of a session, out of those it may see.\<close>

definition in_scope :: "time \<Rightarrow> scopeStore \<Rightarrow> mcpBrokerImpl \<Rightarrow> string \<Rightarrow> Tool list \<Rightarrow> Tool \<Rightarrow> bool" where
  "in_scope now store br sid tools t =
     (is_broker_tool t \<or>
      (case (if sid = [] then (scopeUnset, []) else getScope now sid store) of
         (scopeFiltered, scope) \<Rightarrow> t_Name t \<in> set scope
       | _ \<Rightarrow> \<not> crowded br tools))"

definition clean :: "Tool \<Rightarrow> Tool" where
  "clean t = t\<lparr>t_Meta := clean_meta [gatewayServerID, brokerToolMetaKey] (t_Meta t)\<rparr>"

lemma clean_meta_keys:
  assumes "clean_meta ks meta = Some m" and "k \<in> fst ` set m"
  shows "k \<notin> set ks"
proof -
  obtain kv l where meta: "meta = Some (kv # l)" using assms by (auto simp: clean_meta_def split: option.splits list.splits)
  have "m = filter (\<lambda>kv. fst kv \<notin> set ks) (kv # l)"
    using assms(1) unfolding meta clean_meta_def option.case list.case
    by (cases "filter (\<lambda>kv. fst kv \<notin> set ks) (kv # l)") (simp_all del: filter.simps)
  then show ?thesis using assms(2) by (auto split: if_splits)
qed

lemma auth_filter: "applyAuthorizedCapabilitiesFilter H br headers tools = filter (\<lambda>t. authorized H br headers (t_Name t)) tools"
  by (simp add: applyAuthorizedCapabilitiesFilter_def authorized_def filterToolsByServerMap_def split: option.split sum.split)

lemma virtual_filter: "applyVirtualServerFilter br headers tools = filter (\<lambda>t. in_virtual_server br headers (t_Name t)) tools"
  by (simp add: applyVirtualServerFilter_def in_virtual_server_def GetVirtualServerByHeader_def split: option.split list.split)

lemma threshold_filter:
  "applyThresholdFilter br tools = filter (\<lambda>t. is_broker_tool t \<or> \<not> crowded br tools) tools"
  by (auto simp: applyThresholdFilter_def crowded_def intro!: filter_cong)

lemma scope_filter: "applyScopeFilter now store br sid tools = filter (in_scope now store br sid tools) tools"
  by (auto simp: applyScopeFilter_def threshold_filter filterByScope_def in_scope_def intro!: filter_cong
      split: prod.splits scopeState.splits)

definition visible :: "handler_env \<Rightarrow> mcpBrokerImpl \<Rightarrow> http_header \<Rightarrow> Tool list \<Rightarrow> Tool list" where
  "visible H br headers tools = filter (\<lambda>t. may_see H br headers (t_Name t)) tools"

lemma visible_filters:
  "applyVirtualServerFilter br headers (applyAuthorizedCapabilitiesFilter H br headers tools) = visible H br headers tools"
  by (simp add: auth_filter virtual_filter visible_def may_see_def conj_commute)

lemma listing:
  "FilterTools H br headers sid tools =
     (if tools = [] then Some []
      else if dc_enabled (mb_discovery br)
      then map_option (\<lambda>store. map clean (filter (\<lambda>t. in_scope (be_Now (he_Broker H)) store br sid
             (visible H br headers tools) t \<and> t_Name t \<noteq> scopeChangeSentinelName) (visible H br headers tools)))
           (mb_scopeStore br)
      else Some (map clean (filter (\<lambda>t. t_Name t \<noteq> scopeChangeSentinelName) (visible H br headers tools))))"
  by (simp add: FilterTools_def Let_def visible_filters scope_filter removeGatewayMeta_def clean_def[abs_def])

section \<open>Signed claims\<close>

text \<open>
  What the broker relies on from the JWT library: it accepts a token only if the key function gives
  a key and the token carries the claims with a signature of one of the accepted methods under it.
\<close>

definition jwt_law :: "header_jwt \<Rightarrow> (string \<Rightarrow> string \<Rightarrow> string \<Rightarrow> (string \<times> json) list \<Rightarrow> bool) \<Rightarrow> bool" where
  "jwt_law J signed \<longleftrightarrow>
     (\<forall>token k ms claims. hj_Parse J token (Inr k) ms = Inr claims \<longrightarrow> (\<exists>m \<in> set ms. signed m k token claims)) \<and>
     (\<forall>token e ms. \<exists>e'. hj_Parse J token (Inl e) ms = Inl e')"

definition trusted_key :: "header_jwt \<Rightarrow> mcpBrokerImpl \<Rightarrow> string option" where
  "trusted_key J br =
     (case Option.bind (hj_pem_Decode J (mb_trustedHeadersPublicKey br)) (\<lambda>b. Some (hj_ParsePKIX J b)) of
        Some (Inr (ECDSAKey k)) \<Rightarrow> Some k | _ \<Rightarrow> None)"

text \<open>The capabilities that a list of claims grants.\<close>

definition granted :: "(string \<times> json) list \<Rightarrow> (string \<times> allowed_items) list option" where
  "granted claims =
     (case map_of claims allowedCapabilitiesClaimKey of
        Some (JStr text) \<Rightarrow> Option.bind (json_Unmarshal text) (decode_map (decode_map decode_slice))
      | _ \<Rightarrow> None)"

lemma validated_is_signed:
  assumes "jwt_law J signed" and "validateJWTHeader J token (mb_trustedHeadersPublicKey br) = Inr claims"
  shows "\<exists>k. trusted_key J br = Some k \<and> signed ''ES256'' k token claims"
proof -
  obtain b where b: "hj_pem_Decode J (mb_trustedHeadersPublicKey br) = Some b"
    using assms(2) by (auto simp: validateJWTHeader_def split: option.splits)
  let ?key = "case hj_ParsePKIX J b of Inl e \<Rightarrow> Inl e | Inr OtherKey \<Rightarrow> Inl ''expected *ecdsa.PublicKey'' | Inr (ECDSAKey k) \<Rightarrow> Inr k"
  have p: "hj_Parse J token ?key [''ES256''] = Inr claims" using assms(2) b by (simp add: validateJWTHeader_def)
  have "\<nexists>e. ?key = Inl e"
  proof
    assume "\<exists>e. ?key = Inl e"
    then obtain e where "?key = Inl e" ..
    moreover obtain e' where "hj_Parse J token (Inl e) [''ES256''] = Inl e'" using assms(1) unfolding jwt_law_def by blast
    ultimately show False using p by simp
  qed
  then obtain k where k: "?key = Inr k" by (metis sum.exhaust)
  then have "trusted_key J br = Some k" using b by (simp add: trusted_key_def split: sum.splits pubkey.splits)
  moreover have "\<exists>m \<in> set [''ES256'']. signed m k token claims" using assms(1) p unfolding k jwt_law_def by blast
  ultimately show ?thesis by simp
qed

lemma parsed_is_signed:
  assumes "jwt_law J signed" and "parseAuthorizedCapabilitiesJWT J br vs = Inr caps"
  shows "\<exists>token k claims. vs = [token] \<and> trusted_key J br = Some k \<and> signed ''ES256'' k token claims \<and>
    granted claims = Some caps"
proof -
  obtain token where vs: "vs = [token]" using assms(2)
    by (auto simp: parseAuthorizedCapabilitiesJWT_def split: list.splits)
  with assms(2) obtain claims where c: "validateJWTHeader J token (mb_trustedHeadersPublicKey br) = Inr claims"
      "granted claims = Some caps"
    by (auto simp: parseAuthorizedCapabilitiesJWT_def granted_def split: if_splits sum.splits option.splits json.splits)
  from validated_is_signed[OF assms(1) c(1)] c(2) vs show ?thesis by blast
qed

lemma allowed_names_iff:
  "n \<in> set (allowed_names E br allowed) \<longleftrightarrow>
     (\<exists>server names man m. (server, names) \<in> set allowed \<and> findServerByName E br server = Some man \<and> m \<in> set names \<and>
        n = srv_Prefix (GetConfig (mm_mcp man)) @ m)"
proof -
  have one: "n \<in> set (case findServerByName E br server of None \<Rightarrow> []
        | Some man \<Rightarrow> map (\<lambda>m. srv_Prefix (GetConfig (mm_mcp man)) @ m) names) \<longleftrightarrow>
      (\<exists>man m. findServerByName E br server = Some man \<and> m \<in> set names \<and> n = srv_Prefix (GetConfig (mm_mcp man)) @ m)"
    for server names by (cases "findServerByName E br server") auto
  show ?thesis
  proof (induction allowed)
    case (Cons a l)
    obtain server names where a: "a = (server, names)" by (cases a)
    have "n \<in> set (allowed_names E br (a # l)) \<longleftrightarrow>
        (\<exists>man m. findServerByName E br server = Some man \<and> m \<in> set names \<and> n = srv_Prefix (GetConfig (mm_mcp man)) @ m) \<or>
        n \<in> set (allowed_names E br l)"
      unfolding one[symmetric] by (simp add: allowed_names_def a)
    then show ?case unfolding Cons.IH a set_simps insert_iff prod.inject by blast
  qed (simp add: allowed_names_def)
qed

text \<open>
  C2: A client is shown only tools that it may see. Every tool that \<open>FilterTools\<close> returns is one of the
  tools it was given, without the gateway's own metadata. If the broker enforces authorization, or
  the request carries the authorization header, then the header is one token with an ES256 signature
  of the configured key, and its claims grant the tool under the name of a registered server (or
  say nothing of tools, when authorization is not enforced). If the request names a virtual server
  that exists, the tool belongs to it; if the session has a scope, the tool is in the scope or is
  one of the broker's own.
\<close>

theorem shown_tools_are_authorized:
  assumes "jwt_law (he_JWT H) signed" and "FilterTools H br headers sid tools = Some out" and "t \<in> set out"
  shows "\<exists>t0 \<in> set tools. t = t0\<lparr>t_Meta := t_Meta t\<rparr> \<and>
     (\<forall>m k. t_Meta t = Some m \<and> k \<in> fst ` set m \<longrightarrow> k \<noteq> gatewayServerID \<and> k \<noteq> brokerToolMetaKey) \<and>
     (mb_enforceCapabilityFilter br \<or> headers authorizedCapabilitiesHeader \<noteq> None \<longrightarrow>
       (\<exists>token k claims caps. headers authorizedCapabilitiesHeader = Some [token] \<and>
          trusted_key (he_JWT H) br = Some k \<and> signed ''ES256'' k token claims \<and> granted claims = Some caps \<and>
          (case map_of caps ''tools'' of
             None \<Rightarrow> \<not> mb_enforceCapabilityFilter br
           | Some allowed \<Rightarrow> \<exists>server names man n. (server, names) \<in> set allowed \<and> n \<in> set names \<and>
               findServerByName (he_Broker H) br server = Some man \<and>
               t_Name t = srv_Prefix (GetConfig (mm_mcp man)) @ n))) \<and>
     (\<forall>v vs. headers virtualMCPHeader = Some [v] \<and> GetVirtualServerByHeader br v = Inr vs \<longrightarrow> t_Name t \<in> set (vs_Tools vs)) \<and>
     (\<forall>store scope. dc_enabled (mb_discovery br) \<and> mb_scopeStore br = Some store \<and> sid \<noteq> [] \<and>
        getScope (be_Now (he_Broker H)) sid store = (scopeFiltered, scope) \<longrightarrow> is_broker_tool t0 \<or> t_Name t \<in> set scope)"
proof -
  obtain t0 where t0: "t0 \<in> set tools" "may_see H br headers (t_Name t0)" "t = clean t0"
    and sc: "\<forall>store. dc_enabled (mb_discovery br) \<and> mb_scopeStore br = Some store \<longrightarrow>
      in_scope (be_Now (he_Broker H)) store br sid (visible H br headers tools) t0"
    using assms(2,3) by (auto simp: listing visible_def split: if_splits)
  have name: "t_Name t = t_Name t0" and meta: "t = t0\<lparr>t_Meta := t_Meta t\<rparr>" using t0(3) by (simp_all add: clean_def)
  have keys: "\<forall>m k. t_Meta t = Some m \<and> k \<in> fst ` set m \<longrightarrow> k \<noteq> gatewayServerID \<and> k \<noteq> brokerToolMetaKey"
    using t0(3) clean_meta_keys[of "[gatewayServerID, brokerToolMetaKey]" "t_Meta t0"] by (auto simp: clean_def)
  have auth: "authorized H br headers (t_Name t)" using t0(2) name by (simp add: may_see_def)
  have "\<exists>token k claims caps. headers authorizedCapabilitiesHeader = Some [token] \<and>
      trusted_key (he_JWT H) br = Some k \<and> signed ''ES256'' k token claims \<and> granted claims = Some caps \<and>
      (case map_of caps ''tools'' of
         None \<Rightarrow> \<not> mb_enforceCapabilityFilter br
       | Some allowed \<Rightarrow> \<exists>server names man n. (server, names) \<in> set allowed \<and> n \<in> set names \<and>
           findServerByName (he_Broker H) br server = Some man \<and> t_Name t = srv_Prefix (GetConfig (mm_mcp man)) @ n)"
    if on: "mb_enforceCapabilityFilter br \<or> headers authorizedCapabilitiesHeader \<noteq> None"
  proof -
    obtain vs caps where p: "headers authorizedCapabilitiesHeader = Some vs"
        "parseAuthorizedCapabilitiesJWT (he_JWT H) br vs = Inr caps"
        "case map_of caps ''tools'' of None \<Rightarrow> \<not> mb_enforceCapabilityFilter br
         | Some allowed \<Rightarrow> t_Name t \<in> set (allowed_names (he_Broker H) br allowed)"
      using auth on by (auto simp: authorized_def split: option.splits sum.splits)
    from p(3) have "case map_of caps ''tools'' of None \<Rightarrow> \<not> mb_enforceCapabilityFilter br
       | Some allowed \<Rightarrow> \<exists>server names man n. (server, names) \<in> set allowed \<and> n \<in> set names \<and>
           findServerByName (he_Broker H) br server = Some man \<and> t_Name t = srv_Prefix (GetConfig (mm_mcp man)) @ n"
      by (cases "map_of caps ''tools''") (simp_all add: allowed_names_iff, blast)
    then show ?thesis using parsed_is_signed[OF assms(1) p(2)] p(1) by blast
  qed
  moreover have "\<forall>v vs. headers virtualMCPHeader = Some [v] \<and> GetVirtualServerByHeader br v = Inr vs \<longrightarrow> t_Name t \<in> set (vs_Tools vs)"
    using t0(2) name by (auto simp: may_see_def in_virtual_server_def GetVirtualServerByHeader_def split: option.splits)
  moreover have "\<forall>store scope. dc_enabled (mb_discovery br) \<and> mb_scopeStore br = Some store \<and> sid \<noteq> [] \<and>
      getScope (be_Now (he_Broker H)) sid store = (scopeFiltered, scope) \<longrightarrow> is_broker_tool t0 \<or> t_Name t \<in> set scope"
    using sc name by (auto simp: in_scope_def)
  ultimately show ?thesis using t0(1) meta keys by blast
qed

section \<open>Requests at the demonstration broker\<close>

definition caps_json :: json where
  "caps_json = JObj [(''tools'', JObj [(''ns/echo'', JArr [JStr ''echo''])])]"

definition demo_claims :: "(string \<times> json) list" where
  "demo_claims = [(''allowed-capabilities'', JStr (json_encode caps_json))]"

definition demo_jwt :: header_jwt where
  "demo_jwt =
     \<lparr>hj_pem_Decode = (\<lambda>s. if s = ''pem'' then Some ''der'' else None), hj_ParsePKIX = (\<lambda>_. Inr (ECDSAKey ''key'')),
      hj_Parse = (\<lambda>token key ms. case key of Inl e \<Rightarrow> Inl e
        | Inr k \<Rightarrow> if token = ''token'' \<and> k = ''key'' \<and> ''ES256'' \<in> set ms then Inr demo_claims else Inl ''invalid'')\<rparr>"

definition demo_handler :: handler_env where
  "demo_handler = \<lparr>he_Broker = demo_env, he_JWT = demo_jwt, he_ToLower = (\<lambda>s. s), he_Number = Some, he_MarshalTools = (\<lambda>_. None)\<rparr>"

definition demo_guarded :: mcpBrokerImpl where
  "demo_guarded = demo_broker\<lparr>mb_enforceCapabilityFilter := True, mb_trustedHeadersPublicKey := ''pem''\<rparr>"

definition demo_headers :: http_header where
  "demo_headers = [authorizedCapabilitiesHeader \<mapsto> [''token'']]"

definition demo_signed :: "string \<Rightarrow> string \<Rightarrow> string \<Rightarrow> (string \<times> json) list \<Rightarrow> bool" where
  "demo_signed m k token claims \<longleftrightarrow> m = ''ES256'' \<and> k = ''key'' \<and> token = ''token'' \<and> claims = demo_claims"

lemma demo_law: "jwt_law demo_jwt demo_signed"
  by (auto simp: jwt_law_def demo_jwt_def demo_signed_def split: if_splits)

lemma demo_granted: "granted demo_claims = Some [(''tools'', [(''ns/echo'', [''echo''])])]"
proof -
  have "json_Unmarshal (json_encode caps_json) = Some caps_json"
    by (rule json_Unmarshal_encode) (simp_all add: caps_json_def ascii_def maxNestingDepth_def)
  then show ?thesis
    by (simp add: granted_def demo_claims_def allowedCapabilitiesClaimKey_def) (simp add: caps_json_def decode_map_def decode_slice_def)
qed

lemma demo_parsed:
  "parseAuthorizedCapabilitiesJWT demo_jwt demo_guarded [''token''] = Inr [(''tools'', [(''ns/echo'', [''echo''])])]"
proof -
  have "validateJWTHeader demo_jwt ''token'' ''pem'' = Inr demo_claims"
    by (simp add: validateJWTHeader_def demo_jwt_def)
  then show ?thesis using demo_granted
    by (simp add: parseAuthorizedCapabilitiesJWT_def demo_guarded_def granted_def demo_claims_def allowedCapabilitiesClaimKey_def
        split: option.splits)
qed

lemma demo_find: "map_option (\<lambda>man. GetConfig (mm_mcp man)) (findServerByName demo_env demo_guarded ''ns/echo'') = Some echo_server"
  by code_simp

lemma demo_allowed: "allowed_names demo_env demo_guarded [(''ns/echo'', [''echo''])] = [''e_echo'']"
proof -
  obtain man where "findServerByName demo_env demo_guarded ''ns/echo'' = Some man" "GetConfig (mm_mcp man) = echo_server"
    using demo_find by auto
  then show ?thesis by (simp add: allowed_names_def echo_server_def)
qed

lemma demo_may_see: "may_see demo_handler demo_guarded demo_headers n \<longleftrightarrow> n = ''e_echo''"
  by (simp add: may_see_def authorized_def in_virtual_server_def demo_headers_def demo_handler_def demo_parsed
      demo_allowed authorizedCapabilitiesHeader_def virtualMCPHeader_def)

theorem shown_tools_are_authorized_witness:
  "\<exists>token k claims. demo_headers authorizedCapabilitiesHeader = Some [token] \<and> trusted_key demo_jwt demo_guarded = Some k \<and>
     demo_signed ''ES256'' k token claims"
proof -
  let ?t = "echo_tool\<lparr>t_Name := ''e_echo''\<rparr>"
  have "visible demo_handler demo_guarded demo_headers [?t] = [?t]" by (simp add: visible_def demo_may_see)
  moreover have "dc_enabled (mb_discovery demo_guarded)" "mb_scopeStore demo_guarded \<noteq> None" by code_simp+
  moreover have "\<not> crowded demo_guarded [?t]" by code_simp
  ultimately obtain out where out: "FilterTools demo_handler demo_guarded demo_headers [] [?t] = Some out" "clean ?t \<in> set out"
    by (auto simp: listing in_scope_def scopeChangeSentinelName_def)
  have law: "jwt_law (he_JWT demo_handler) demo_signed" using demo_law by (simp add: demo_handler_def)
  have "mb_enforceCapabilityFilter demo_guarded" by (simp add: demo_guarded_def)
  then show ?thesis using shown_tools_are_authorized[OF law out] by (auto simp: demo_handler_def)
qed

section \<open>Selections\<close>

text \<open>A name under which a server's tools appear on the gateway.\<close>

definition offers :: "MCPManager \<Rightarrow> string \<Rightarrow> bool" where
  "offers man n \<longleftrightarrow> n \<in> set (map (\<lambda>t. srv_Prefix (GetConfig (mm_mcp man)) @ t_Name t) (GetManagedTools man))"

lemma collected_names: "t_Name ` set (collectAllPrefixedTools E br) = {n. \<exists>man \<in> set (upstreamsSnapshot E br). offers man n}"
  unfolding collectAllPrefixedTools_def offers_def set_concat set_map image_UN image_image by auto

lemma visible_names:
  "n \<in> set (getVisibleToolNames H br headers) \<longleftrightarrow>
     may_see H br headers n \<and> (\<exists>man \<in> set (upstreamsSnapshot (he_Broker H) br). offers man n)"
proof -
  have "set (getVisibleToolNames H br headers) = {n \<in> t_Name ` set (collectAllPrefixedTools (he_Broker H) br). may_see H br headers n}"
    by (auto simp: getVisibleToolNames_def visible_filters visible_def)
  then show ?thesis unfolding collected_names by auto
qed

lemma names_of_filter: "t_Name ` set (filter (\<lambda>t. P (t_Name t)) ts) = {n. n \<in> t_Name ` set ts \<and> P n}"
  by auto

lemma visible_of_server:
  "set (visibleToolNames (srv_Prefix (GetConfig (mm_mcp man))) man vs) = {n. offers man n \<and> n \<in> set vs}"
  by (auto simp: visibleToolNames_def offers_def)

lemma selection_result:
  assumes "handleSelectTools H keys req br = Some (br1, ToolText reply)" and "tr_Session req = Some sid"
    and "unmarshalArguments H req = Some args" and "parseToolNames (map_of args ''tools'') = Some names" and "names \<noteq> []"
    and "mb_scopeStore br = Some store"
  shows "mb_scopeStore br1 = Some (setScope (be_Now (he_Broker H)) keys sid names store)"
    "validateToolSelectionLocked H br names (tr_Headers req)"
  using assms by (auto simp: handleSelectTools_def Let_def sendToolsListChanged_def split: if_splits)

lemma setScope_own:
  "ss_scopes (setScope now keys sid names store) sid =
     Some \<lparr>sc_state = scopeFiltered, sc_tools = names, sc_expireAt = now + ss_ttl store\<rparr>"
  by (simp add: setScope_def Let_def evictOldestLocked_def split: option.split)

lemma setScope_maxSize: "ss_maxSize (setScope now keys sid names store) = ss_maxSize store"
  by (simp add: setScope_def Let_def evictOldestLocked_def split: option.split)

lemma setScope_others:
  "k \<noteq> sid \<Longrightarrow> ss_scopes (setScope now keys sid names store) k = Some sc \<Longrightarrow> ss_scopes store k = Some sc"
  by (auto simp: setScope_def Let_def evictOldestLocked_def split: option.splits if_splits)

lemma setScope_later:
  assumes "\<forall>k sc. k \<noteq> sid \<and> ss_scopes store k = Some sc \<longrightarrow> sc_expireAt sc < now + ss_ttl store"
  shows "later sid (now + ss_ttl store) (setScope now keys sid names store) = {}"
  using assms setScope_others[of _ sid now keys names store] unfolding later_def by fastforce


definition demo_select :: tool_request where
  "demo_select = \<lparr>tr_Arguments = json_encode (JObj [(''tools'', JArr [JStr ''e_echo''])]), tr_Headers = emptymap, tr_Session = Some ''s''\<rparr>"

lemma demo_arguments: "unmarshalArguments demo_handler demo_select = Some [(''tools'', JArr [JStr ''e_echo''])]"
proof -
  have "json_Unmarshal (tr_Arguments demo_select) = Some (JObj [(''tools'', JArr [JStr ''e_echo''])])"
    unfolding demo_select_def tool_request.simps by (rule json_Unmarshal_encode) (simp_all add: ascii_def maxNestingDepth_def)
  moreover have "tr_Arguments demo_select \<noteq> []" by (simp add: demo_select_def)
  ultimately show ?thesis by (simp add: unmarshalArguments_def demo_handler_def)
qed

lemma demo_store:
  "ss_scopes (the (mb_scopeStore demo_broker)) k = None" "mb_scopeStore demo_broker \<noteq> None"
  "ss_maxSize (the (mb_scopeStore demo_broker)) = 10000" "ss_ttl (the (mb_scopeStore demo_broker)) = 86400000000000"
  "dc_enabled (mb_discovery demo_broker)"
  by code_simp+

lemma demo_valid: "validateToolSelectionLocked demo_handler demo_broker [''e_echo''] (tr_Headers demo_select)"
  by code_simp



text \<open>
  C40: A client whose token lists its tools is not shown the discovery tools when there are too many
  to list. The authorization filter runs before the threshold and drops the broker's own tools,
  which belong to no server; when more tools are left than the threshold allows, the listing of a
  session without a scope is empty.
\<close>

theorem crowded_listing_is_empty:
  assumes "headers authorizedCapabilitiesHeader = Some [token]"
    and "parseAuthorizedCapabilitiesJWT (he_JWT H) br [token] = Inr caps" and "map_of caps ''tools'' = Some allowed"
    and "\<forall>t \<in> set tools. is_broker_tool t \<longrightarrow> t_Name t \<notin> set (allowed_names (he_Broker H) br allowed)"
    and "dc_enabled (mb_discovery br)" and "mb_scopeStore br = Some store"
    and "fst (getScope (be_Now (he_Broker H)) sid store) \<noteq> scopeFiltered"
    and "0 < dc_threshold (mb_discovery br)"
    and "dc_threshold (mb_discovery br) <
      int (length (applyVirtualServerFilter br headers (applyAuthorizedCapabilitiesFilter H br headers tools)))"
  shows "FilterTools H br headers sid tools = Some []"
proof -
  let ?v = "visible H br headers tools"
  have none: "\<not> is_broker_tool t" if "t \<in> set ?v" for t
    using that assms(1-4) by (auto simp: visible_def may_see_def authorized_def)
  then have "filter (\<lambda>t. \<not> is_broker_tool t) ?v = ?v" by (simp add: filter_id_conv)
  then have crowd: "crowded br ?v" using assms(8,9) by (simp add: crowded_def visible_filters)
  have "\<not> in_scope (be_Now (he_Broker H)) store br sid ?v t" if "t \<in> set ?v" for t
    using none[OF that] crowd assms(7) by (auto simp: in_scope_def split: prod.splits scopeState.splits)
  then show ?thesis using assms(5,6) by (simp add: listing)
qed
lemma parse_key:
  "mb_trustedHeadersPublicKey a = mb_trustedHeadersPublicKey b \<Longrightarrow>
     parseAuthorizedCapabilitiesJWT J a vs = parseAuthorizedCapabilitiesJWT J b vs"
  unfolding parseAuthorizedCapabilitiesJWT_def by (erule ssubst) (rule refl)

definition demo_crowd :: mcpBrokerImpl where
  "demo_crowd = demo_guarded\<lparr>mb_discovery := \<lparr>dc_enabled = True, dc_threshold = 1\<rparr>\<rparr>"

theorem crowded_listing_is_empty_witness:
  "FilterTools demo_handler demo_crowd demo_headers []
     [echo_tool\<lparr>t_Name := ''e_echo''\<rparr>, echo_tool\<lparr>t_Name := ''e_echo''\<rparr>, echo_tool\<lparr>t_Name := discoverToolsName\<rparr>] = Some []"
proof -
  let ?caps = "[(''tools'', [(''ns/echo'', [''echo''])])]"
  have parsed: "parseAuthorizedCapabilitiesJWT (he_JWT demo_handler) demo_crowd [''token''] = Inr ?caps"
    using demo_parsed parse_key[of demo_crowd demo_guarded] by (simp add: demo_crowd_def demo_handler_def)
  have allowed: "allowed_names (he_Broker demo_handler) demo_crowd [(''ns/echo'', [''echo''])] = [''e_echo'']"
    using demo_allowed by (simp add: allowed_names_def findServerByName_def upstreamsSnapshot_def servers_in_order_def demo_crowd_def demo_handler_def)
  obtain store where st: "mb_scopeStore demo_crowd = Some store" "\<And>k. ss_scopes store k = None"
    using demo_store(1,2) by (fastforce simp: demo_crowd_def demo_guarded_def)
  show ?thesis
    by (rule crowded_listing_is_empty[of _ "''token''" _ _ ?caps "[(''ns/echo'', [''echo''])]" _ store])
      (simp_all add: parsed allowed st getScope_def demo_crowd_def demo_headers_def auth_filter virtual_filter authorized_def
        in_virtual_server_def authorizedCapabilitiesHeader_def virtualMCPHeader_def discoverToolsName_def
        is_broker_tool_def isBrokerToolName_def selectToolsName_def echo_tool_def
        parsed[unfolded demo_crowd_def] allowed[unfolded demo_crowd_def] st[unfolded demo_crowd_def])
qed
end
