(* ===== verification/Token_Pages.thy ===== *)
theory Token_Pages
  imports Elicitation_Maps Gateway_Config Go_Http Go_Struct Go_Url
begin

text \<open>
  The HTTP handlers of the broker beside \<open>/mcp\<close>: the page on which a user leaves a token
  (\<open>internal/broker/tokens.go\<close>), the answer that sends a client to that page
  (\<open>elicitation_handler.go\<close>) and the metadata of the protected resource
  (\<open>oauth_protected_resource_handler.go\<close>).

  The query strings of \<open>net/url\<close> are decoded and encoded byte by byte. A request gives the first
  value of a header, the empty string when there is none. The elicitation map is the record of the
  two operations the handlers call; both implementations of it are given below. Templates are an
  argument.
\<close>

section \<open>Query strings\<close>

definition hex_upper :: "nat \<Rightarrow> char" where
  "hex_upper n = ''0123456789ABCDEF'' ! n"

definition query_plain :: "char \<Rightarrow> bool" where
  "query_plain c \<longleftrightarrow> is_letter c \<or> byte_in 48 57 c \<or> c \<in> set ''-_.~''"

definition query_escape_char :: "char \<Rightarrow> string" where
  "query_escape_char c =
     (if query_plain c then [c]
      else if c = CHR '' '' then ''+''
      else [CHR ''%'', hex_upper (of_char c div 16), hex_upper (of_char c mod 16)])"

definition QueryEscape :: "string \<Rightarrow> string" where
  "QueryEscape s = concat (map query_escape_char s)"

fun QueryUnescape :: "string \<Rightarrow> string option" where
  "QueryUnescape [] = Some []"
| "QueryUnescape (c # s) =
     (if c = CHR ''%'' then
        (case s of
           a # b # s' \<Rightarrow>
             (case (unhex a, unhex b) of
                (Some x, Some y) \<Rightarrow> map_option ((#) (char_of (16 * x + y))) (QueryUnescape s')
              | _ \<Rightarrow> None)
         | _ \<Rightarrow> None)
      else map_option ((#) (if c = CHR ''+'' then CHR '' '' else c)) (QueryUnescape s))"

text \<open>The values of a query in order, and whether a part of it was malformed.\<close>

definition query_part :: "string \<Rightarrow> (string \<times> string) list \<times> bool" where
  "query_part part =
     (if CHR '';'' \<in> set part then ([], True)
      else if part = [] then ([], False)
      else
        (let (key, rest, found) = Cut part (CHR ''='')
         in case (QueryUnescape key, QueryUnescape rest) of
              (Some k, Some v) \<Rightarrow> ([(k, v)], False)
            | _ \<Rightarrow> ([], True)))"

definition ParseQuery :: "string \<Rightarrow> (string \<times> string) list \<times> bool" where
  "ParseQuery query =
     (let parts = map query_part (Split query (CHR ''&''))
      in (concat (map fst parts), list_ex snd parts))"

definition values_Get :: "(string \<times> string) list \<Rightarrow> string \<Rightarrow> string" where
  "values_Get vs key = (case map_of vs key of None \<Rightarrow> [] | Some v \<Rightarrow> v)"

section \<open>Requests\<close>

text \<open>
  \<open>pq_MediaType\<close> is the media type of the content, \<open>pq_csrfCookie\<close> the value of the first cookie
  of that name.
\<close>

record page_request =
  pq_Method :: string
  pq_RawQuery :: string
  pq_MediaType :: string
  pq_Body :: string
  pq_csrfCookie :: "string option"
  pq_Header :: "string \<Rightarrow> string"
  pq_TLS :: bool

definition maxFormBytes :: nat where "maxFormBytes = 4096"

text \<open>\<open>ParseForm\<close> with a limited body: the values of the body come before those of the query.\<close>

definition ParseForm :: "page_request \<Rightarrow> (string \<times> string) list option" where
  "ParseForm req =
     (let (qs, qbad) = ParseQuery (pq_RawQuery req)
      in if pq_Method req \<in> {''POST'', ''PUT'', ''PATCH''} \<and> pq_MediaType req = ''application/x-www-form-urlencoded'' then
           (if length (pq_Body req) > maxFormBytes then None
            else (let (ps, pbad) = ParseQuery (pq_Body req) in if pbad \<or> qbad then None else Some (ps @ qs)))
         else if qbad then None else Some qs)"

section \<open>The token page\<close>

record 'm elicitation_Map =
  el_Lookup :: "'m \<Rightarrow> string \<Rightarrow> 'm \<times> (map_error + ElicitEntry option)"
  el_Claim :: "'m \<Rightarrow> string \<Rightarrow> 'm \<times> (map_error + ElicitEntry option)"

definition memory_Map :: "time \<Rightarrow> elicit_memory elicitation_Map" where
  "memory_Map now =
     \<lparr>el_Lookup = (\<lambda>m i. map_prod id Inr (elicit_Lookup now m i)),
      el_Claim = (\<lambda>m i. map_prod id Inr (elicit_Claim now m i))\<rparr>"

definition redis_Map :: "'r redis \<Rightarrow> 'r redisMap elicitation_Map" where
  "redis_Map R = \<lparr>el_Lookup = (\<lambda>m i. (m, elicit_redis_Lookup R m i)), el_Claim = elicit_redis_Claim R\<rparr>"

record ('m, 'r) TokenHandler =
  th_tokenCache :: "'r Cache"
  th_elicitationMap :: 'm

text \<open>The surroundings of a request: libraries, clock, random bytes and templates.\<close>

record ('m, 'r) page_env =
  pe_Map :: "'m elicitation_Map"
  pe_Redis :: "'r redis"
  pe_AEAD :: aead
  pe_Nonce :: "string option"
  pe_Random :: "string option"
  pe_Trunc :: "string \<Rightarrow> int option"
  pe_Now :: time
  pe_Render :: "string \<Rightarrow> (string \<times> string) list \<Rightarrow> string"

definition maxTokenLength :: nat where "maxTokenLength = 2048"

definition maxDuration :: duration where "maxDuration = 2 ^ 63 - 1"

text \<open>A \<open>float64\<close> field that is decoded into, truncated; null leaves it as it is.\<close>

fun fill_float :: "(string \<Rightarrow> int option) \<Rightarrow> int \<Rightarrow> json list \<Rightarrow> int option" where
  "fill_float trunc acc [] = Some acc"
| "fill_float trunc acc (JNum n # vs) =
     (case trunc n of None \<Rightarrow> None | Some i \<Rightarrow> fill_float trunc i vs)"
| "fill_float trunc acc (JNull # vs) = fill_float trunc acc vs"
| "fill_float trunc acc (_ # vs) = None"

definition gatewaySessionTTL :: "(string \<Rightarrow> int option) \<Rightarrow> time \<Rightarrow> string \<Rightarrow> duration" where
  "gatewaySessionTTL trunc now gatewaySessionID =
     (case DecodePayload gatewaySessionID (\<lambda>kvs. fill_float trunc 0 (field_values ''exp'' kvs)) of
        Some e \<Rightarrow>
          if e = 0 then 0
          else (let ttl = e * Second - now in if ttl \<le> 0 then 0 else min ttl maxDuration)
      | None \<Rightarrow> 0)"

definition token_sendError :: "int \<Rightarrow> string \<Rightarrow> http_reply" where
  "token_sendError status message =
     \<lparr>rp_Status = status, rp_Header = [(''Content-Type'', ''application/json'')],
      rp_Body = json_encode (JObj [(''error'', JStr message)]) @ line_end\<rparr>"

definition isValidToken :: "string \<Rightarrow> bool" where
  "isValidToken token = list_all (\<lambda>c. \<not> ((of_char c :: nat) < 0x20 \<and> c \<noteq> CHR 0x09)) token"

definition extractRequestSub :: "page_request \<Rightarrow> string" where
  "extractRequestSub req = pq_Header req ''X-Mcp-Verified-Sub''"

definition generateCSRFToken :: "('m, 'r) page_env \<Rightarrow> string option" where
  "generateCSRFToken P = map_option hex_EncodeToString (pe_Random P)"

definition csrf_cookie :: "string \<Rightarrow> bool \<Rightarrow> string" where
  "csrf_cookie csrf secure =
     ''csrf='' @ csrf @ ''; Path=/tokens; Max-Age=120; HttpOnly'' @ (if secure then ''; Secure'' else []) @ ''; SameSite=Strict''"

definition token_handleGet ::
  "('m, 'r) page_env \<Rightarrow> page_request \<Rightarrow> ('m, 'r) TokenHandler \<Rightarrow> ('m, 'r) TokenHandler \<times> http_reply" where
  "token_handleGet P req h =
     (let elicitationID = values_Get (fst (ParseQuery (pq_RawQuery req))) ''elicitation_id''
      in if elicitationID = [] then (h, token_sendError 400 ''missing elicitation_id parameter'')
         else
           (case el_Lookup (pe_Map P) (th_elicitationMap h) elicitationID of
              (m, Inl e) \<Rightarrow> (h\<lparr>th_elicitationMap := m\<rparr>, token_sendError 500 ''internal error'')
            | (m, Inr None) \<Rightarrow> (h\<lparr>th_elicitationMap := m\<rparr>, token_sendError 400 ''invalid or expired elicitation_id'')
            | (m, Inr (Some entry)) \<Rightarrow>
                (h\<lparr>th_elicitationMap := m\<rparr>,
                 case generateCSRFToken P of
                   None \<Rightarrow> token_sendError 500 ''internal error''
                 | Some csrf \<Rightarrow>
                     \<lparr>rp_Status = 200,
                      rp_Header =
                        [(''Set-Cookie'', csrf_cookie csrf (pq_TLS req \<or> pq_Header req ''X-Forwarded-Proto'' = ''https'')),
                         (''Content-Type'', ''text/html; charset=utf-8''), (''Referrer-Policy'', ''no-referrer'')],
                      rp_Body = pe_Render P ''token_form.html''
                        [(''ServerName'', ee_ServerName entry), (''ElicitationID'', elicitationID), (''CSRFToken'', csrf)]\<rparr>)))"

text \<open>What is left to do once the elicitation is claimed.\<close>

definition token_submit ::
  "('m, 'r) page_env \<Rightarrow> page_request \<Rightarrow> ElicitEntry \<Rightarrow> string \<Rightarrow> ('m, 'r) TokenHandler \<Rightarrow>
   ('m, 'r) TokenHandler \<times> http_reply" where
  "token_submit P req entry token h =
     (if ee_Sub entry \<noteq> [] \<and> extractRequestSub req = [] then (h, token_sendError 403 ''no identity found in request'')
      else if ee_Sub entry \<noteq> [] \<and> extractRequestSub req \<noteq> ee_Sub entry then (h, token_sendError 403 ''identity mismatch'')
      else
        (let ttl = gatewaySessionTTL (pe_Trunc P) (pe_Now P) (ee_SessionID entry)
         in if ttl \<le> 0 then (h, token_sendError 400 ''invalid or expired session'')
            else
              (case SetUserToken (pe_Redis P) (pe_AEAD P) (pe_Nonce P) (th_tokenCache h) (ee_SessionID entry)
                      (ee_ServerName entry) token ttl of
                 (c, Some e) \<Rightarrow> (h\<lparr>th_tokenCache := c\<rparr>, token_sendError 500 ''failed to store token'')
               | (c, None) \<Rightarrow>
                   (h\<lparr>th_tokenCache := c\<rparr>,
                    \<lparr>rp_Status = 200, rp_Header = [(''Content-Type'', ''text/html; charset=utf-8'')],
                     rp_Body = pe_Render P ''token_success.html'' [(''ServerName'', ee_ServerName entry)]\<rparr>))))"

definition token_handlePost ::
  "('m, 'r) page_env \<Rightarrow> page_request \<Rightarrow> ('m, 'r) TokenHandler \<Rightarrow> ('m, 'r) TokenHandler \<times> http_reply" where
  "token_handlePost P req h =
     (case ParseForm req of
        None \<Rightarrow> (h, token_sendError 400 ''invalid form data'')
      | Some form \<Rightarrow>
          (let elicitationID = values_Get form ''elicitation_id''; token = values_Get form ''token'';
               csrfForm = values_Get form ''csrf_token''
           in case pq_csrfCookie req of
                None \<Rightarrow> (h, token_sendError 403 ''missing CSRF token'')
              | Some csrfCookie \<Rightarrow>
                  if csrfCookie = [] then (h, token_sendError 403 ''missing CSRF token'')
                  else if csrfForm = [] \<or> csrfForm \<noteq> csrfCookie then (h, token_sendError 403 ''CSRF validation failed'')
                  else if elicitationID = [] then (h, token_sendError 400 ''missing elicitation_id'')
                  else if token = [] then (h, token_sendError 400 ''missing token'')
                  else if length token > maxTokenLength then (h, token_sendError 400 ''token exceeds maximum length'')
                  else if \<not> isValidToken token then (h, token_sendError 400 ''token contains invalid characters'')
                  else
                    (case el_Claim (pe_Map P) (th_elicitationMap h) elicitationID of
                       (m, Inl e) \<Rightarrow> (h\<lparr>th_elicitationMap := m\<rparr>, token_sendError 500 ''internal error'')
                     | (m, Inr None) \<Rightarrow>
                         (h\<lparr>th_elicitationMap := m\<rparr>, token_sendError 400 ''invalid or expired elicitation_id'')
                     | (m, Inr (Some entry)) \<Rightarrow> token_submit P req entry token (h\<lparr>th_elicitationMap := m\<rparr>))))"

definition token_ServeHTTP ::
  "('m, 'r) page_env \<Rightarrow> page_request \<Rightarrow> ('m, 'r) TokenHandler \<Rightarrow> ('m, 'r) TokenHandler \<times> http_reply" where
  "token_ServeHTTP P req h =
     (if pq_Method req = ''GET'' then token_handleGet P req h
      else if pq_Method req = ''POST'' then token_handlePost P req h
      else (h, token_sendError 405 ''method not allowed''))"

section \<open>Sending a client to the page\<close>

text \<open>What \<open>strconv.Quote\<close> returns; \<open>printable\<close> is \<open>strconv.IsPrint\<close> above ASCII.\<close>

definition hex_n :: "nat \<Rightarrow> nat \<Rightarrow> string" where
  "hex_n k r = map (\<lambda>i. hex_digit (r div 16 ^ i mod 16)) (rev [0 ..< k])"

definition quote_rune :: "(nat \<Rightarrow> bool) \<Rightarrow> nat \<times> string \<Rightarrow> string" where
  "quote_rune printable rb =
     (let r = fst rb; bs = snd rb
      in if r = RuneError \<and> length bs = 1 then backslash # ''x'' @ hex_n 2 (of_char (hd bs))
         else if r = 0x22 \<or> r = 0x5C then backslash # bs
         else if (if r < 0x80 then 0x20 \<le> r \<and> r < 0x7F else printable r) then bs
         else if r = 7 then backslash # ''a''
         else if r = 8 then backslash # ''b''
         else if r = 12 then backslash # ''f''
         else if r = 10 then backslash # ''n''
         else if r = 13 then backslash # ''r''
         else if r = 9 then backslash # ''t''
         else if r = 11 then backslash # ''v''
         else if r < 0x20 \<or> r = 0x7F then backslash # ''x'' @ hex_n 2 r
         else if r < 0x10000 then backslash # ''u'' @ hex_n 4 r
         else backslash # ''U'' @ hex_n 8 r)"

definition quote_string :: "(nat \<Rightarrow> bool) \<Rightarrow> string \<Rightarrow> string" where
  "quote_string printable s = quote # concat (map (quote_rune printable) (runes s)) @ [quote]"

definition buildElicitationURL ::
  "'obs MCPServersConfig \<Rightarrow> string \<Rightarrow> string \<Rightarrow> page_request \<Rightarrow> string" where
  "buildElicitationURL cfg serverName elicitationID req =
     (let escapedID = QueryEscape elicitationID;
          page = (let scheme = pq_Header req ''X-Forwarded-Proto''
                  in (if scheme = [] then ''https'' else scheme) @ ''://'' @ GetExternalHostname cfg @
                     ''/tokens?elicitation_id='' @ escapedID)
      in case GetServerConfigByName cfg serverName of
           Some serverConfig \<Rightarrow>
             (case srv_TokenURLElicitation serverConfig of
                Some url \<Rightarrow> if url \<noteq> [] then url @ ''?elicitation_id='' @ escapedID else page
              | None \<Rightarrow> page)
         | None \<Rightarrow> page)"

definition str :: "string \<Rightarrow> string" where
  "str s = quote # s @ [quote]"

definition elicitation_event :: "(nat \<Rightarrow> bool) \<Rightarrow> string \<Rightarrow> string \<Rightarrow> string \<Rightarrow> string" where
  "elicitation_event printable requestID elicitationID elicitURL =
     line_end @ ''event: message'' @ line_end @ ''data: {'' @ str ''jsonrpc'' @ '':'' @ str ''2.0'' @ '','' @ str ''id'' @ '':'' @
     requestID @ '','' @ str ''error'' @ '':{'' @ str ''code'' @ '':'' @ ''-32042'' @
     '','' @ str ''message'' @ '':'' @ str ''URL elicitation required'' @ '','' @ str ''data'' @ '':{'' @ str ''elicitations'' @
     '':[{'' @ str ''mode'' @ '':'' @ str ''url'' @ '','' @ str ''elicitationId'' @ '':'' @ quote_string printable elicitationID @
     '','' @ str ''url'' @ '':'' @ quote_string printable elicitURL @
     '','' @ str ''message'' @ '':'' @ str ''Authorization is required to access this service.'' @ ''}]}}}'' @ line_end @ line_end"

definition elicitation_ServeHTTP ::
  "(nat \<Rightarrow> bool) \<Rightarrow> 'm elicitation_Map \<Rightarrow> 'obs MCPServersConfig \<Rightarrow> page_request \<Rightarrow> 'm \<Rightarrow> 'm \<times> http_reply" where
  "elicitation_ServeHTTP printable L cfg req m =
     (let status = (\<lambda>code. \<lparr>rp_Status = code, rp_Header = [], rp_Body = []\<rparr>);
          requestID = pq_Header req ''X-Mcp-Request-Id''; elicitationID = pq_Header req ''X-Mcp-Elicitation-Id'';
          sessionID = pq_Header req ''Mcp-Session-Id''
      in if pq_Method req \<noteq> ''POST'' then (m, status 405)
         else if requestID = [] \<or> elicitationID = [] then (m, status 400)
         else
           (case el_Lookup L m elicitationID of
              (m', Inl e) \<Rightarrow> (m', status 500)
            | (m', Inr None) \<Rightarrow> (m', status 400)
            | (m', Inr (Some entry)) \<Rightarrow>
                (m', \<lparr>rp_Status = 200,
                      rp_Header = (''Content-Type'', ''text/event-stream'') #
                        (if sessionID \<noteq> [] then [(''Mcp-Session-Id'', sessionID)] else []),
                      rp_Body = elicitation_event printable requestID elicitationID
                        (buildElicitationURL cfg (ee_ServerName entry) elicitationID req)\<rparr>)))"

section \<open>The protected resource\<close>

record OAuthProtectedResource =
  or_ResourceName :: string
  or_Resource :: string
  or_AuthorizationServers :: "string list"
  or_BearerMethodsSupported :: "string list"
  or_ScopesSupported :: "string list"

definition comma_list :: "string \<Rightarrow> string list \<Rightarrow> string list" where
  "comma_list v dflt = (if v \<noteq> [] then map TrimSpace (Split v (CHR '','')) else dflt)"

text \<open>\<open>env\<close> is the process environment; an unset variable is empty.\<close>

definition getOAuthConfig :: "(string \<Rightarrow> string) \<Rightarrow> OAuthProtectedResource" where
  "getOAuthConfig env =
     \<lparr>or_ResourceName = (if env ''OAUTH_RESOURCE_NAME'' \<noteq> [] then env ''OAUTH_RESOURCE_NAME'' else ''MCP Server''),
      or_Resource = (if env ''OAUTH_RESOURCE'' \<noteq> [] then env ''OAUTH_RESOURCE'' else ''/mcp''),
      or_AuthorizationServers = comma_list (env ''OAUTH_AUTHORIZATION_SERVERS'') [],
      or_BearerMethodsSupported = comma_list (env ''OAUTH_BEARER_METHODS_SUPPORTED'') [''header''],
      or_ScopesSupported = comma_list (env ''OAUTH_SCOPES_SUPPORTED'') [''basic'']\<rparr>"

definition resource_Handle :: "(string \<Rightarrow> string) \<Rightarrow> page_request \<Rightarrow> http_reply" where
  "resource_Handle env req =
     (let cors = [(''Access-Control-Allow-Origin'', ''*''),
                  (''Access-Control-Allow-Methods'', ''GET, POST, PUT, DELETE, OPTIONS, HEAD''),
                  (''Access-Control-Allow-Headers'', ''Content-Type, Authorization, Accept, Origin, X-Requested-With''),
                  (''Access-Control-Max-Age'', ''3600''), (''Access-Control-Allow-Credentials'', ''true'')];
          cfg = getOAuthConfig env; strings = (\<lambda>ss. JArr (map JStr ss))
      in if pq_Method req = ''OPTIONS'' then \<lparr>rp_Status = 200, rp_Header = cors, rp_Body = []\<rparr>
         else \<lparr>rp_Status = 200, rp_Header = cors @ [(''Content-Type'', ''application/json'')],
               rp_Body = json_encode (JObj
                 [(''resource_name'', JStr (or_ResourceName cfg)), (''resource'', JStr (or_Resource cfg)),
                  (''authorization_servers'', strings (or_AuthorizationServers cfg)),
                  (''bearer_methods_supported'', strings (or_BearerMethodsSupported cfg)),
                  (''scopes_supported'', strings (or_ScopesSupported cfg))]) @ line_end\<rparr>)"

section \<open>Query strings are read back\<close>

lemma unhex_upper: "k < 16 \<Longrightarrow> unhex (hex_upper k) = Some k"
  by (drule less_16_cases) (auto simp: hex_upper_def unhex_def hex_value_def)

lemma hex_upper_plain: "k < 16 \<Longrightarrow> hex_upper k \<notin> set ''&=;''"
  by (drule less_16_cases) (auto simp: hex_upper_def)

lemma byte_less: "(of_char c :: nat) < 256"
  by (metis mod_less_divisor of_char_mod_256 zero_less_numeral)

lemma byte_parts: "(of_char c :: nat) div 16 < 16" "(of_char c :: nat) mod 16 < 16"
    "char_of (16 * (of_char c div 16) + of_char c mod 16 :: nat) = c"
  using byte_less[of c] by (simp_all add: less_mult_imp_div_less)

lemma query_plain_char: "query_plain c \<Longrightarrow> c \<notin> set ''&=;%+ ''"
  by (auto simp: query_plain_def is_letter_def byte_in_def)

lemma unescape_char: "QueryUnescape (query_escape_char c @ s) = map_option ((#) c) (QueryUnescape s)"
  using query_plain_char[of c] byte_parts[of c] unhex_upper
  by (auto simp: query_escape_char_def)

lemma QueryUnescape_escape: "QueryUnescape (QueryEscape s) = Some s"
  by (induction s) (simp_all add: QueryEscape_def unescape_char)

lemma escape_char_free: "x \<in> set (query_escape_char c) \<Longrightarrow> x \<notin> set ''&=;''"
  using query_plain_char[of c] hex_upper_plain[OF byte_parts(1)[of c]] hex_upper_plain[OF byte_parts(2)[of c]]
  by (auto simp: query_escape_char_def split: if_splits)

lemma QueryEscape_free: "x \<in> set (QueryEscape s) \<Longrightarrow> x \<notin> set ''&=;''"
  using escape_char_free unfolding QueryEscape_def by auto

definition encode_pair :: "string \<times> string \<Rightarrow> string" where
  "encode_pair kv = QueryEscape (fst kv) @ ''='' @ QueryEscape (snd kv)"

lemma query_part_encode: "query_part (encode_pair kv) = ([kv], False)"
proof -
  have "CHR ''='' \<notin> set (QueryEscape (fst kv))" "CHR '';'' \<notin> set (encode_pair kv)"
    using QueryEscape_free unfolding encode_pair_def by fastforce+
  moreover from this have "Cut (encode_pair kv) (CHR ''='') = (QueryEscape (fst kv), QueryEscape (snd kv), True)"
    using Cut_found by (simp add: encode_pair_def)
  ultimately show ?thesis by (simp add: query_part_def QueryUnescape_escape) (simp add: encode_pair_def)
qed

lemma Split_Join: "list_all (\<lambda>p. c \<notin> set p) ps \<Longrightarrow> ps \<noteq> [] \<Longrightarrow> Split (Join ps [c]) c = ps"
proof (induction ps)
  case (Cons p ps)
  then show ?case by (cases "ps = []") (simp_all add: Join_Cons Split_cons Split_absent)
qed simp

lemma ParseQuery_encode: "kvs \<noteq> [] \<Longrightarrow> ParseQuery (Join (map encode_pair kvs) ''&'') = (kvs, False)"
proof -
  assume "kvs \<noteq> []"
  have "CHR ''&'' \<notin> set (encode_pair kv)" for kv
    using QueryEscape_free unfolding encode_pair_def by fastforce
  then have "Split (Join (map encode_pair kvs) ''&'') (CHR ''&'') = map encode_pair kvs"
    using \<open>kvs \<noteq> []\<close> by (intro Split_Join) (simp_all add: list_all_iff)
  then show ?thesis by (simp add: ParseQuery_def comp_def query_part_encode list_ex_iff)
qed

section \<open>A posted token\<close>

text \<open>What a token page and a router read of a session in memory.\<close>

definition read_token :: "cache_value gomap \<Rightarrow> string \<Rightarrow> string \<Rightarrow> cache_error + string option" where
  "read_token m s v =
     (case m s of
        None \<Rightarrow> Inr None
      | Some val \<Rightarrow> (case as_session val of Inl e \<Rightarrow> Inl e | Inr fs \<Rightarrow> Inr (fs (userTokenFieldPrefix @ v))))"

lemma get_token_memory:
  "ca_inmemory c = Some m \<Longrightarrow> snd (GetUserToken R g trunc now c s v) =
     (case read_token m s v of
        Inr (Some tok) \<Rightarrow> Inr (if checkUpstreamJWTExpiry trunc now tok then None else Some tok)
      | r \<Rightarrow> r)"
  by (simp add: GetUserToken_def read_token_def Let_def split: option.split sum.split)

lemma set_token_memory:
  assumes "ca_inmemory c = Some m" and "SetUserToken R g rnd c s v tok ttl = (c', None)"
  obtains m' where "ca_inmemory c' = Some m'" "read_token m' s v = Inr (Some tok)"
    "\<forall>s' v'. (s', v') \<noteq> (s, v) \<longrightarrow> read_token m' s' v' = read_token m s' v'"
proof -
  obtain m' where m': "put_field m s (userTokenFieldPrefix @ v) tok = Inr m'" "c' = set_memory m' c"
    using assms by (auto simp: SetUserToken_def Let_def split: sum.splits)
  obtain ex where ex: "m' = m(s \<mapsto> SessionVal (ex(userTokenFieldPrefix @ v \<mapsto> tok)))"
    "m s = None \<and> ex = Map.empty \<or> m s = Some (SessionVal ex)"
    using m'(1) by (auto simp: put_field_def as_session_def split: option.splits cache_value.splits)
  show thesis
  proof (rule that)
    show "ca_inmemory c' = Some m'" using m'(2) by (simp add: set_memory_def)
    show "read_token m' s v = Inr (Some tok)" by (simp add: read_token_def ex(1) as_session_def)
    have "read_token m' s' v' = read_token m s' v'" if "(s', v') \<noteq> (s, v)" for s' v'
      using that ex by (cases "s' = s") (auto simp: read_token_def as_session_def)
    then show "\<forall>s' v'. (s', v') \<noteq> (s, v) \<longrightarrow> read_token m' s' v' = read_token m s' v'" by blast
  qed
qed

lemma token_after_set:
  assumes "ca_inmemory c = Some m" and "SetUserToken R g rnd c s v tok ttl = (c', None)"
  shows "snd (GetUserToken R g trunc now c' s' v') =
    (if (s', v') = (s, v) then Inr (if checkUpstreamJWTExpiry trunc now tok then None else Some tok)
     else snd (GetUserToken R g trunc now c s' v'))"
proof -
  obtain m' where m': "ca_inmemory c' = Some m'" "read_token m' s v = Inr (Some tok)"
      "\<forall>s' v'. (s', v') \<noteq> (s, v) \<longrightarrow> read_token m' s' v' = read_token m s' v'"
    using set_token_memory[OF assms] .
  show ?thesis
  proof (cases "(s', v') = (s, v)")
    case True
    then show ?thesis by (simp add: get_token_memory[OF m'(1)] m'(2))
  next
    case False
    then have "read_token m' s' v' = read_token m s' v'" using m'(3) by blast
    with False show ?thesis by (simp only: get_token_memory[OF m'(1)] get_token_memory[OF assms(1)] if_False)
  qed
qed

lemma token_not_set:
  "ca_inmemory c = Some m \<Longrightarrow> SetUserToken R g rnd c s v tok ttl = (c', Some e) \<Longrightarrow> c' = c"
  by (auto simp: SetUserToken_def Let_def split: sum.splits)

text \<open>The checks that a form passes before its elicitation is claimed.\<close>

definition form_ok :: "page_request \<Rightarrow> (string \<times> string) list \<Rightarrow> bool" where
  "form_ok req form \<longleftrightarrow>
     ParseForm req = Some form \<and> values_Get form ''csrf_token'' \<noteq> [] \<and>
     pq_csrfCookie req = Some (values_Get form ''csrf_token'') \<and> values_Get form ''elicitation_id'' \<noteq> [] \<and>
     values_Get form ''token'' \<noteq> [] \<and> length (values_Get form ''token'') \<le> maxTokenLength \<and>
     isValidToken (values_Get form ''token'')"

lemma post_accepted:
  assumes "form_ok req form"
  shows "token_handlePost P req h =
    (case el_Claim (pe_Map P) (th_elicitationMap h) (values_Get form ''elicitation_id'') of
       (m, Inl e) \<Rightarrow> (h\<lparr>th_elicitationMap := m\<rparr>, token_sendError 500 ''internal error'')
     | (m, Inr None) \<Rightarrow> (h\<lparr>th_elicitationMap := m\<rparr>, token_sendError 400 ''invalid or expired elicitation_id'')
     | (m, Inr (Some entry)) \<Rightarrow> token_submit P req entry (values_Get form ''token'') (h\<lparr>th_elicitationMap := m\<rparr>))"
  using assms by (simp add: form_ok_def token_handlePost_def Let_def)

lemma post_refused:
  assumes "\<nexists>form. form_ok req form"
  shows "fst (token_handlePost P req h) = h \<and> rp_Status (snd (token_handlePost P req h)) \<in> {400, 403}"
proof (cases "ParseForm req")
  case (Some form)
  then have "\<not> form_ok req form" using assms by blast
  with Some show ?thesis
    by (auto simp: form_ok_def token_handlePost_def Let_def token_sendError_def split: option.splits if_splits)
qed (simp add: token_handlePost_def token_sendError_def)

lemma memory_claim:
  "el_Claim (memory_Map now) m i =
     (case em_entries m i of
        None \<Rightarrow> (m, Inr None)
      | Some (e, t) \<Rightarrow> (elicit_Remove m i, Inr (if now > t then None else Some e)))"
  by (simp add: memory_Map_def elicit_Claim_def Let_def split: option.split)

text \<open>
  C5: A token is stored only for the session and the server whose elicitation its form names. When the
  token page accepts a form, the form carries the value of the cookie, its elicitation is live and
  belongs to the identity that the router verified, if it belongs to any; from then on the router
  finds this token for that session and server and every other token as before, and the elicitation
  cannot be used again. When the page refuses a form, no token changes.
\<close>

theorem token_is_bound_to_its_elicitation:
  assumes "token_handlePost P req h = (h', reply)" and "pe_Map P = memory_Map now"
    and "ca_inmemory (th_tokenCache h) = Some mem"
  shows "(rp_Status reply \<noteq> 200 \<longrightarrow> th_tokenCache h' = th_tokenCache h) \<and>
    (rp_Status reply = 200 \<longrightarrow>
      (\<exists>form entry expires. form_ok req form \<and>
        em_entries (th_elicitationMap h) (values_Get form ''elicitation_id'') = Some (entry, expires) \<and> now \<le> expires \<and>
        (ee_Sub entry \<noteq> [] \<longrightarrow> pq_Header req ''X-Mcp-Verified-Sub'' = ee_Sub entry) \<and>
        em_entries (th_elicitationMap h') (values_Get form ''elicitation_id'') = None \<and>
        (\<forall>t s v. snd (GetUserToken (pe_Redis P) (pe_AEAD P) (pe_Trunc P) t (th_tokenCache h') s v) =
           (if (s, v) = (ee_SessionID entry, ee_ServerName entry)
            then Inr (if checkUpstreamJWTExpiry (pe_Trunc P) t (values_Get form ''token'') then None
                      else Some (values_Get form ''token''))
            else snd (GetUserToken (pe_Redis P) (pe_AEAD P) (pe_Trunc P) t (th_tokenCache h) s v)))))"
proof (cases "\<exists>form. form_ok req form")
  case False
  then show ?thesis using post_refused[of req P h] assms(1) by auto
next
  case True
  then obtain form where form: "form_ok req form" ..
  let ?i = "values_Get form ''elicitation_id''" and ?tok = "values_Get form ''token''"
  note post = post_accepted[OF form, of P h, unfolded assms(1,2) memory_claim]
  show ?thesis
  proof (cases "em_entries (th_elicitationMap h) ?i")
    case None
    then show ?thesis using post by (simp add: token_sendError_def)
  next
    case (Some et)
    obtain entry expires where et: "et = (entry, expires)" by (cases et)
    show ?thesis
    proof (cases "now > expires")
      case True
      then show ?thesis using post Some et by (simp add: token_sendError_def)
    next
      case False
      let ?h = "h\<lparr>th_elicitationMap := elicit_Remove (th_elicitationMap h) ?i\<rparr>"
      have sub: "token_submit P req entry ?tok ?h = (h', reply)" using post Some et False by simp
      show ?thesis
      proof (cases "rp_Status reply = 200")
        case True
        then obtain c where c: "SetUserToken (pe_Redis P) (pe_AEAD P) (pe_Nonce P) (th_tokenCache h) (ee_SessionID entry)
            (ee_ServerName entry) ?tok (gatewaySessionTTL (pe_Trunc P) (pe_Now P) (ee_SessionID entry)) = (c, None)"
          "h' = ?h\<lparr>th_tokenCache := c\<rparr>" "ee_Sub entry \<noteq> [] \<longrightarrow> pq_Header req ''X-Mcp-Verified-Sub'' = ee_Sub entry"
          using sub by (auto simp: token_submit_def token_sendError_def extractRequestSub_def Let_def split: if_splits option.splits prod.splits)
        have "em_entries (th_elicitationMap h') ?i = None" using c(2) by (simp add: elicit_Remove_def)
        then show ?thesis
          using True form Some et False c(2,3) token_after_set[OF assms(3) c(1)] by auto
      next
        case False
        then have "th_tokenCache h' = th_tokenCache h"
          using sub token_not_set[OF assms(3)]
          by (auto simp: token_submit_def Let_def split: if_splits option.splits prod.splits)
        then show ?thesis using False by simp
      qed
    qed
  qed
qed

section \<open>From the link to the token\<close>

lemma elicitation_query: "''elicitation_id='' @ QueryEscape i = encode_pair (''elicitation_id'', i)"
proof -
  have "QueryEscape ''elicitation_id'' = ''elicitation_id''" by code_simp
  then show ?thesis by (simp add: encode_pair_def)
qed

lemma link_query: "values_Get (fst (ParseQuery (''elicitation_id='' @ QueryEscape i))) ''elicitation_id'' = i"
  unfolding elicitation_query using ParseQuery_encode[of "[(''elicitation_id'', i)]"] by (simp add: values_Get_def)

text \<open>The link of a server without a page of its own leads to the gateway's page.\<close>

definition own_page :: "'obs MCPServersConfig \<Rightarrow> string \<Rightarrow> bool" where
  "own_page cfg srv \<longleftrightarrow>
     (case GetServerConfigByName cfg srv of
        None \<Rightarrow> True
      | Some s \<Rightarrow> srv_TokenURLElicitation s = None \<or> srv_TokenURLElicitation s = Some [])"

lemma link_of_page:
  assumes "own_page cfg srv" and "CHR ''?'' \<notin> set (pq_Header req ''X-Forwarded-Proto'' @ GetExternalHostname cfg)"
  obtains base where "Cut (buildElicitationURL cfg srv i req) (CHR ''?'') = (base, ''elicitation_id='' @ QueryEscape i, True)"
proof -
  let ?scheme = "if pq_Header req ''X-Forwarded-Proto'' = [] then ''https'' else pq_Header req ''X-Forwarded-Proto''"
  let ?base = "?scheme @ ''://'' @ GetExternalHostname cfg @ ''/tokens''"
  have "buildElicitationURL cfg srv i req = ?base @ CHR ''?'' # ''elicitation_id='' @ QueryEscape i"
    using assms(1) by (auto simp: buildElicitationURL_def own_page_def Let_def split: option.splits)
  moreover have "CHR ''?'' \<notin> set ?base" using assms(2) by auto
  ultimately have "Cut (buildElicitationURL cfg srv i req) (CHR ''?'') = (?base, ''elicitation_id='' @ QueryEscape i, True)"
    using Cut_found[of "CHR ''?''" ?base "''elicitation_id='' @ QueryEscape i"] by presburger
  then show thesis by (rule that)
qed

text \<open>The form of the page as a browser sends it.\<close>

definition token_form :: "string \<Rightarrow> string \<Rightarrow> string \<Rightarrow> string" where
  "token_form csrf i token =
     Join (map encode_pair [(''csrf_token'', csrf), (''elicitation_id'', i), (''token'', token)]) ''&''"

lemma form_parsed:
  assumes "pq_Method req = ''POST''" and "pq_MediaType req = ''application/x-www-form-urlencoded''" and "pq_RawQuery req = []"
    and "pq_Body req = token_form csrf i token" and "length (pq_Body req) \<le> maxFormBytes"
  shows "ParseForm req = Some [(''csrf_token'', csrf), (''elicitation_id'', i), (''token'', token)]"
proof -
  have "ParseQuery [] = ([], False)" by code_simp
  then show ?thesis
    using assms ParseQuery_encode[of "[(''csrf_token'', csrf), (''elicitation_id'', i), (''token'', token)]"]
    by (simp add: ParseForm_def token_form_def)
qed

lemma hex_nonempty: "rnd \<noteq> [] \<Longrightarrow> hex_EncodeToString rnd \<noteq> []"
  by (cases rnd) (simp_all add: hex_EncodeToString_def)

lemma stored_entry:
  "elicit_Store t0 m i sess srv sub = (m1, i) \<Longrightarrow> em_entries m1 i =
     Some (\<lparr>ee_SessionID = sess, ee_ServerName = srv, ee_Sub = sub\<rparr>, t0 + em_entryTTL m)"
  by (auto simp: elicit_Store_def)

lemma set_token_succeeds:
  assumes "ca_inmemory c = Some mem" and "\<forall>v. mem sess = Some v \<longrightarrow> (\<exists>fs. v = SessionVal fs)"
  shows "snd (SetUserToken R g rnd c sess srv token ttl) = None"
  using assms by (auto simp: SetUserToken_def put_field_def as_session_def Let_def split: option.splits)


text \<open>One elicitation on an empty gateway.\<close>

definition demo_session :: string where "demo_session = ''h.eyJleHAiOjl9.s''"

definition demo_page :: "(elicit_memory, unit) page_env" where
  "demo_page =
     \<lparr>pe_Map = memory_Map 1, pe_Redis = no_redis, pe_AEAD = no_aead, pe_Nonce = None, pe_Random = Some ''r'',
      pe_Trunc = (\<lambda>_. Some 9), pe_Now = 1, pe_Render = (\<lambda>_ _. [])\<rparr>"

definition demo_open :: page_request where
  "demo_open =
     \<lparr>pq_Method = ''GET'', pq_RawQuery = ''elicitation_id=e1'', pq_MediaType = [], pq_Body = [], pq_csrfCookie = None,
      pq_Header = (\<lambda>_. []), pq_TLS = False\<rparr>"

definition demo_post :: page_request where
  "demo_post =
     \<lparr>pq_Method = ''POST'', pq_RawQuery = [], pq_MediaType = ''application/x-www-form-urlencoded'',
      pq_Body = token_form (hex_EncodeToString ''r'') ''e1'' ''tok'', pq_csrfCookie = Some (hex_EncodeToString ''r''),
      pq_Header = (\<lambda>_. []), pq_TLS = False\<rparr>"

definition demo_config :: "unit MCPServersConfig" where
  "demo_config = \<lparr>cfg_Servers = [], cfg_VirtualServers = [], cfg_A2AAgents = [], cfg_observers = [], cfg_ExternalHostname = ''gw'',
     cfg_InternalHostname = [], cfg_GatewayCACertPEM = []\<rparr>"

lemma demo_payload: "RawURL_DecodeString ''eyJleHAiOjl9'' = Some (json_encode (JObj [(''exp'', JNum ''9'')]))"
  by code_simp

lemma demo_lifetime: "0 < gatewaySessionTTL (pe_Trunc demo_page) (pe_Now demo_page) demo_session"
proof -
  have "json_Unmarshal (json_encode (JObj [(''exp'', JNum ''9'')])) = Some (JObj [(''exp'', JNum ''9'')])"
  proof (rule json_Unmarshal_encode)
    have "number_literal ''9''" by code_simp
    then show "json_plain (JObj [(''exp'', JNum ''9'')])" by (simp add: ascii_def)
  qed (simp add: maxNestingDepth_def)
  moreover have "Split demo_session (CHR ''.'') = [''h'', ''eyJleHAiOjl9'', ''s'']" by code_simp
  moreover have "field_values ''exp'' [(''exp'', JNum ''9'')] = [JNum ''9'']" by code_simp
  ultimately show ?thesis
    by (simp add: gatewaySessionTTL_def DecodePayload_def demo_payload object_members_def demo_page_def Second_def maxDuration_def)
qed

lemma demo_page_facts:
  "length (pq_Body demo_post) \<le> maxFormBytes" "isValidToken ''tok''" "\<not> checkUpstreamJWTExpiry (pe_Trunc demo_page) 1 ''tok''"
  "QueryEscape ''e1'' = ''e1''"
  by code_simp+

definition demo_issued :: "(elicit_memory, unit) TokenHandler" where
  "demo_issued = \<lparr>th_tokenCache = empty_cache, th_elicitationMap = fst (elicit_Store 0 (newElicitMap 0) ''e1'' demo_session ''ns/gh'' [])\<rparr>"



theorem token_is_bound_to_its_elicitation_witness:
  "th_tokenCache (fst (token_handlePost demo_page (demo_post\<lparr>pq_csrfCookie := None\<rparr>) demo_issued)) = empty_cache"
proof -
  let ?req = "demo_post\<lparr>pq_csrfCookie := None\<rparr>"
  have "\<nexists>form. form_ok ?req form" by (simp add: form_ok_def)
  then have "rp_Status (snd (token_handlePost demo_page ?req demo_issued)) \<noteq> 200"
    using post_refused[of ?req demo_page demo_issued] by auto
  moreover have "pe_Map demo_page = memory_Map 1" "ca_inmemory (th_tokenCache demo_issued) = Some Map.empty"
    by (simp_all add: demo_page_def demo_issued_def empty_cache_def NewCache_def)
  ultimately show ?thesis
    using token_is_bound_to_its_elicitation[OF prod.collapse[symmetric], of demo_page 1 demo_issued Map.empty ?req]
    by (simp add: demo_issued_def)
qed
end
