(* ===== verification/Spec2Isabelle.thy ===== *)
theory Spec2Isabelle
  imports Go_Prelude Go_Json Go_Struct Go_Url A2A_Card A2A_Request Gateway_Config Go_Http
    A2A_Broker Tool_Model Gateway_Server Routing_Table Upstream_Manager Upstream_Correct
    Scope_Store MCP_Broker Broker_Correct Broker_Locks Go_Base64 Session_JWT Session_Cache
    Elicitation_Maps MCP_Request MCP_Router SSE_Streams Ext_Proc Ext_Proc_Correct Tool_Filters
    Filters_Correct Token_Pages
begin

text \<open>
  \<^bold>\<open>The program.\<close> An MCP and A2A gateway in Go. Envoy sends every HTTP request to the router, an
  external processor (\<open>internal/mcp-router\<close>, \<open>internal/routing\<close>), which authenticates the session,
  decides where the request goes and rewrites headers and bodies. The broker (\<open>internal/broker\<close>)
  connects to the upstream MCP servers, registers their tools and prompts on the gateway's own MCP
  server, answers listings and hands the router a routing table. The A2A broker (\<open>internal/a2a\<close>) fetches,
  checks and serves agent cards. Both read the configuration (\<open>internal/config\<close>) that Kubernetes
  controllers write into a secret. Sessions, user tokens, task owners, request ids and elicitations
  live in memory or in Redis (\<open>internal/session\<close>, \<open>internal/idmap\<close>, \<open>internal/elicitation\<close>).

  \<^bold>\<open>Conventions.\<close> A Go string is a list of bytes. A Go map is a partial function; where the order of a
  traversal can matter it is an argument, constrained to list the keys. Structs are records, errors
  the left side of a sum, panics and calls that never return the value None or an error of their own.
  Integers that the code cannot drive out of range are \<open>int\<close> or \<open>nat\<close>; times are nanoseconds. The clock,
  random identifiers and every third-party library (Redis, JWT, AES-GCM, the MCP SDK, Envoy) are
  arguments; what the code relies on is stated as a predicate on them (\<open>jwt_laws\<close> for the session tokens,
  \<open>jwt_law\<close> for the authorization header). The standard library is modelled. Definitions keep the names of the
  code; a prefix is added where two parts of the code use one name.

  \<^bold>\<open>Theories and code.\<close>
  \<^item> \<open>Go_Prelude\<close>, \<open>Go_Json\<close>, \<open>Go_Struct\<close>, \<open>Go_Url\<close>, \<open>Go_Base64\<close>, \<open>Go_Http\<close>: what the code uses of \<open>strings\<close>,
    \<open>encoding/json\<close>, \<open>unicode/utf8\<close>, \<open>net/url\<close>, \<open>encoding/base64\<close> and \<open>net/http\<close>, on bytes, with
    the lemma that decoding undoes encoding.
  \<^item> \<open>Gateway_Config\<close>: \<open>config/types.go\<close>, \<open>a2a_types.go\<close>, \<open>config_writer.go\<close>. The locale \<open>named_entries\<close> has
    the update of a list of named entries once, interpreted for servers and for agents.
  \<^item> \<open>Session_JWT\<close>, \<open>Session_Cache\<close>, \<open>Elicitation_Maps\<close>: \<open>jwt/decode.go\<close>, \<open>session/*.go\<close>, \<open>idmap/*.go\<close>,
    \<open>elicitation/*.go\<close>. The locales \<open>ownership_records\<close> and \<open>keyed_store\<close> are the contracts of the cache
    and of the two maps.
  \<^item> \<open>MCP_Request\<close>, \<open>Routing_Table\<close>, \<open>MCP_Router\<close>: \<open>routing/*.go\<close>, \<open>broker/routing_table.go\<close>.
  \<^item> \<open>A2A_Request\<close>, \<open>SSE_Streams\<close>, \<open>Ext_Proc\<close>, \<open>Ext_Proc_Correct\<close>: \<open>mcp-router/*.go\<close>, a stream of the external
    processor as the recursion of \<open>Process\<close> over the messages of Envoy. The locale \<open>line_loop\<close> is the loop
    over the complete lines of a buffer, interpreted for the rewriter and for the observer.
  \<^item> \<open>A2A_Card\<close>, \<open>A2A_Broker\<close>: \<open>a2a/*.go\<close>, with the locale \<open>card_store\<close> for the interface \<open>CardStore\<close>; fetches
    and configuration changes interleave as steps of \<open>broker_run\<close>.
  \<^item> \<open>Tool_Model\<close>, \<open>Gateway_Server\<close>, \<open>Upstream_Manager\<close>, \<open>Upstream_Correct\<close>: \<open>upstream/validate.go\<close>,
    \<open>gateway_server.go\<close>, \<open>upstream/mcp.go\<close>, \<open>upstream/manager.go\<close>. One pass of a manager is \<open>loop_round\<close>; the
    managers that share the gateway are the states of \<open>fleet_run\<close>. The locale \<open>registry\<close> is what a
    registry of owned items promises, interpreted for tools and for prompts.
  \<^item> \<open>Scope_Store\<close>, \<open>MCP_Broker\<close>, \<open>Broker_Correct\<close>, \<open>Broker_Locks\<close>: \<open>discovery_scope.go\<close>, \<open>broker.go\<close>, \<open>status.go\<close>
    and the registration of the broker's own tools. \<open>reload_run\<close> interleaves the phases of a reload with
    passes of managers; \<open>Broker_Locks\<close> keeps only the operations on \<open>mcpLock\<close> and interleaves goroutines
    one operation at a time.
  \<^item> \<open>Tool_Filters\<close>, \<open>Filters_Correct\<close>: \<open>filtered_tools_handler.go\<close>, \<open>filtered_prompts_handler.go\<close>,
    \<open>discovery.go\<close>, \<open>tags_handler.go\<close>.
  \<^item> \<open>Token_Pages\<close>: \<open>tokens.go\<close>, \<open>elicitation_handler.go\<close>, \<open>oauth_protected_resource_handler.go\<close>.

  \<^bold>\<open>What is shown.\<close> Requests: what is not rejected carries a valid session or a backend-init token for
  its host, a tool call arrives with nothing but the prefix removed, internal headers never come from
  a client, each message of Envoy is answered once, streams are rewritten line by line however they are
  cut, and no mapping is left behind. Stores: owners of tasks are permanent, an elicitation is claimed
  once, tokens and ids are read back as stored, and no operation fails a type assertion. Broker: the
  gateway, the managers and the routing table agree in every reachable state, a reload leaves what is
  configured, short outages keep tools, notifications arrive, and scopes are bounded. Listings: a tool
  is shown only if signed claims, virtual server and scope admit it, discovery shows exactly what the
  caller may see, and a selection is what the session sees until it expires. Token pages: a token is
  stored only for the elicitation it answers, and an elicitation answered in time ends with the token
  at the router. Agent cards: what is served belongs to a registered agent and stays on the gateway.
  Progress: calls that take \<open>mcpLock\<close> once finish within a bound on their steps; calls that nest it can
  block for good. Five properties state defects: a reload that
  changes the presence of tags never returns, nested locks block, a redefined tool is not served anew,
  a change of the gateway host does not recheck cards, and an authorized listing above the threshold is
  empty.

  \<^bold>\<open>Fuel and termination.\<close> The JSON parser and the reader of raw members take fuel. Both are
  started with more than twice the length of their input, which the lemmas on encoded values show to be
  enough; \<open>maxNestingDepth\<close> is the limit of the Go decoder. All other functions are total by structural recursion or by a measure. The only loops
  of the code without an end, those of goroutines, are step relations.

  \<^bold>\<open>Not modelled.\<close> The controllers (\<open>internal/controller\<close>) and API types: they read and write Kubernetes
  objects through the controller runtime, and what they produce, the configuration secret, is the
  starting point here. \<open>http_compat.go\<close> and \<open>session_resurrection.go\<close> wrap the HTTP handler of the SDK and
  are defined by its behaviour. \<open>hints.go\<close>, \<open>notification_watcher.go\<close>, \<open>clients.go\<close> and \<open>transport.go\<close> adapt SDK
  and HTTP clients; what they deliver is an argument of the managers and of the router. Of
  \<open>user_specific_tools.go\<close> only the pool and the lifetime of a session are modelled, and of \<open>broker.go\<close> not the
  middleware chain. Telemetry, logs, generated copies, commands and test servers are left out. The
  properties on tokens, owners and elicitations are about the in-memory stores; the Redis variants are
  modelled, with the round trip of the request ids shown.
\<close>

end
